theory Spec2Isabelle
  imports Main "HOL-Library.Word"
begin

unbundle bit_operations_syntax

section \<open>Bytes, strings and JavaScript primitives\<close>

type_synonym byte = "8 word"
type_synonym bytes = "byte list"

text \<open>
  Solidity value types. A TypeScript hex string \<open>0x...\<close> that stands for a hash or for
  encoded data is represented by the byte list it denotes; merchant, token and contract
  addresses stay strings, because the code tests their syntax.
\<close>

type_synonym bytes32 = "256 word"
type_synonym uint256 = "256 word"
type_synonym uint64 = "64 word"
type_synonym address = "160 word"

text \<open>BigInt division \<open>a / b\<close> truncates towards zero; every divisor below is nonzero
  where it is used, except in \<open>sqrt_loop\<close>, which tests it.\<close>

definition bigint_div :: "int \<Rightarrow> int \<Rightarrow> int" where
  "bigint_div a b = sgn a * sgn b * (\<bar>a\<bar> div \<bar>b\<bar>)"

text \<open>\<open>String.prototype.toLowerCase\<close> on the ASCII range.\<close>

definition lowerChar :: "char \<Rightarrow> char" where
  "lowerChar c = (let n = (of_char c :: nat) in if 65 \<le> n \<and> n \<le> 90 then char_of (n + 32) else c)"

definition toLowerCase :: "string \<Rightarrow> string" where
  "toLowerCase s = map lowerChar s"

text \<open>Decimal printing of integers (\<open>toString\<close>, template literals) and \<open>parseInt\<close> on
  the digit strings it is applied to. An epoch is a JavaScript number holding an integer;
  it is printed in decimal (the exponent notation of numbers from \<open>1e21\<close> on is not
  modelled), and a number with a fraction, on which \<open>BigInt\<close> throws, is not an epoch
  here.\<close>

function show_nat :: "nat \<Rightarrow> string" where
  "show_nat n = (if n < 10 then [char_of (48 + n)]
                 else show_nat (n div 10) @ [char_of (48 + n mod 10)])"
  by pat_completeness auto
termination
  by (relation "measure id") auto

declare show_nat.simps [simp del]

definition toString :: "int \<Rightarrow> string" where
  "toString i = (if i < 0 then CHR ''-'' # show_nat (nat (- i)) else show_nat (nat i))"

definition parseInt :: "string \<Rightarrow> int" where
  "parseInt s = int (foldl (\<lambda>acc c. 10 * acc + ((of_char c :: nat) - 48)) 0 s)"

text \<open>\<open>parseInt(Date.now().toString().slice(0, 6))\<close>; the argument is the reading of
  \<open>Date.now()\<close> in milliseconds.\<close>

definition clockEpoch :: "nat \<Rightarrow> int" where
  "clockEpoch now = parseInt (take 6 (show_nat now))"

fun join :: "string \<Rightarrow> string list \<Rightarrow> string" where
  "join sep [] = []"
| "join sep [x] = x"
| "join sep (x # y # ys) = x @ sep @ join sep (y # ys)"

text \<open>The regular expression \<open>/^0x[a-fA-F0-9]{40}$/\<close>.\<close>

definition isHexChar :: "char \<Rightarrow> bool" where
  "isHexChar c = (let n = (of_char c :: nat) in
     (48 \<le> n \<and> n \<le> 57) \<or> (97 \<le> n \<and> n \<le> 102) \<or> (65 \<le> n \<and> n \<le> 70))"

definition isValidAddress :: "string \<Rightarrow> bool" where
  "isValidAddress s = (length s = 42 \<and> take 2 s = ''0x'' \<and> list_all isHexChar (drop 2 s))"

text \<open>\<open>Buffer.from(s, 'hex')\<close>: pairs of hex digits, stopping at the first pair that is
  not one.\<close>

definition hexValue :: "char \<Rightarrow> nat option" where
  "hexValue c = (let n = (of_char c :: nat) in
     if 48 \<le> n \<and> n \<le> 57 then Some (n - 48)
     else if 97 \<le> n \<and> n \<le> 102 then Some (n - 87)
     else if 65 \<le> n \<and> n \<le> 70 then Some (n - 55)
     else None)"

fun bufferFromHex :: "string \<Rightarrow> bytes" where
  "bufferFromHex (c # d # rest) =
     (case hexValue c of
        None \<Rightarrow> []
      | Some hi \<Rightarrow> (case hexValue d of
                     None \<Rightarrow> []
                   | Some lo \<Rightarrow> of_nat (16 * hi + lo) # bufferFromHex rest))"
| "bufferFromHex _ = []"

definition hexChar :: "nat \<Rightarrow> char" where
  "hexChar n = (if n < 10 then char_of (48 + n) else char_of (87 + n))"

definition hexString :: "bytes \<Rightarrow> string" where
  "hexString bs = ''0x'' @ concat (map (\<lambda>b. [hexChar (unat b div 16), hexChar (unat b mod 16)]) bs)"

text \<open>viem's \<open>toHex\<close> of a string: its bytes.\<close>

definition stringToBytes :: "string \<Rightarrow> bytes" where
  "stringToBytes s = map (\<lambda>c. of_nat (of_char c)) s"

section \<open>Fixed-width big-endian packing\<close>

text \<open>Byte \<open>i\<close> (0 is the most significant) of a 32-byte word, as \<open>mstore\<close> lays it out.\<close>

definition byte_at :: "256 word \<Rightarrow> nat \<Rightarrow> byte" where
  "byte_at v i = ucast (drop_bit (8 * (31 - i)) v)"

definition word_bytes :: "256 word \<Rightarrow> bytes" where
  "word_bytes v = map (byte_at v) [0..<32]"

text \<open>\<open>TransactionBuilder.u256ToBytes\<close>: the loop \<open>for (i = 31; i >= 0; i--)\<close> runs with
  \<open>i + 1\<close> as the counter.\<close>

fun u256_loop :: "nat \<Rightarrow> int \<Rightarrow> bytes \<Rightarrow> bytes" where
  "u256_loop 0 x b = b"
| "u256_loop (Suc i) x b = u256_loop i (drop_bit 8 x) (b[i := word_of_int (x AND 255)])"

definition u256ToBytes :: "int \<Rightarrow> bytes" where
  "u256ToBytes n = u256_loop 32 n (replicate 32 0)"

section \<open>The hashing and ABI library (viem)\<close>

datatype ts_error =
    JsError string
  | InvalidAddressError string
  | BytesSizeMismatchError
  | IntegerOutOfRangeError

datatype abi_value = Address string | Bytes32 bytes | Uint256 int | Uint64 int

text \<open>
  The library is not part of the repository. Its hash function and the EIP-55 checksum test
  inside \<open>isAddress\<close> are parameters; nothing is assumed about them. Its encoders are
  modelled on the value types that the agent passes to them.
\<close>

record viem =
  keccak :: "bytes \<Rightarrow> bytes32"
  checksumOk :: "string \<Rightarrow> bool"

definition keccak256 :: "viem \<Rightarrow> bytes \<Rightarrow> bytes" where
  "keccak256 L bs = word_bytes (keccak L bs)"

definition isAddress :: "viem \<Rightarrow> string \<Rightarrow> bool" where
  "isAddress L s = (isValidAddress s \<and> (toLowerCase s = s \<or> checksumOk L s))"

definition int_bytes :: "nat \<Rightarrow> int \<Rightarrow> bytes" where
  "int_bytes k n = map (\<lambda>i. word_of_int (drop_bit (8 * (k - 1 - i)) n)) [0..<k]"

text \<open>\<open>encodePacked\<close>, after Solidity's \<open>abi.encodePacked\<close>: values at their own width,
  integers big-endian; a value that does not fit its type throws.\<close>

fun encodePacked1 :: "viem \<Rightarrow> abi_value \<Rightarrow> ts_error + bytes" where
  "encodePacked1 L (Address s) =
     (if isAddress L s then Inr (bufferFromHex (drop 2 (toLowerCase s)))
      else Inl (InvalidAddressError s))"
| "encodePacked1 L (Bytes32 b) =
     (if length b = 32 then Inr b else Inl BytesSizeMismatchError)"
| "encodePacked1 L (Uint256 n) =
     (if 0 \<le> n \<and> n < 2 ^ 256 then Inr (int_bytes 32 n) else Inl IntegerOutOfRangeError)"
| "encodePacked1 L (Uint64 n) =
     (if 0 \<le> n \<and> n < 2 ^ 64 then Inr (int_bytes 8 n) else Inl IntegerOutOfRangeError)"

fun encodePacked :: "viem \<Rightarrow> abi_value list \<Rightarrow> ts_error + bytes" where
  "encodePacked L [] = Inr []"
| "encodePacked L (v # vs) =
     (case encodePacked1 L v of
        Inl e \<Rightarrow> Inl e
      | Inr b \<Rightarrow> (case encodePacked L vs of Inl e \<Rightarrow> Inl e | Inr bs \<Rightarrow> Inr (b @ bs)))"

text \<open>
  \<open>encodeFunctionData\<close>, after Solidity's \<open>abi.encodeWithSelector\<close> on static types:
  the first four bytes of the hash of the signature, then one 32-byte word for each
  argument. The arguments are encoded in their order, and the first one that is not a value
  of its type throws: \<open>InvalidAddressError\<close> for an \<open>address\<close> that \<open>isAddress\<close>
  refuses.
\<close>

fun encodeAbiParameter :: "viem \<Rightarrow> abi_value \<Rightarrow> ts_error + bytes" where
  "encodeAbiParameter L (Address s) =
     (if isAddress L s then Inr (replicate 12 0 @ bufferFromHex (drop 2 (toLowerCase s)))
      else Inl (InvalidAddressError s))"
| "encodeAbiParameter L (Bytes32 b) =
     (if length b = 32 then Inr b else Inl BytesSizeMismatchError)"
| "encodeAbiParameter L (Uint256 n) =
     (if 0 \<le> n \<and> n < 2 ^ 256 then Inr (int_bytes 32 n) else Inl IntegerOutOfRangeError)"
| "encodeAbiParameter L (Uint64 n) =
     (if 0 \<le> n \<and> n < 2 ^ 64 then Inr (int_bytes 32 n) else Inl IntegerOutOfRangeError)"

fun encodeAbiParameters :: "viem \<Rightarrow> abi_value list \<Rightarrow> ts_error + bytes" where
  "encodeAbiParameters L [] = Inr []"
| "encodeAbiParameters L (v # vs) =
     (case encodeAbiParameter L v of
        Inl e \<Rightarrow> Inl e
      | Inr b \<Rightarrow> (case encodeAbiParameters L vs of Inl e \<Rightarrow> Inl e | Inr bs \<Rightarrow> Inr (b @ bs)))"

definition encodeFunctionData :: "viem \<Rightarrow> string \<Rightarrow> abi_value list \<Rightarrow> ts_error + bytes" where
  "encodeFunctionData L signature args =
     (case encodeAbiParameters L args of
        Inl e \<Rightarrow> Inl e
      | Inr b \<Rightarrow> Inr (take 4 (keccak256 L (stringToBytes signature)) @ b))"

section \<open>Data model of the agent (types.ts)\<close>

record AgentConfig =
  chainId :: int
  rpcUrl :: string
  bundlerUrl :: string
  paymasterAddress :: string
  easAddress :: string
  entryPointAddress :: string
  modelId :: string
  maxGasPrice :: int
  maxTransactionValue :: int
  defaultEpoch :: int
  allowedTokens :: "string list"
  allowedMerchants :: "string list"
  attesterPrivateKey :: "string option"
  schemaUID :: string

text \<open>\<open>metadata\<close> is an object read only by \<open>JSON.stringify\<close>; it is represented by
  that JSON text.\<close>

record PaymentRequest =
  merchant :: string
  tokenIn :: string
  amountIn :: int
  description :: string
  metadata :: "string option"

text \<open>\<open>confidence\<close>, a floating-point number, is left out of the decision record.\<close>

record AgentDecision =
  approved :: bool
  reason :: string
  riskScore :: int
  flags :: "string list"
  suggestedAction :: "string option"

record PolicyValidation =
  valid :: bool
  violations :: "string list"
  warnings :: "string list"
  capRemaining :: int
  epochValid :: bool

record Attestation_ts =
  ts_uid :: bytes
  ts_schema :: string
  ts_attester :: string
  recipient :: string
  ts_time :: int
  ts_expirationTime :: int
  revocable :: bool
  refUID :: string
  data :: bytes

record TransactionPlan =
  userOpHash :: bytes
  callData :: bytes
  target :: string
  plan_value :: int
  gasEstimate :: int
  policyHash :: bytes
  epoch :: int

record AgentAnalysis =
  request :: PaymentRequest
  decision :: AgentDecision
  policyValidation :: PolicyValidation
  transactionPlan :: TransactionPlan
  attestation :: "Attestation_ts option"
  timestamp :: nat

record RiskFactors =
  merchantUnknown :: bool
  tokenUnknown :: bool
  amountUnusual :: bool
  gasUnusual :: bool
  recentFailures :: int
  velocityExceeded :: bool

record MerchantInfo =
  merchantAddress :: string
  merchantName :: "string option"
  verified :: bool
  merchantRiskScore :: int
  transactionCount :: int
  lastSeen :: "int option"

section \<open>RiskAnalyzer (riskAnalyzer.ts)\<close>

record RiskAnalyzer =
  merchantDatabase :: "string \<rightharpoonup> MerchantInfo"
  transactionHistory :: "PaymentRequest list"

text \<open>
  The loop of \<open>sqrt\<close>. \<open>None\<close> means that the call returns no value: the loop does not
  end, or \<open>value / x\<close> divides by \<open>0n\<close> and throws.
\<close>

partial_function (option) sqrt_loop :: "int \<Rightarrow> int \<Rightarrow> int \<Rightarrow> int option" where
  "sqrt_loop v x y =
     (if y < x
      then (if y = 0 then None
            else sqrt_loop v y (bigint_div (y + bigint_div v y) 2))
      else Some x)"

declare sqrt_loop.simps [code]

definition sqrt_bigint :: "int \<Rightarrow> int option" where
  "sqrt_bigint v =
     (if v < 0 then Some 0
      else if v < 2 then Some v
      else sqrt_loop v v (bigint_div (v + 1) 2))"

definition calculateStdDev :: "int list \<Rightarrow> int \<Rightarrow> int option" where
  "calculateStdDev amounts avg =
     (if length amounts = 0 then Some 0
      else
        let squaredDiffs = map (\<lambda>a. let diff = (if a > avg then a - avg else avg - a)
                                      in diff * diff) amounts;
            avgSquaredDiff = bigint_div (foldl (\<lambda>sum d. sum + d) 0 squaredDiffs)
                                        (int (length amounts))
        in sqrt_bigint avgSquaredDiff)"

definition isUnusualAmount :: "RiskAnalyzer \<Rightarrow> int \<Rightarrow> bool option" where
  "isUnusualAmount ra amount =
     (if length (transactionHistory ra) < 10 then Some False
      else
        let amounts = map amountIn (transactionHistory ra);
            avg = bigint_div (foldl (\<lambda>sum a. sum + a) 0 amounts) (int (length amounts))
        in case calculateStdDev amounts avg of
             None \<Rightarrow> None
           | Some stdDev \<Rightarrow> Some (amount > avg + stdDev * 2 \<or> amount < avg - stdDev * 2))"

definition knownTokens :: "string list" where
  "knownTokens =
     [''0xa0b86991c6218b36c1d19d4a2e9eb0ce3606eb48'',
      ''0xdac17f958d2ee523a2206206994597c13d831ec7'',
      ''0x6b175474e89094c44da98b954eedeac495271d0f'']"

definition isUnknownToken :: "string \<Rightarrow> bool" where
  "isUnknownToken token = (\<not> List.member knownTokens (toLowerCase token))"

definition getRecentFailures :: "string \<Rightarrow> int" where
  "getRecentFailures m = 0"

definition checkVelocity :: "RiskAnalyzer \<Rightarrow> string \<Rightarrow> bool" where
  "checkVelocity ra m =
     (let recentToMerchant =
            filter (\<lambda>tx. toLowerCase (merchant tx) = toLowerCase m) (transactionHistory ra)
      in length recentToMerchant > 5)"

definition identifyRiskFactors :: "RiskAnalyzer \<Rightarrow> PaymentRequest \<Rightarrow> RiskFactors option" where
  "identifyRiskFactors ra req =
     (let m = merchantDatabase ra (toLowerCase (merchant req)) in
      case isUnusualAmount ra (amountIn req) of
        None \<Rightarrow> None
      | Some unusual \<Rightarrow>
          Some \<lparr> merchantUnknown = (m = None),
                 tokenUnknown = isUnknownToken (tokenIn req),
                 amountUnusual = unusual,
                 gasUnusual = False,
                 recentFailures = getRecentFailures (merchant req),
                 velocityExceeded = checkVelocity ra (merchant req) \<rparr>)"

definition calculateRiskScore :: "RiskFactors \<Rightarrow> bool \<Rightarrow> int" where
  "calculateRiskScore factors policyValid =
     (let score = 0;
          score = (if \<not> policyValid then score + 100 else score);
          score = (if merchantUnknown factors then score + 20 else score);
          score = (if tokenUnknown factors then score + 15 else score);
          score = (if amountUnusual factors then score + 25 else score);
          score = (if gasUnusual factors then score + 10 else score);
          score = (if velocityExceeded factors then score + 30 else score);
          score = score + recentFailures factors * 10
      in min score 100)"

definition riskFlags :: "RiskFactors \<Rightarrow> string list" where
  "riskFlags factors =
     (if merchantUnknown factors then [''UNKNOWN_MERCHANT''] else []) @
     (if tokenUnknown factors then [''UNKNOWN_TOKEN''] else []) @
     (if amountUnusual factors then [''UNUSUAL_AMOUNT''] else []) @
     (if velocityExceeded factors then [''HIGH_VELOCITY''] else []) @
     (if recentFailures factors > 0 then [''RECENT_FAILURES''] else [])"

text \<open>The decision logic of \<open>analyze\<close> (the chain of \<open>if\<close>s on the score), which sets
  \<open>approved\<close>, \<open>reason\<close>, \<open>suggestedAction\<close> and may push one more flag.\<close>

definition decisionLogic :: "bool \<Rightarrow> int \<Rightarrow> string list \<Rightarrow> AgentDecision" where
  "decisionLogic policyValid score fl =
     (if \<not> policyValid then
        \<lparr> approved = False, reason = ''Policy validation failed'', riskScore = score,
          flags = fl, suggestedAction = Some ''Fix policy violations and retry'' \<rparr>
      else if score < 30 then
        \<lparr> approved = True, reason = ''Low risk transaction'', riskScore = score,
          flags = fl, suggestedAction = None \<rparr>
      else if score < 60 then
        \<lparr> approved = True, reason = ''Medium risk transaction - approved with monitoring'',
          riskScore = score, flags = fl @ [''REQUIRES_MONITORING''], suggestedAction = None \<rparr>
      else if score < 80 then
        \<lparr> approved = False, reason = ''High risk transaction - requires review'',
          riskScore = score, flags = fl @ [''REQUIRES_REVIEW''],
          suggestedAction = Some ''Manual review required'' \<rparr>
      else
        \<lparr> approved = False, reason = ''Very high risk transaction - rejected'',
          riskScore = score, flags = fl,
          suggestedAction = Some ''Transaction blocked due to high risk'' \<rparr>)"

definition recordTransaction :: "RiskAnalyzer \<Rightarrow> PaymentRequest \<Rightarrow> RiskAnalyzer" where
  "recordTransaction ra req =
     (let h = transactionHistory ra @ [req]
      in ra \<lparr> transactionHistory := (if length h > 1000 then drop (length h - 1000) h else h) \<rparr>)"

definition analyze :: "RiskAnalyzer \<Rightarrow> PaymentRequest \<Rightarrow> bool \<Rightarrow> (RiskAnalyzer \<times> AgentDecision) option" where
  "analyze ra req policyValid =
     (case identifyRiskFactors ra req of
        None \<Rightarrow> None
      | Some riskFactors \<Rightarrow>
          let score = calculateRiskScore riskFactors policyValid;
              d = decisionLogic policyValid score (riskFlags riskFactors)
          in Some (recordTransaction ra req, d))"

section \<open>PolicyValidator (policyValidator.ts)\<close>

record PolicyValidator =
  epochSpending :: "int \<rightharpoonup> int"

definition getEpochSpending :: "PolicyValidator \<Rightarrow> int \<Rightarrow> int" where
  "getEpochSpending pv e = (case epochSpending pv e of None \<Rightarrow> 0 | Some v \<Rightarrow> v)"

definition recordSpending :: "PolicyValidator \<Rightarrow> int \<Rightarrow> int \<Rightarrow> PolicyValidator" where
  "recordSpending pv e amount =
     (let current = (case epochSpending pv e of None \<Rightarrow> 0 | Some v \<Rightarrow> v)
      in pv \<lparr> epochSpending := (epochSpending pv)(e \<mapsto> current + amount) \<rparr>)"

definition resetEpochSpending :: "PolicyValidator \<Rightarrow> int \<Rightarrow> PolicyValidator" where
  "resetEpochSpending pv e = pv \<lparr> epochSpending := (epochSpending pv)(e := None) \<rparr>"

text \<open>
  \<open>validate\<close> pushes its violations one check after the other; the list is the
  concatenation of what each check pushes. \<open>now\<close> is the reading of \<open>Date.now()\<close>.
\<close>

definition policyValidator_validate ::
  "AgentConfig \<Rightarrow> PolicyValidator \<Rightarrow> nat \<Rightarrow> PaymentRequest \<Rightarrow> int \<Rightarrow> PolicyValidation" where
  "policyValidator_validate cfg pv now req ep =
     (let currentSpending = (case epochSpending pv ep of None \<Rightarrow> 0 | Some v \<Rightarrow> v);
          capRem = maxTransactionValue cfg * 10 - currentSpending;
          currentEpoch = clockEpoch now;
          epochOk = (\<bar>ep - currentEpoch\<bar> \<le> 1);
          vs =
            (if length (allowedTokens cfg) > 0 \<and>
                \<not> List.member (allowedTokens cfg) (toLowerCase (tokenIn req))
             then [''Token '' @ tokenIn req @ '' is not in allowlist''] else []) @
            (if length (allowedMerchants cfg) > 0 \<and>
                \<not> List.member (allowedMerchants cfg) (toLowerCase (merchant req))
             then [''Merchant '' @ merchant req @ '' is not in allowlist''] else []) @
            (if amountIn req > maxTransactionValue cfg
             then [''Amount '' @ toString (amountIn req) @ '' exceeds max transaction value '' @
                   toString (maxTransactionValue cfg)] else []) @
            (if amountIn req = 0 then [''Amount cannot be zero''] else []) @
            (if currentSpending + amountIn req > maxTransactionValue cfg * 10
             then [''Epoch spending limit exceeded. Remaining: '' @ toString capRem] else []) @
            (if \<not> epochOk
             then [''Invalid epoch '' @ toString ep @ ''. Current epoch: '' @ toString currentEpoch]
             else []) @
            (if \<not> isValidAddress (merchant req)
             then [''Invalid merchant address: '' @ merchant req] else []) @
            (if \<not> isValidAddress (tokenIn req)
             then [''Invalid token address: '' @ tokenIn req] else []);
          ws = (if capRem < maxTransactionValue cfg
                then [''Low epoch cap remaining: '' @ toString capRem] else [])
      in \<lparr> valid = (length vs = 0), violations = vs, warnings = ws,
           capRemaining = capRem, epochValid = epochOk \<rparr>)"

section \<open>TransactionBuilder (transactionBuilder.ts)\<close>

definition zeroAddress :: string where
  "zeroAddress = ''0x'' @ replicate 40 CHR ''0''"

definition encodePaymentCall :: "viem \<Rightarrow> nat \<Rightarrow> PaymentRequest \<Rightarrow> ts_error + bytes" where
  "encodePaymentCall L now req =
     encodeFunctionData L
       ''emitReceipt(address,address,address,address,uint256,uint256,bytes32,uint256,bytes32)''
       [Address zeroAddress,
        Address (merchant req),
        Address (tokenIn req),
        Address (tokenIn req),
        Uint256 (amountIn req),
        Uint256 (amountIn req),
        Bytes32 (keccak256 L (stringToBytes (case metadata req of None \<Rightarrow> ''{}'' | Some j \<Rightarrow> j))),
        Uint256 (clockEpoch now),
        Bytes32 (replicate 32 0)]"

definition calculateUserOpHash :: "viem \<Rightarrow> PaymentRequest \<Rightarrow> bytes \<Rightarrow> bytes" where
  "calculateUserOpHash L req cd =
     keccak256 L (bufferFromHex (drop 2 (merchant req)) @
                  bufferFromHex (drop 2 (tokenIn req)) @
                  u256ToBytes (amountIn req) @
                  cd)"

definition estimateGas :: "PaymentRequest \<Rightarrow> int" where
  "estimateGas req = (let baseGas = 21000; callGas = 100000; paymasterGas = 50000
                      in baseGas + callGas + paymasterGas)"

text \<open>The policy hash of \<open>buildPlan\<close>:
  \<open>keccak256(Buffer.concat([userOpHash bytes, u256ToBytes(BigInt(epoch))]))\<close>.\<close>

definition planPolicyHash :: "viem \<Rightarrow> bytes \<Rightarrow> int \<Rightarrow> bytes" where
  "planPolicyHash L uoh ep = keccak256 L (uoh @ u256ToBytes ep)"

definition buildPlan :: "viem \<Rightarrow> nat \<Rightarrow> PaymentRequest \<Rightarrow> int \<Rightarrow> ts_error + TransactionPlan" where
  "buildPlan L now req ep =
     (case encodePaymentCall L now req of
        Inl e \<Rightarrow> Inl e
      | Inr cd \<Rightarrow>
          let uoh = calculateUserOpHash L req cd;
              ph = planPolicyHash L uoh ep;
              gas = estimateGas req
          in Inr \<lparr> userOpHash = uoh, callData = cd, target = merchant req, plan_value = 0,
                   gasEstimate = gas, policyHash = ph, epoch = ep \<rparr>)"

text \<open>A hash is a 32-byte list here, so the test \<open>startsWith('0x') && length === 66\<close> on
  its hex string is a test of that length.\<close>

definition transactionBuilder_validate :: "TransactionPlan \<Rightarrow> bool \<times> string list" where
  "transactionBuilder_validate plan =
     (let errors =
            (if gasEstimate plan > 1000000
             then [''Gas estimate too high: '' @ toString (gasEstimate plan)] else []) @
            (if gasEstimate plan = 0 then [''Gas estimate cannot be zero''] else []) @
            (if \<not> isValidAddress (target plan)
             then [''Invalid target address: '' @ target plan] else []) @
            (if length (userOpHash plan) \<noteq> 32
             then [''Invalid userOpHash format: '' @ hexString (userOpHash plan)] else []) @
            (if length (policyHash plan) \<noteq> 32
             then [''Invalid policyHash format: '' @ hexString (policyHash plan)] else [])
      in (length errors = 0, errors))"

section \<open>AttestationManager (attestationManager.ts)\<close>

definition encodeAttestationData ::
  "viem \<Rightarrow> string \<Rightarrow> string \<Rightarrow> string \<Rightarrow> bytes \<Rightarrow> bytes \<Rightarrow> int \<Rightarrow> ts_error + bytes" where
  "encodeAttestationData L mid prompt planDescription uoh ph ep =
     (let modelHash = keccak256 L (stringToBytes mid);
          promptHash = keccak256 L (stringToBytes prompt);
          planHash = keccak256 L (stringToBytes planDescription)
      in case encodePacked L [Bytes32 modelHash, Bytes32 promptHash, Bytes32 planHash,
                              Bytes32 uoh, Bytes32 ph, Uint256 ep] of
           Inl e \<Rightarrow> Inl e
         | Inr b \<Rightarrow> Inr (keccak256 L b))"

definition createAttestation ::
  "viem \<Rightarrow> AgentConfig \<Rightarrow> nat \<Rightarrow> TransactionPlan \<Rightarrow> string \<Rightarrow> string \<Rightarrow> string \<Rightarrow>
   ts_error + Attestation_ts" where
  "createAttestation L cfg nowMs plan mid prompt planDescription =
     (let now = int (nowMs div 1000);
          expiration = now + 3600
      in case encodeAttestationData L mid prompt planDescription
                (userOpHash plan) (policyHash plan) (epoch plan) of
           Inl e \<Rightarrow> Inl e
         | Inr attestationData \<Rightarrow>
             (case encodePacked L [Bytes32 attestationData, Address (paymasterAddress cfg),
                                   Uint64 now] of
                Inl e \<Rightarrow> Inl e
              | Inr b \<Rightarrow>
                  Inr \<lparr> ts_uid = keccak256 L b,
                        ts_schema = schemaUID cfg,
                        ts_attester = paymasterAddress cfg,
                        recipient = target plan,
                        ts_time = now,
                        ts_expirationTime = expiration,
                        revocable = True,
                        refUID = ''0x'' @ replicate 64 CHR ''0'',
                        data = attestationData \<rparr>))"

definition verifyAttestation :: "AgentConfig \<Rightarrow> nat \<Rightarrow> Attestation_ts \<Rightarrow> bool" where
  "verifyAttestation cfg nowMs att =
     (let now = int (nowMs div 1000)
      in if ts_expirationTime att > 0 \<and> ts_expirationTime att < now then False
         else if ts_schema att \<noteq> schemaUID cfg then False
         else True)"

definition buildPaymasterAndData ::
  "viem \<Rightarrow> AgentConfig \<Rightarrow> Attestation_ts \<Rightarrow> bytes \<Rightarrow> int \<Rightarrow> ts_error + bytes" where
  "buildPaymasterAndData L cfg att ph ep =
     encodePacked L [Address (paymasterAddress cfg), Bytes32 (ts_uid att), Bytes32 ph, Uint256 ep]"

definition calculatePolicyHash :: "viem \<Rightarrow> bytes \<Rightarrow> int \<Rightarrow> ts_error + bytes" where
  "calculatePolicyHash L uoh ep =
     (case encodePacked L [Bytes32 uoh, Uint256 ep] of
        Inl e \<Rightarrow> Inl e
      | Inr b \<Rightarrow> Inr (keccak256 L b))"

section \<open>zkAgent (agent.ts)\<close>

record zkAgent =
  config :: AgentConfig
  policyValidator :: PolicyValidator
  riskAnalyzer :: RiskAnalyzer

definition zkAgent_new :: "AgentConfig \<Rightarrow> zkAgent" where
  "zkAgent_new cfg =
     \<lparr> config = cfg,
       policyValidator = \<lparr> epochSpending = Map.empty \<rparr>,
       riskAnalyzer = \<lparr> merchantDatabase = Map.empty, transactionHistory = [] \<rparr> \<rparr>"

record options =
  opt_modelId :: "string option"
  opt_prompt :: "string option"
  opt_planDescription :: "string option"
  opt_epoch :: "int option"
  skipRiskAnalysis :: bool

text \<open>The readings of \<open>Date.now()\<close> that one call of \<open>processPayment\<close> takes, in the
  order of the calls; nothing relates them.\<close>

record clock =
  t_start :: nat
  t_epoch :: nat
  t_call :: nat
  t_validate :: nat
  t_attest :: nat
  t_verify :: nat

text \<open>\<open>a || b\<close> on an optional string and on an optional number.\<close>

definition orString :: "string option \<Rightarrow> string \<Rightarrow> string" where
  "orString a b = (case a of None \<Rightarrow> b | Some s \<Rightarrow> if s = [] then b else s)"

definition orNumber :: "int option \<Rightarrow> int \<Rightarrow> int" where
  "orNumber a b = (case a of None \<Rightarrow> b | Some n \<Rightarrow> if n = 0 then b else n)"

definition validateConfiguration :: "AgentConfig \<Rightarrow> bool \<times> string list" where
  "validateConfiguration cfg =
     (let errors =
            (if paymasterAddress cfg = [] then [''Paymaster address not configured''] else []) @
            (if rpcUrl cfg = [] then [''RPC URL not configured''] else [])
      in (length errors = 0, errors))"

text \<open>
  \<open>processPayment\<close>. The result is the agent after the call and what the call gave:
  the error thrown, or the analysis returned; \<open>None\<close> would be a call that never ends.
  The function is asynchronous: this is one call run to its end, with no other call of the
  agent in between. Logging is left out.
\<close>

definition processPayment ::
  "viem \<Rightarrow> clock \<Rightarrow> zkAgent \<Rightarrow> PaymentRequest \<Rightarrow> options \<Rightarrow>
   (zkAgent \<times> (ts_error + AgentAnalysis)) option" where
  "processPayment L clk ag req opts =
     (let startTime = t_start clk;
          configValidation = validateConfiguration (config ag)
      in
      if \<not> fst configValidation
      then Some (ag, Inl (JsError (''Configuration invalid: '' @ join '', '' (snd configValidation))))
      else
        let ep = orNumber (opt_epoch opts) (clockEpoch (t_epoch clk)) in
        case buildPlan L (t_call clk) req ep of
          Inl e \<Rightarrow> Some (ag, Inl e)
        | Inr plan \<Rightarrow>
            let planValidation = transactionBuilder_validate plan in
            if \<not> fst planValidation
            then Some (ag, Inl (JsError (''Transaction plan invalid: '' @ join '', '' (snd planValidation))))
            else
              let pval = policyValidator_validate (config ag) (policyValidator ag)
                           (t_validate clk) req ep
              in
              case (if skipRiskAnalysis opts
                    then Some (riskAnalyzer ag,
                               \<lparr> approved = valid pval,
                                 reason = (if valid pval then ''Policy valid, risk analysis skipped''
                                           else ''Policy validation failed''),
                                 riskScore = 0, flags = [], suggestedAction = None \<rparr>)
                    else analyze (riskAnalyzer ag) req (valid pval)) of
                None \<Rightarrow> None
              | Some (ra, dec) \<Rightarrow>
                  let ag1 = ag \<lparr> riskAnalyzer := ra \<rparr> in
                  if approved dec then
                    (case createAttestation L (config ag) (t_attest clk) plan
                            (orString (opt_modelId opts) (modelId (config ag)))
                            (orString (opt_prompt opts)
                               (''Pay '' @ merchant req @ '' '' @ toString (amountIn req) @
                                '' of '' @ tokenIn req))
                            (orString (opt_planDescription opts) (description req)) of
                       Inl e \<Rightarrow> Some (ag1, Inl e)
                     | Inr att \<Rightarrow>
                         if \<not> verifyAttestation (config ag) (t_verify clk) att
                         then Some (ag1, Inl (JsError ''Attestation verification failed''))
                         else
                           Some (ag1 \<lparr> policyValidator :=
                                        recordSpending (policyValidator ag1) ep (amountIn req) \<rparr>,
                                 Inr \<lparr> request = req, decision = dec, policyValidation = pval,
                                       transactionPlan = plan, attestation = Some att,
                                       timestamp = startTime \<rparr>))
                  else
                    Some (ag1,
                          Inr \<lparr> request = req, decision = dec, policyValidation = pval,
                                transactionPlan = plan, attestation = None,
                                timestamp = startTime \<rparr>))"

subsection \<open>Calls in flight together\<close>

text \<open>
  \<open>processPayment\<close> is an \<open>async\<close> function: it runs when it is called up to its first
  \<open>await\<close>, every \<open>await\<close> suspends it, and the suspended calls are resumed in the order
  in which they were suspended. Calls started in one synchronous run, as by
  \<open>Promise.all(requests.map(req => agent.processPayment(req)))\<close> (README.md, Batch
  Processing; examples/advanced-usage.ts), therefore advance in step: what a call does
  between two of its awaits is done for every call, in the order of the calls, before any
  call goes on. The state of the agent is read and written at three places, which the
  awaits of lines 76 and 95 of agent.ts and those of lines 101 and 109 separate:
  \<open>policyValidator.validate\<close> (line 76) reads the spending recorded so far;
  \<open>riskAnalyzer.analyze\<close> (line 95), which has no \<open>await\<close> inside, reads the history and
  pushes the request; \<open>recordSpending\<close> (line 115) is the only write to the spending. A
  call is cut into steps accordingly.
  \<open>prepareStep\<close> (lines 58 to 76): the configuration check, the epoch, \<open>buildPlan\<close>,
  the validation of the plan and \<open>policyValidator.validate\<close>. The \<open>await\<close> of line 67
  falls inside this step; what precedes it reads the configuration and the clock only.
  \<open>riskStep\<close> (lines 84 to 96): the decision, by \<open>riskAnalyzer.analyze\<close> unless it is
  skipped.
  \<open>attestStep\<close> (lines 98 to 112), for an approved decision: \<open>createAttestation\<close> and
  \<open>verifyAttestation\<close>, which read the configuration and the plan only.
  Then \<open>recordSpending\<close> (line 115) and the return.
  \<open>processPayment\<close> above is these steps one after the other (lemma
  \<open>processPayment_steps\<close>).
\<close>

definition prepareStep ::
  "viem \<Rightarrow> clock \<Rightarrow> zkAgent \<Rightarrow> PaymentRequest \<Rightarrow> options \<Rightarrow>
   ts_error + (int \<times> TransactionPlan \<times> PolicyValidation)" where
  "prepareStep L clk ag req opts =
     (let configValidation = validateConfiguration (config ag)
      in
      if \<not> fst configValidation
      then Inl (JsError (''Configuration invalid: '' @ join '', '' (snd configValidation)))
      else
        let ep = orNumber (opt_epoch opts) (clockEpoch (t_epoch clk)) in
        case buildPlan L (t_call clk) req ep of
          Inl e \<Rightarrow> Inl e
        | Inr plan \<Rightarrow>
            let planValidation = transactionBuilder_validate plan in
            if \<not> fst planValidation
            then Inl (JsError (''Transaction plan invalid: '' @ join '', '' (snd planValidation)))
            else Inr (ep, plan,
                      policyValidator_validate (config ag) (policyValidator ag)
                        (t_validate clk) req ep))"

definition riskStep ::
  "RiskAnalyzer \<Rightarrow> PaymentRequest \<Rightarrow> options \<Rightarrow> PolicyValidation \<Rightarrow>
   (RiskAnalyzer \<times> AgentDecision) option" where
  "riskStep ra req opts pval =
     (if skipRiskAnalysis opts
      then Some (ra,
                 \<lparr> approved = valid pval,
                   reason = (if valid pval then ''Policy valid, risk analysis skipped''
                             else ''Policy validation failed''),
                   riskScore = 0, flags = [], suggestedAction = None \<rparr>)
      else analyze ra req (valid pval))"

definition attestStep ::
  "viem \<Rightarrow> clock \<Rightarrow> AgentConfig \<Rightarrow> PaymentRequest \<Rightarrow> options \<Rightarrow> TransactionPlan \<Rightarrow>
   ts_error + Attestation_ts" where
  "attestStep L clk cfg req opts plan =
     (case createAttestation L cfg (t_attest clk) plan
             (orString (opt_modelId opts) (modelId cfg))
             (orString (opt_prompt opts)
                (''Pay '' @ merchant req @ '' '' @ toString (amountIn req) @
                 '' of '' @ tokenIn req))
             (orString (opt_planDescription opts) (description req)) of
        Inl e \<Rightarrow> Inl e
      | Inr att \<Rightarrow>
          if \<not> verifyAttestation cfg (t_verify clk) att
          then Inl (JsError ''Attestation verification failed'')
          else Inr att)"

text \<open>The risk steps of the calls in flight, in the order of the calls; a call that has
  thrown takes no further step.\<close>

fun riskRound ::
  "RiskAnalyzer \<Rightarrow>
   ((clock \<times> PaymentRequest \<times> options) \<times>
    (ts_error + (int \<times> TransactionPlan \<times> PolicyValidation))) list \<Rightarrow>
   (RiskAnalyzer \<times>
    (ts_error + (int \<times> TransactionPlan \<times> PolicyValidation \<times> AgentDecision)) list) option" where
  "riskRound ra [] = Some (ra, [])"
| "riskRound ra ((c, Inl e) # rest) =
     (case riskRound ra rest of
        None \<Rightarrow> None
      | Some (ra', ds) \<Rightarrow> Some (ra', Inl e # ds))"
| "riskRound ra (((clk, req, opts), Inr (ep, plan, pval)) # rest) =
     (case riskStep ra req opts pval of
        None \<Rightarrow> None
      | Some (ra1, dec) \<Rightarrow>
          (case riskRound ra1 rest of
             None \<Rightarrow> None
           | Some (ra', ds) \<Rightarrow> Some (ra', Inr (ep, plan, pval, dec) # ds)))"

text \<open>The end of a call: what it throws or returns, and the \<open>recordSpending (epoch, amount)\<close>
  that it runs before it returns an approved decision.\<close>

fun finishStep ::
  "viem \<Rightarrow> AgentConfig \<Rightarrow>
   (clock \<times> PaymentRequest \<times> options) \<times>
   (ts_error + (int \<times> TransactionPlan \<times> PolicyValidation \<times> AgentDecision)) \<Rightarrow>
   (ts_error + AgentAnalysis) \<times> (int \<times> int) option" where
  "finishStep L cfg (c, Inl e) = (Inl e, None)"
| "finishStep L cfg ((clk, req, opts), Inr (ep, plan, pval, dec)) =
     (if approved dec then
        (case attestStep L clk cfg req opts plan of
           Inl e \<Rightarrow> (Inl e, None)
         | Inr att \<Rightarrow>
             (Inr \<lparr> request = req, decision = dec, policyValidation = pval,
                    transactionPlan = plan, attestation = Some att, timestamp = t_start clk \<rparr>,
              Some (ep, amountIn req)))
      else
        (Inr \<lparr> request = req, decision = dec, policyValidation = pval,
               transactionPlan = plan, attestation = None, timestamp = t_start clk \<rparr>,
         None))"

fun commitRound :: "PolicyValidator \<Rightarrow> (int \<times> int) option list \<Rightarrow> PolicyValidator" where
  "commitRound pv [] = pv"
| "commitRound pv (None # cs) = commitRound pv cs"
| "commitRound pv (Some (ep, amount) # cs) = commitRound (recordSpending pv ep amount) cs"

text \<open>
  The calls of a batch, started together on the agent: the agent when all have ended, and
  the outcome of each call. Every \<open>prepareStep\<close> reads the agent as it was when the batch
  started, since no call has written to it by then. A call with \<open>skipRiskAnalysis\<close> has one
  \<open>await\<close> less and runs its last two steps one turn before the others; these steps read
  nothing that the others write, and \<open>recordSpending\<close> adds to a sum, so the outcome and
  the final agent are the same.
\<close>

definition processPaymentBatch ::
  "viem \<Rightarrow> zkAgent \<Rightarrow> (clock \<times> PaymentRequest \<times> options) list \<Rightarrow>
   (zkAgent \<times> (ts_error + AgentAnalysis) list) option" where
  "processPaymentBatch L ag calls =
     (let prepared = map (\<lambda>(clk, req, opts). prepareStep L clk ag req opts) calls
      in
      case riskRound (riskAnalyzer ag) (zip calls prepared) of
        None \<Rightarrow> None
      | Some (ra, decided) \<Rightarrow>
          let finished = map (finishStep L (config ag)) (zip calls decided)
          in Some (ag \<lparr> riskAnalyzer := ra,
                        policyValidator := commitRound (policyValidator ag) (map snd finished) \<rparr>,
                   map fst finished))"

text \<open>Batches run one after the other, each awaited before the next is started; calls
  awaited one by one are batches of one call.\<close>

fun processPaymentBatches ::
  "viem \<Rightarrow> zkAgent \<Rightarrow> (clock \<times> PaymentRequest \<times> options) list list \<Rightarrow>
   (zkAgent \<times> (ts_error + AgentAnalysis) list list) option" where
  "processPaymentBatches L ag [] = Some (ag, [])"
| "processPaymentBatches L ag (calls # rest) =
     (case processPaymentBatch L ag calls of
        None \<Rightarrow> None
      | Some (ag1, outs) \<Rightarrow>
          (case processPaymentBatches L ag1 rest of
             None \<Rightarrow> None
           | Some (ag2, outss) \<Rightarrow> Some (ag2, outs # outss)))"

text \<open>What calls committed in epoch \<open>e\<close>: the amounts of the analyses returned with an
  approved decision.\<close>

fun committedIn :: "int \<Rightarrow> (ts_error + AgentAnalysis) list \<Rightarrow> int list" where
  "committedIn e [] = []"
| "committedIn e (Inl err # outs) = committedIn e outs"
| "committedIn e (Inr a # outs) =
     (if approved (decision a) \<and> epoch (transactionPlan a) = e
      then amountIn (request a) # committedIn e outs
      else committedIn e outs)"

text \<open>A call is rejected when it throws, or returns a decision that is not approved.\<close>

definition rejected :: "ts_error + AgentAnalysis \<Rightarrow> bool" where
  "rejected out = (case out of Inl e \<Rightarrow> True | Inr a \<Rightarrow> \<not> approved (decision a))"

section \<open>The attestation registry (IEAS.sol, MockEAS.sol)\<close>

record Attestation =
  uid :: bytes32
  schema :: bytes32
  attester :: address
  time :: uint64
  expirationTime :: uint64
  revocationTime :: uint64
  dataHash :: bytes32

text \<open>The interface \<open>IEAS\<close>: the two view functions; \<open>isAttestationValid\<close> may read
  \<open>block.timestamp\<close>, its first argument here.\<close>

record IEAS =
  getAttestation :: "bytes32 \<Rightarrow> Attestation"
  isAttestationValid :: "uint256 \<Rightarrow> bytes32 \<Rightarrow> bool"

text \<open>\<open>MockEAS\<close>: its storage is the mapping \<open>a\<close>, every key of which holds the zero
  struct until it is set.\<close>

type_synonym MockEAS_storage = "bytes32 \<Rightarrow> Attestation"

definition zeroAttestation :: Attestation where
  "zeroAttestation = \<lparr> uid = 0, schema = 0, attester = 0, time = 0, expirationTime = 0,
                       revocationTime = 0, dataHash = 0 \<rparr>"

definition MockEAS_new :: MockEAS_storage where
  "MockEAS_new = (\<lambda>u. zeroAttestation)"

definition MockEAS_set ::
  "MockEAS_storage \<Rightarrow> uint256 \<Rightarrow> bytes32 \<Rightarrow> bytes32 \<Rightarrow> address \<Rightarrow> uint64 \<Rightarrow> bytes32 \<Rightarrow> MockEAS_storage" where
  "MockEAS_set a now u sch att exp dh =
     a(u := \<lparr> uid = u, schema = sch, attester = att, time = ucast now, expirationTime = exp,
              revocationTime = 0, dataHash = dh \<rparr>)"

definition MockEAS_getAttestation :: "MockEAS_storage \<Rightarrow> bytes32 \<Rightarrow> Attestation" where
  "MockEAS_getAttestation a u = a u"

definition MockEAS_isAttestationValid :: "MockEAS_storage \<Rightarrow> uint256 \<Rightarrow> bytes32 \<Rightarrow> bool" where
  "MockEAS_isAttestationValid a now u =
     (let m = a u
      in attester m \<noteq> 0 \<and> (expirationTime m = 0 \<or> ucast (expirationTime m) \<ge> now))"

definition MockEAS :: "MockEAS_storage \<Rightarrow> IEAS" where
  "MockEAS a = \<lparr> getAttestation = MockEAS_getAttestation a,
                 isAttestationValid = MockEAS_isAttestationValid a \<rparr>"

section \<open>CompliancePaymaster (CompliancePaymaster.sol)\<close>

datatype sol_error =
    NotEntryPoint
  | InvalidAttestation
  | AttesterNotWhitelisted
  | ExpiredAttestation
  | Error string
  | Revert

datatype event =
    AttesterSet address bool
  | PolicyChecked bytes32 bytes32 uint256

record CompliancePaymaster =
  ENTRY_POINT :: address
  SCHEMA_UID :: bytes32
  attesterWhitelist :: "address \<Rightarrow> bool"

record PaymasterData =
  attUid :: bytes32
  pmd_policyHash :: bytes32
  pmd_epoch :: uint256

text \<open>\<open>UserOperation\<close> is declared in helpers/Types.sol; the paymaster reads one field.\<close>

record UserOperation =
  paymasterAndData :: bytes

text \<open>EVM memory, byte-addressed; address arithmetic is modulo \<open>2 ^ 256\<close>.\<close>

type_synonym memory = "256 word \<Rightarrow> byte"

record tx_env =
  msg_sender :: address
  block_timestamp :: uint256
  mem :: memory

definition mstore :: "memory \<Rightarrow> 256 word \<Rightarrow> 256 word \<Rightarrow> memory" where
  "mstore m p v = (\<lambda>a. if unat (a - p) < 32 then byte_at v (unat (a - p)) else m a)"

definition mload :: "memory \<Rightarrow> 256 word \<Rightarrow> 256 word" where
  "mload m p = word_rcat (map (\<lambda>i. m (p + of_nat i)) [0..<32])"

definition constructor :: "address \<Rightarrow> bytes32 \<Rightarrow> address \<Rightarrow> CompliancePaymaster \<times> event list" where
  "constructor entryPoint schemaUid att =
     (\<lparr> ENTRY_POINT = entryPoint, SCHEMA_UID = schemaUid,
        attesterWhitelist = (\<lambda>w. False)(att := True) \<rparr>,
      [AttesterSet att True])"

text \<open>\<open>abi.decode(inner, (PaymasterData))\<close>: three head words, big-endian; bytes after the
  third word are not read.\<close>

definition abi_decode_PaymasterData :: "bytes \<Rightarrow> sol_error + PaymasterData" where
  "abi_decode_PaymasterData inner =
     (if length inner < 96 then Inl Revert
      else Inr \<lparr> attUid = word_rcat (take 32 inner),
                 pmd_policyHash = word_rcat (take 32 (drop 32 inner)),
                 pmd_epoch = word_rcat (take 32 (drop 64 inner)) \<rparr>)"

definition paymaster_decode :: "bytes \<Rightarrow> sol_error + PaymasterData" where
  "paymaster_decode d =
     (if \<not> (length d \<ge> 20 + 32 * 3) then Inl (Error ''PMD_TOO_SHORT'')
      else let inner = drop 20 d in abi_decode_PaymasterData inner)"

text \<open>\<open>_policyHash\<close>, the assembly block: the hash and the memory it leaves.\<close>

definition paymaster_policyHash ::
  "(bytes \<Rightarrow> bytes32) \<Rightarrow> memory \<Rightarrow> bytes32 \<Rightarrow> uint256 \<Rightarrow> bytes32 \<times> memory" where
  "paymaster_policyHash H m uoh ep =
     (let p = mload m 0x40;
          m1 = mstore m p uoh;
          m2 = mstore m1 (p + 0x20) ep;
          h = H (map (\<lambda>i. m2 (p + of_nat i)) [0..<0x40]);
          m3 = mstore m2 0x40 (p + 0x40)
      in (h, m3))"

text \<open>
  \<open>validatePaymasterUserOp\<close>: \<open>Inl\<close> is the revert, \<open>Inr\<close> the contract storage after the
  call, the events emitted and the two values returned.
\<close>

definition validatePaymasterUserOp ::
  "(bytes \<Rightarrow> bytes32) \<Rightarrow> IEAS \<Rightarrow> tx_env \<Rightarrow> CompliancePaymaster \<Rightarrow> UserOperation \<Rightarrow> bytes32 \<Rightarrow> uint256 \<Rightarrow>
   sol_error + (CompliancePaymaster \<times> event list \<times> bytes \<times> uint256)" where
  "validatePaymasterUserOp H EAS env pm userOp uoh requiredPreFund =
     (if msg_sender env \<noteq> ENTRY_POINT pm then Inl NotEntryPoint
      else
        case paymaster_decode (paymasterAndData userOp) of
          Inl e \<Rightarrow> Inl e
        | Inr pmd \<Rightarrow>
            if \<not> isAttestationValid EAS (block_timestamp env) (attUid pmd) then Inl InvalidAttestation
            else
              let a = getAttestation EAS (attUid pmd) in
              if schema a \<noteq> SCHEMA_UID pm then Inl InvalidAttestation
              else if \<not> attesterWhitelist pm (attester a) then Inl AttesterNotWhitelisted
              else if expirationTime a \<noteq> 0 \<and> ucast (expirationTime a) < block_timestamp env
                then Inl ExpiredAttestation
              else
                let expected = fst (paymaster_policyHash H (mem env) uoh (pmd_epoch pmd)) in
                if \<not> (expected = pmd_policyHash pmd) then Inl (Error ''POLICY_MISMATCH'')
                else Inr (pm, [PolicyChecked (attUid pmd) (pmd_policyHash pmd) (pmd_epoch pmd)],
                          [], 0))"

datatype PostOpMode = opSucceeded | opReverted | postOpReverted

definition postOp ::
  "tx_env \<Rightarrow> CompliancePaymaster \<Rightarrow> PostOpMode \<Rightarrow> bytes \<Rightarrow> uint256 \<Rightarrow> sol_error + CompliancePaymaster" where
  "postOp env pm mode context actualGasCost =
     (if msg_sender env \<noteq> ENTRY_POINT pm then Inl NotEntryPoint else Inr pm)"

definition setAttester :: "CompliancePaymaster \<Rightarrow> address \<Rightarrow> bool \<Rightarrow> CompliancePaymaster \<times> event list" where
  "setAttester pm who ok =
     (pm \<lparr> attesterWhitelist := (attesterWhitelist pm)(who := ok) \<rparr>, [AttesterSet who ok])"

text \<open>A stand-in for the hash function, for evaluating the definitions on concrete
  inputs, and a library built on it.\<close>

definition sampleHash :: "bytes \<Rightarrow> bytes32" where
  "sampleHash bs = word_rcat (take 32 bs) + of_nat (length bs)"

definition sampleViem :: viem where
  "sampleViem = \<lparr> keccak = sampleHash, checksumOk = (\<lambda>s. True) \<rparr>"

section \<open>The canonical policy hash, in the words of the specification\<close>

text \<open>
  \<open>H(operationHash \<parallel> epochBytes)\<close>, where \<open>epochBytes\<close> is the big-endian fixed-width
  encoding of the epoch integer: byte \<open>i\<close> of \<open>k\<close> is digit \<open>k - 1 - i\<close> of the number in
  base 256.
\<close>

definition bigEndian :: "nat \<Rightarrow> int \<Rightarrow> bytes" where
  "bigEndian k n = map (\<lambda>i. of_int ((n div 256 ^ (k - 1 - i)) mod 256)) [0..<k]"

definition canonicalPolicyHash :: "(bytes \<Rightarrow> bytes32) \<Rightarrow> bytes \<Rightarrow> int \<Rightarrow> bytes32" where
  "canonicalPolicyHash H operationHash e = H (operationHash @ bigEndian 32 e)"

section \<open>Sample inputs\<close>

definition sampleRequest :: PaymentRequest where
  "sampleRequest = \<lparr> merchant = ''0x1111111111111111111111111111111111111111'',
                     tokenIn = ''0xa0b86991c6218b36c1d19d4a2e9eb0ce3606eb48'',
                     amountIn = 100, description = ''coffee'', metadata = None \<rparr>"

definition emptyAnalyzer :: RiskAnalyzer where
  "emptyAnalyzer = \<lparr> merchantDatabase = Map.empty, transactionHistory = [] \<rparr>"

definition sampleEntryPoint :: address where
  "sampleEntryPoint = 0x5FF137D4b0FDCD49DcA30c7CF57E578a026d2789"

definition samplePaymaster :: CompliancePaymaster where
  "samplePaymaster = fst (constructor sampleEntryPoint 7 2)"

text \<open>The registry after \<open>set(9, 7, 2, issuance + 3600, 0)\<close> in a block with timestamp
  \<open>issuance\<close>.\<close>

definition sampleStore :: "uint256 \<Rightarrow> MockEAS_storage" where
  "sampleStore issuance = MockEAS_set MockEAS_new issuance 9 7 2 (ucast issuance + 3600) 0"

definition samplePolicyHash :: bytes32 where
  "samplePolicyHash = sampleHash (word_bytes 5 @ word_bytes 202511)"

definition samplePayload :: "bytes \<Rightarrow> bytes" where
  "samplePayload trailer =
     replicate 20 0 @ word_bytes 9 @ word_bytes samplePolicyHash @ word_bytes 202511 @ trailer"

definition sampleEnv :: "uint256 \<Rightarrow> tx_env" where
  "sampleEnv t = \<lparr> msg_sender = sampleEntryPoint, block_timestamp = t, mem = (\<lambda>a. 0) \<rparr>"

definition sampleConfig :: AgentConfig where
  "sampleConfig =
     \<lparr> chainId = 84532, rpcUrl = ''https://sepolia.base.org'', bundlerUrl = [],
       paymasterAddress = ''0x2222222222222222222222222222222222222222'',
       easAddress = [], entryPointAddress = ''0x5FF137D4b0FDCD49DcA30c7CF57E578a026d2789'',
       modelId = ''gpt-4o-mini'', maxGasPrice = 100000000000, maxTransactionValue = 100,
       defaultEpoch = 176204, allowedTokens = [], allowedMerchants = [],
       attesterPrivateKey = None, schemaUID = ''0x'' @ replicate 64 CHR ''0'' \<rparr>"

definition sampleAttestation :: Attestation_ts where
  "sampleAttestation =
     \<lparr> ts_uid = word_bytes 9, ts_schema = schemaUID sampleConfig,
       ts_attester = paymasterAddress sampleConfig, recipient = merchant sampleRequest,
       ts_time = 1000, ts_expirationTime = 4600, revocable = True,
       refUID = ''0x'' @ replicate 64 CHR ''0'', data = word_bytes 0 \<rparr>"

definition sampleClock :: clock where
  "sampleClock = \<lparr> t_start = 1762041600000, t_epoch = 1762041600000, t_call = 1762041600000,
                   t_validate = 1762041600000, t_attest = 1762041600000,
                   t_verify = 1762041600000 \<rparr>"

definition sampleOptions :: options where
  "sampleOptions = \<lparr> opt_modelId = None, opt_prompt = None, opt_planDescription = None,
                     opt_epoch = Some 176204, skipRiskAnalysis = False \<rparr>"

definition skipOptions :: options where
  "skipOptions = \<lparr> opt_modelId = None, opt_prompt = None, opt_planDescription = None,
                   opt_epoch = Some 176204, skipRiskAnalysis = True \<rparr>"

text \<open>An agent with 900 of its cap of 1000 spent in epoch 176204, as after nine payments
  of 100 with \<open>skipOptions\<close>, awaited one by one (lemma \<open>nearCapAgent_reachable\<close>).\<close>

definition nearCapAgent :: zkAgent where
  "nearCapAgent =
     \<lparr> config = sampleConfig,
       policyValidator = \<lparr> epochSpending = [176204 \<mapsto> 900] \<rparr>,
       riskAnalyzer = emptyAnalyzer \<rparr>"



definition zeroAmountRequest :: PaymentRequest where
  "zeroAmountRequest = \<lparr> merchant = ''0x1111111111111111111111111111111111111111'',
                         tokenIn = ''0x6b175474e89094c44da98b954eedeac495271d0f'',
                         amountIn = 0, description = ''nothing'', metadata = None \<rparr>"

definition malformedRequest :: PaymentRequest where
  "malformedRequest = \<lparr> merchant = ''merchant.eth'', tokenIn = ''usdc'',
                        amountIn = 0, description = ''malformed'', metadata = None \<rparr>"

definition malformedTokenRequest :: PaymentRequest where
  "malformedTokenRequest = \<lparr> merchant = ''0x1111111111111111111111111111111111111111'',
                             tokenIn = ''usdc'', amountIn = 100, description = ''coffee'',
                             metadata = None \<rparr>"

text \<open>A configuration that allows one token only (DAI).\<close>

definition allowlistConfig :: AgentConfig where
  "allowlistConfig =
     sampleConfig \<lparr> allowedTokens := [''0x6b175474e89094c44da98b954eedeac495271d0f''] \<rparr>"


section \<open>Integer square root\<close>

lemma bigint_div_nonneg: "0 \<le> a \<Longrightarrow> 0 < b \<Longrightarrow> bigint_div a b = a div b"
  by (cases "a = 0") (simp_all add: bigint_div_def)

lemma newton_step_upper:
  fixes x v :: int
  assumes x: "1 \<le> x" and v: "0 \<le> v"
  shows "v < ((x + v div x) div 2 + 1) * ((x + v div x) div 2 + 1)"
proof -
  define q where "q = v div x"
  define y where "y = (x + q) div 2"
  have q0: "0 \<le> q" using x v by (simp add: q_def pos_imp_zdiv_nonneg_iff)
  have "v mod x < x" using x by simp
  moreover have "v = x * q + v mod x" by (simp add: q_def)
  ultimately have vlt: "v < x * (q + 1)" by (simp add: algebra_simps)
  have "x + q \<le> 2 * y + 1" unfolding y_def by presburger
  then have s: "x + (q + 1) \<le> 2 * (y + 1)" by simp
  have "0 \<le> (x - (q + 1)) * (x - (q + 1))" by simp
  then have "4 * (x * (q + 1)) \<le> (x + (q + 1)) * (x + (q + 1))"
    by (simp add: algebra_simps)
  also have "\<dots> \<le> (2 * (y + 1)) * (2 * (y + 1))"
    using s x q0 by (intro mult_mono) simp_all
  finally have "x * (q + 1) \<le> (y + 1) * (y + 1)" by (simp add: algebra_simps)
  with vlt show ?thesis by (simp add: y_def q_def)
qed

lemma sqrt_loop_returns:
  fixes v :: int
  assumes v: "1 \<le> v"
  shows "1 \<le> x \<Longrightarrow> v < (x + 1) * (x + 1) \<Longrightarrow>
         \<exists>r. sqrt_loop v x ((x + v div x) div 2) = Some r \<and> 1 \<le> r \<and> r * r \<le> v \<and> v < (r + 1) * (r + 1)"
proof (induction "nat x" arbitrary: x rule: less_induct)
  case less
  define y where "y = (x + v div x) div 2"
  have q0: "0 \<le> v div x" using less.prems v by (simp add: pos_imp_zdiv_nonneg_iff)
  have y1: "1 \<le> y"
  proof (cases "x = 1")
    case True
    then show ?thesis using v by (simp add: y_def)
  next
    case False
    then have "2 \<le> x + v div x" using less.prems q0 by linarith
    then show ?thesis unfolding y_def by linarith
  qed
  show ?case
  proof (cases "y < x")
    case True
    have up: "v < (y + 1) * (y + 1)"
      unfolding y_def using newton_step_upper [of x v] less.prems v by simp
    have step: "bigint_div (y + bigint_div v y) 2 = (y + v div y) div 2"
      using y1 v by (simp add: bigint_div_nonneg pos_imp_zdiv_nonneg_iff)
    have "nat y < nat x" using True y1 by simp
    from less.hyps [OF this y1 up]
    obtain r where "sqrt_loop v y ((y + v div y) div 2) = Some r"
      and "1 \<le> r" "r * r \<le> v" "v < (r + 1) * (r + 1)" by blast
    moreover have "sqrt_loop v x y = sqrt_loop v y ((y + v div y) div 2)"
      using True y1 step by (subst sqrt_loop.simps) simp
    ultimately show ?thesis unfolding y_def by auto
  next
    case False
    then have "2 * x \<le> x + v div x" unfolding y_def by linarith
    then have "x \<le> v div x" by simp
    then have "x * x \<le> x * (v div x)" using less.prems by (intro mult_left_mono) simp_all
    also have "\<dots> \<le> v" using less.prems
      by (metis add_increasing2 mult_div_mod_eq order_refl pos_mod_sign zero_less_one_class.zero_less_one order_less_le_trans)
    finally have "x * x \<le> v" .
    moreover have "sqrt_loop v x y = Some x"
      using False by (subst sqrt_loop.simps) simp
    ultimately show ?thesis unfolding y_def using less.prems by auto
  qed
qed

lemma sqrt_bigint_spec:
  assumes "0 \<le> v"
  shows "\<exists>r. sqrt_bigint v = Some r \<and> 0 \<le> r \<and> r * r \<le> v \<and> v < (r + 1) * (r + 1)"
proof -
  consider "v = 0" | "v = 1" | "2 \<le> v" using assms by linarith
  then show ?thesis
  proof cases
    case 3
    have "bigint_div (v + 1) 2 = (v + v div v) div 2"
      using 3 by (simp add: bigint_div_nonneg)
    moreover have "v < (v + 1) * (v + 1)"
    proof -
      have e: "(v + 1) * (v + 1) = v * v + 2 * v + 1" by (simp add: algebra_simps)
      have "0 \<le> v * v" by simp
      with e 3 show ?thesis by linarith
    qed
    ultimately show ?thesis
      using sqrt_loop_returns [of v v] 3 by (auto simp: sqrt_bigint_def)
  qed (simp_all add: sqrt_bigint_def)
qed

lemma isqrt_unique:
  fixes r s v :: int
  assumes "0 \<le> r" "r * r \<le> v" "v < (r + 1) * (r + 1)"
      and "0 \<le> s" "s * s \<le> v" "v < (s + 1) * (s + 1)"
  shows "r = s"
proof (rule ccontr)
  assume "r \<noteq> s"
  then consider "r + 1 \<le> s" | "s + 1 \<le> r" by linarith
  then show False
  proof cases
    case 1
    then have "(r + 1) * (r + 1) \<le> s * s" using assms by (intro mult_mono) simp_all
    then show False using assms by linarith
  next
    case 2
    then have "(s + 1) * (s + 1) \<le> r * r" using assms by (intro mult_mono) simp_all
    then show False using assms by linarith
  qed
qed

lemma sqrt_bigint_total: "\<exists>r. sqrt_bigint v = Some r \<and> 0 \<le> r"
proof (cases "0 \<le> v")
  case True
  then show ?thesis using sqrt_bigint_spec [of v] by blast
next
  case False
  then show ?thesis by (simp add: sqrt_bigint_def)
qed

lemma calculateStdDev_total: "\<exists>s. calculateStdDev amounts avg = Some s \<and> 0 \<le> s"
  using sqrt_bigint_total by (simp add: calculateStdDev_def Let_def)

text \<open>
  C10. For every non-negative integer \<open>v\<close>, \<open>sqrt\<close> returns, and what it returns is the
  integer square root of \<open>v\<close>: the one \<open>r \<ge> 0\<close> with \<open>r * r \<le> v < (r + 1) * (r + 1)\<close>.
  \<open>calculateStdDev\<close> returns too, and never a negative value.
\<close>

theorem sqrt_is_integer_square_root:
  "(0 \<le> v \<longrightarrow>
      (\<exists>r. sqrt_bigint v = Some r \<and> 0 \<le> r \<and> r * r \<le> v \<and> v < (r + 1) * (r + 1) \<and>
           (\<forall>s. 0 \<le> s \<and> s * s \<le> v \<and> v < (s + 1) * (s + 1) \<longrightarrow> s = r))) \<and>
   (\<exists>d. calculateStdDev amounts avg = Some d \<and> 0 \<le> d)"
proof (intro conjI impI)
  assume "0 \<le> v"
  then obtain r where r: "sqrt_bigint v = Some r" "0 \<le> r" "r * r \<le> v" "v < (r + 1) * (r + 1)"
    using sqrt_bigint_spec by blast
  then have "\<forall>s. 0 \<le> s \<and> s * s \<le> v \<and> v < (s + 1) * (s + 1) \<longrightarrow> s = r"
    using isqrt_unique by blast
  with r show "\<exists>r. sqrt_bigint v = Some r \<and> 0 \<le> r \<and> r * r \<le> v \<and> v < (r + 1) * (r + 1) \<and>
           (\<forall>s. 0 \<le> s \<and> s * s \<le> v \<and> v < (s + 1) * (s + 1) \<longrightarrow> s = r)"
    by blast
next
  show "\<exists>d. calculateStdDev amounts avg = Some d \<and> 0 \<le> d"
    by (rule calculateStdDev_total)
qed

theorem sqrt_is_integer_square_root_witness:
  "(0::int) \<le> 17 \<and> sqrt_bigint 17 = Some 4 \<and> (4::int) * 4 \<le> 17 \<and> (17::int) < (4 + 1) * (4 + 1) \<and>
   calculateStdDev [1, 2, 3, 4, 100] 22 = Some 39"
proof -
  have a: "sqrt_bigint 17 = Some 4" by code_simp
  have b: "calculateStdDev [1, 2, 3, 4, 100] 22 = Some 39" by code_simp
  from sqrt_is_integer_square_root [of 17 "[1, 2, 3, 4, 100]" 22] a b show ?thesis by simp
qed

section \<open>The risk analysis always returns\<close>

lemma isUnusualAmount_total: "\<exists>b. isUnusualAmount ra amount = Some b"
proof -
  obtain s where "calculateStdDev (map amountIn (transactionHistory ra))
      (bigint_div (foldl (\<lambda>sum a. sum + a) 0 (map amountIn (transactionHistory ra)))
         (int (length (map amountIn (transactionHistory ra))))) = Some s"
    using calculateStdDev_total by blast
  then show ?thesis by (auto simp: isUnusualAmount_def Let_def)
qed

lemma identifyRiskFactors_total: "\<exists>f. identifyRiskFactors ra req = Some f"
proof -
  obtain b where "isUnusualAmount ra (amountIn req) = Some b"
    using isUnusualAmount_total by blast
  then show ?thesis by (simp add: identifyRiskFactors_def Let_def)
qed

lemma identifyRiskFactors_fields:
  assumes "identifyRiskFactors ra req = Some f"
  shows "gasUnusual f = False" "recentFailures f = 0"
    "merchantUnknown f = (merchantDatabase ra (toLowerCase (merchant req)) = None)"
    "tokenUnknown f = isUnknownToken (tokenIn req)"
    "isUnusualAmount ra (amountIn req) = Some (amountUnusual f)"
    "velocityExceeded f = checkVelocity ra (merchant req)"
  using assms
  by (auto simp: identifyRiskFactors_def Let_def getRecentFailures_def split: option.splits)

lemma analyze_total:
  "\<exists>f. identifyRiskFactors ra req = Some f \<and>
       analyze ra req pv =
         Some (recordTransaction ra req,
               decisionLogic pv (calculateRiskScore f pv) (riskFlags f))"
proof -
  obtain f where "identifyRiskFactors ra req = Some f"
    using identifyRiskFactors_total by blast
  then show ?thesis by (simp add: analyze_def Let_def)
qed

section \<open>Risk decision and risk score\<close>

text \<open>
  C7. With policy validation passed, the decision is a function of the band of the score:
  below 30 (so at 29) approved as low risk; from 30 up to 59 approved, with the flag
  \<open>REQUIRES_MONITORING\<close> pushed; from 60 up to 79 rejected as requiring review; from 80
  on rejected as very high risk. \<open>analyze\<close> returns the decision that this logic gives
  for the score it computed.
\<close>

theorem decision_follows_score_band:
  "(\<forall>score fl.
      (score < 30 \<longrightarrow>
         decisionLogic True score fl =
           \<lparr> approved = True, reason = ''Low risk transaction'', riskScore = score,
             flags = fl, suggestedAction = None \<rparr>) \<and>
      (30 \<le> score \<and> score < 60 \<longrightarrow>
         decisionLogic True score fl =
           \<lparr> approved = True, reason = ''Medium risk transaction - approved with monitoring'',
             riskScore = score, flags = fl @ [''REQUIRES_MONITORING''], suggestedAction = None \<rparr>) \<and>
      (60 \<le> score \<and> score < 80 \<longrightarrow>
         \<not> approved (decisionLogic True score fl) \<and>
         reason (decisionLogic True score fl) = ''High risk transaction - requires review'') \<and>
      (80 \<le> score \<longrightarrow>
         \<not> approved (decisionLogic True score fl) \<and>
         reason (decisionLogic True score fl) = ''Very high risk transaction - rejected'')) \<and>
   (\<exists>ra' d f. analyze ra req True = Some (ra', d) \<and>
               identifyRiskFactors ra req = Some f \<and>
               d = decisionLogic True (riskScore d) (riskFlags f))"
proof (intro conjI allI impI)
  obtain f where f: "identifyRiskFactors ra req = Some f"
    and a: "analyze ra req True =
      Some (recordTransaction ra req, decisionLogic True (calculateRiskScore f True) (riskFlags f))"
    using analyze_total by blast
  have "riskScore (decisionLogic True s fl) = s" for s fl
    by (simp add: decisionLogic_def)
  with f a show "\<exists>ra' d f. analyze ra req True = Some (ra', d) \<and>
               identifyRiskFactors ra req = Some f \<and>
               d = decisionLogic True (riskScore d) (riskFlags f)"
    by simp
qed (simp_all add: decisionLogic_def)



theorem decision_follows_score_band_witness:
  "approved (decisionLogic True 29 []) \<and> reason (decisionLogic True 29 []) = ''Low risk transaction'' \<and>
   approved (decisionLogic True 30 []) \<and> flags (decisionLogic True 30 []) = [''REQUIRES_MONITORING''] \<and>
   \<not> approved (decisionLogic True 60 []) \<and>
   reason (decisionLogic True 60 []) = ''High risk transaction - requires review'' \<and>
   \<not> approved (decisionLogic True 80 []) \<and>
   reason (decisionLogic True 80 []) = ''Very high risk transaction - rejected'' \<and>
   analyze emptyAnalyzer sampleRequest True =
     Some (recordTransaction emptyAnalyzer sampleRequest,
           decisionLogic True 20 [''UNKNOWN_MERCHANT''])"
proof -
  note t = decision_follows_score_band [of emptyAnalyzer sampleRequest]
  from t have b: "\<forall>score fl.
      (score < 30 \<longrightarrow>
         decisionLogic True score fl =
           \<lparr> approved = True, reason = ''Low risk transaction'', riskScore = score,
             flags = fl, suggestedAction = None \<rparr>) \<and>
      (30 \<le> score \<and> score < 60 \<longrightarrow>
         decisionLogic True score fl =
           \<lparr> approved = True, reason = ''Medium risk transaction - approved with monitoring'',
             riskScore = score, flags = fl @ [''REQUIRES_MONITORING''], suggestedAction = None \<rparr>) \<and>
      (60 \<le> score \<and> score < 80 \<longrightarrow>
         \<not> approved (decisionLogic True score fl) \<and>
         reason (decisionLogic True score fl) = ''High risk transaction - requires review'') \<and>
      (80 \<le> score \<longrightarrow>
         \<not> approved (decisionLogic True score fl) \<and>
         reason (decisionLogic True score fl) = ''Very high risk transaction - rejected'')"
    by (rule conjunct1)
  have b29: "decisionLogic True 29 [] = \<lparr> approved = True, reason = ''Low risk transaction'', riskScore = 29,
             flags = [], suggestedAction = None \<rparr>"
    using b [rule_format, of 29 "[]"] by simp
  have b30: "decisionLogic True 30 [] = \<lparr> approved = True, reason = ''Medium risk transaction - approved with monitoring'',
             riskScore = 30, flags = [] @ [''REQUIRES_MONITORING''], suggestedAction = None \<rparr>"
    using b [rule_format, of 30 "[]"] by simp
  have b60: "\<not> approved (decisionLogic True 60 []) \<and>
         reason (decisionLogic True 60 []) = ''High risk transaction - requires review''"
    using b [rule_format, of 60 "[]"] by simp
  have b80: "\<not> approved (decisionLogic True 80 []) \<and>
         reason (decisionLogic True 80 []) = ''Very high risk transaction - rejected''"
    using b [rule_format, of 80 "[]"] by simp
  have s: "analyze emptyAnalyzer sampleRequest True =
     Some (recordTransaction emptyAnalyzer sampleRequest,
           decisionLogic True 20 [''UNKNOWN_MERCHANT''])"
    by (simp add: analyze_def identifyRiskFactors_def isUnusualAmount_def emptyAnalyzer_def
        sampleRequest_def calculateRiskScore_def riskFlags_def isUnknownToken_def knownTokens_def
        toLowerCase_def lowerChar_def getRecentFailures_def checkVelocity_def Let_def)
  from s b29 b30 b60 b80 show ?thesis by simp
qed

subsection \<open>The triggers of the risk factors\<close>












section \<open>Policy hash\<close>



lemma length_word_bytes [simp]: "length (word_bytes w) = 32"
  by (simp add: word_bytes_def)

lemma byte_of_int_drop_bit:
  "(word_of_int (drop_bit (8 * j) n) :: byte) = of_int ((n div 256 ^ j) mod 256)"
proof -
  have "(256::int) ^ j = 2 ^ (8 * j)" by (simp add: power_mult)
  then have "drop_bit (8 * j) n = n div 256 ^ j" by (simp add: drop_bit_eq_div)
  moreover have "(word_of_int (x mod 256) :: byte) = word_of_int x" for x
    by (rule bit_word_eqI) (simp add: bit_simps flip: take_bit_eq_mod [of 8, simplified])
  ultimately show ?thesis by simp
qed

lemma int_bytes_bigEndian: "int_bytes k n = bigEndian k n"
  by (simp add: int_bytes_def bigEndian_def byte_of_int_drop_bit)

lemma byte_and_255: "(word_of_int (x AND 255) :: byte) = word_of_int x"
proof -
  have "(255::int) = mask 8" by (simp add: mask_eq_exp_minus_1)
  then have "x AND 255 = take_bit 8 x" by (simp add: take_bit_eq_mask)
  then show ?thesis by (simp add: word_of_int_eq_iff)
qed

lemma u256_loop_eq:
  "k \<le> length b \<Longrightarrow>
   u256_loop k x b = map (\<lambda>i. word_of_int (drop_bit (8 * (k - 1 - i)) x)) [0..<k] @ drop k b"
proof (induction k arbitrary: x b)
  case 0
  then show ?case by simp
next
  case (Suc k)
  have "u256_loop (Suc k) x b = u256_loop k (drop_bit 8 x) (b[k := word_of_int (x AND 255)])"
    by simp
  also have "\<dots> = map (\<lambda>i. word_of_int (drop_bit (8 * (k - 1 - i)) (drop_bit 8 x))) [0..<k] @
                   drop k (b[k := word_of_int (x AND 255)])"
    using Suc.prems by (intro Suc.IH) simp
  also have "drop k (b[k := word_of_int (x AND 255)]) = (word_of_int x :: byte) # drop (Suc k) b"
    using Suc.prems by (simp add: byte_and_255 Cons_nth_drop_Suc [symmetric] drop_update_swap)
  also have "map (\<lambda>i. (word_of_int (drop_bit (8 * (k - 1 - i)) (drop_bit 8 x)) :: byte)) [0..<k]
           = map (\<lambda>i. word_of_int (drop_bit (8 * (Suc k - 1 - i)) x)) [0..<k]"
  proof (rule map_cong [OF refl])
    fix i assume "i \<in> set [0..<k]"
    then have "8 + 8 * (k - 1 - i) = 8 * (Suc k - 1 - i)" by auto
    then show "(word_of_int (drop_bit (8 * (k - 1 - i)) (drop_bit 8 x)) :: byte) =
               word_of_int (drop_bit (8 * (Suc k - 1 - i)) x)"
      by (simp add: drop_bit_drop_bit add.commute)
  qed
  finally show ?case by simp
qed

lemma u256ToBytes_int_bytes: "u256ToBytes n = int_bytes 32 n"
  using u256_loop_eq [of 32 "replicate 32 0" n] by (simp add: u256ToBytes_def int_bytes_def)

lemma byte_at_word_of_int:
  "i < 32 \<Longrightarrow> byte_at (word_of_int n) i = word_of_int (drop_bit (8 * (31 - i)) n)"
  unfolding byte_at_def
  by (rule bit_word_eqI) (auto simp: bit_simps)

lemma word_bytes_of_int: "word_bytes (word_of_int n) = int_bytes 32 n"
  by (simp add: word_bytes_def int_bytes_def byte_at_word_of_int)

lemma word_bytes_bigEndian: "word_bytes w = bigEndian 32 (uint w)"
  using word_bytes_of_int [of "uint w"] by (simp add: int_bytes_bigEndian)

lemma mstore_read_inside:
  "i < 32 \<Longrightarrow> mstore m p v (p + of_nat i) = byte_at v i"
  by (simp add: mstore_def unat_of_nat)

lemma unat_small_minus_32:
  assumes "i < 32"
  shows "\<not> unat ((of_nat i :: 256 word) - 32) < 32"
proof
  assume a: "unat ((of_nat i :: 256 word) - 32) < 32"
  define w where "w = (of_nat i :: 256 word) - 32"
  have "unat w + unat (32 :: 256 word) < 2 ^ LENGTH(256)"
    using a by (simp add: w_def)
  then have "unat (w + 32) = unat w + unat (32 :: 256 word)"
    by (simp only: unat_add_lem)
  moreover have "w + 32 = of_nat i" by (simp add: w_def)
  moreover have "unat (of_nat i :: 256 word) = i" using assms by (simp add: unat_of_nat)
  ultimately show False using assms by simp
qed

lemma mstore_read_before:
  "i < 32 \<Longrightarrow> mstore m (p + 32) v (p + of_nat i) = m (p + of_nat i)"
  using unat_small_minus_32 [of i] by (simp add: mstore_def)

lemma mstore_read_second:
  assumes "i < 32"
  shows "mstore m (p + 32) v (p + of_nat (i + 32)) = byte_at v i"
proof -
  have "p + of_nat (i + 32) - (p + 32) = of_nat i" by simp
  moreover have "unat (of_nat i :: 256 word) = i"
    using assms by (simp add: unat_of_nat)
  ultimately show ?thesis using assms by (simp only: mstore_def if_True)
qed

lemma paymaster_policyHash_bytes:
  "fst (paymaster_policyHash H m uoh ep) = H (word_bytes uoh @ word_bytes ep)"
proof -
  define p where "p = mload m 0x40"
  define m2 where "m2 = mstore (mstore m p uoh) (p + 32) ep"
  have split: "[0..<64] = [0..<32] @ map (\<lambda>i. i + 32) [0..<32]"
    using upt_add_eq_append [of 0 32 32] by (simp only: map_add_upt) simp
  have first: "map (\<lambda>i. m2 (p + of_nat i)) [0..<32] = word_bytes uoh"
    unfolding word_bytes_def m2_def
    by (rule map_cong [OF refl]) (simp add: mstore_read_before mstore_read_inside)
  have second: "map (\<lambda>i. m2 (p + of_nat (i + 32))) [0..<32] = word_bytes ep"
    unfolding word_bytes_def m2_def
    by (rule map_cong [OF refl]) (simp only: mstore_read_second set_upt atLeastLessThan_iff)
  have "map (\<lambda>i. m2 (p + of_nat i)) [0..<64] = word_bytes uoh @ word_bytes ep"
    by (simp only: split map_append map_map o_def first second)
  then show ?thesis
    by (simp add: paymaster_policyHash_def Let_def p_def m2_def)
qed

lemma bit_horner_bytes:
  "bit (horner_sum uint 256 (ws :: byte list)) n \<longleftrightarrow>
     n div 8 < length ws \<and> bit (ws ! (n div 8)) (n mod 8)"
  using bit_horner_sum_uint_exp_iff [of ws n] by simp

lemma word_rcat_word_bytes: "word_rcat (word_bytes w) = w"
proof (rule bit_word_eqI)
  fix n assume n: "n < LENGTH(256)"
  then have d: "n div 8 < 32" by simp
  have "rev (word_bytes w) ! (n div 8) = byte_at w (31 - n div 8)"
    using d by (simp add: rev_nth word_bytes_def)
  moreover have "8 * (n div 8) + n mod 8 = n" by simp
  ultimately show "bit (word_rcat (word_bytes w) :: 256 word) n = bit w n"
    using n d
    by (simp add: word_rcat_def bit_simps bit_horner_bytes byte_at_def)
qed

lemma word_bytes_word_rcat:
  assumes "length bs = 32"
  shows "word_bytes (word_rcat bs :: 256 word) = bs"
proof (rule nth_equalityI)
  show "length (word_bytes (word_rcat bs :: 256 word)) = length bs" using assms by simp
next
  fix i assume "i < length (word_bytes (word_rcat bs :: 256 word))"
  then have i: "i < 32" by simp
  have "byte_at (word_rcat bs) i = bs ! i"
  proof (rule bit_word_eqI)
    fix n assume n: "n < LENGTH(8)"
    then have n8: "n < 8" by simp
    have a: "(n + 8 * (31 - i)) div 8 = 31 - i" using n8 by simp
    have b: "(n + 8 * (31 - i)) mod 8 = n" using n8 by simp
    have c: "n + 8 * (31 - i) < 256" using n8 i by simp
    have "rev bs ! (31 - i) = bs ! i" using assms i by (simp add: rev_nth)
    then show "bit (byte_at (word_rcat bs) i) n = bit (bs ! i) n"
      using n8 i assms a b c
      by (simp add: byte_at_def word_rcat_def bit_simps bit_horner_bytes)
  qed
  then show "word_bytes (word_rcat bs :: 256 word) ! i = bs ! i"
    using i by (simp add: word_bytes_def)
qed


lemma planPolicyHash_canonical:
  "planPolicyHash L uoh e = word_bytes (canonicalPolicyHash (keccak L) uoh e)"
  by (simp add: planPolicyHash_def keccak256_def canonicalPolicyHash_def
      u256ToBytes_int_bytes int_bytes_bigEndian)

lemma calculatePolicyHash_canonical:
  assumes "0 \<le> e" "e < 2 ^ 256" "length uoh = 32"
  shows "calculatePolicyHash L uoh e = Inr (word_bytes (canonicalPolicyHash (keccak L) uoh e))"
  using assms
  by (simp add: calculatePolicyHash_def keccak256_def canonicalPolicyHash_def int_bytes_bigEndian)

lemma paymaster_policyHash_canonical:
  assumes "0 \<le> e" "e < 2 ^ 256"
  shows "fst (paymaster_policyHash H m h (word_of_int e)) = canonicalPolicyHash H (word_bytes h) e"
  by (simp add: paymaster_policyHash_bytes canonicalPolicyHash_def word_bytes_of_int
      int_bytes_bigEndian)

lemma buildPlan_policyHash:
  assumes "buildPlan L now req e = Inr plan"
  shows "\<exists>h. userOpHash plan = word_bytes h \<and> policyHash plan = planPolicyHash L (word_bytes h) e"
proof -
  from assms obtain cd where "encodePaymentCall L now req = Inr cd"
    and p: "plan = \<lparr> userOpHash = calculateUserOpHash L req cd, callData = cd,
                     target = merchant req, plan_value = 0, gasEstimate = estimateGas req,
                     policyHash = planPolicyHash L (calculateUserOpHash L req cd) e, epoch = e \<rparr>"
    by (auto simp: buildPlan_def Let_def split: sum.splits)
  have "\<exists>h. calculateUserOpHash L req cd = word_bytes h"
    by (auto simp: calculateUserOpHash_def keccak256_def)
  then show ?thesis using p by auto
qed

text \<open>
  C1. For every 32-byte operation hash \<open>h\<close> and every epoch \<open>e\<close> that has a 32-byte
  unsigned encoding, the policy hash of \<open>buildPlan\<close>, \<open>calculatePolicyHash\<close> and the
  paymaster's \<open>_policyHash\<close> are the same 32 bytes: the hash of \<open>h\<close> followed by the
  32-byte big-endian encoding of \<open>e\<close>. The plan that \<open>buildPlan\<close> returns carries that
  hash for the operation hash it carries.
\<close>

theorem policy_hash_agreement:
  assumes "0 \<le> e" and "e < 2 ^ 256"
  shows "planPolicyHash L (word_bytes h) e =
           word_bytes (canonicalPolicyHash (keccak L) (word_bytes h) e) \<and>
         calculatePolicyHash L (word_bytes h) e =
           Inr (word_bytes (canonicalPolicyHash (keccak L) (word_bytes h) e)) \<and>
         fst (paymaster_policyHash (keccak L) m h (word_of_int e)) =
           canonicalPolicyHash (keccak L) (word_bytes h) e \<and>
         (\<forall>now req plan. buildPlan L now req e = Inr plan \<longrightarrow>
            (\<exists>h'. userOpHash plan = word_bytes h' \<and>
                  policyHash plan = word_bytes (canonicalPolicyHash (keccak L) (word_bytes h') e) \<and>
                  calculatePolicyHash L (userOpHash plan) e = Inr (policyHash plan) \<and>
                  word_bytes (fst (paymaster_policyHash (keccak L) m h' (word_of_int e))) =
                    policyHash plan))"
proof (intro conjI allI impI)
  show "planPolicyHash L (word_bytes h) e =
           word_bytes (canonicalPolicyHash (keccak L) (word_bytes h) e)"
    by (rule planPolicyHash_canonical)
  show "calculatePolicyHash L (word_bytes h) e =
           Inr (word_bytes (canonicalPolicyHash (keccak L) (word_bytes h) e))"
    using assms by (simp add: calculatePolicyHash_canonical)
  show "fst (paymaster_policyHash (keccak L) m h (word_of_int e)) =
           canonicalPolicyHash (keccak L) (word_bytes h) e"
    using assms by (rule paymaster_policyHash_canonical)
next
  fix now req plan
  assume "buildPlan L now req e = Inr plan"
  then obtain h' where h': "userOpHash plan = word_bytes h'"
      "policyHash plan = planPolicyHash L (word_bytes h') e"
    using buildPlan_policyHash by blast
  have "policyHash plan = word_bytes (canonicalPolicyHash (keccak L) (word_bytes h') e)"
    using h' by (simp add: planPolicyHash_canonical)
  moreover have "calculatePolicyHash L (userOpHash plan) e = Inr (policyHash plan)"
    using h' assms by (simp add: calculatePolicyHash_canonical planPolicyHash_canonical)
  moreover have "word_bytes (fst (paymaster_policyHash (keccak L) m h' (word_of_int e))) =
                    policyHash plan"
    using h' assms by (simp add: paymaster_policyHash_canonical planPolicyHash_canonical)
  ultimately show "\<exists>h'. userOpHash plan = word_bytes h' \<and>
                  policyHash plan = word_bytes (canonicalPolicyHash (keccak L) (word_bytes h') e) \<and>
                  calculatePolicyHash L (userOpHash plan) e = Inr (policyHash plan) \<and>
                  word_bytes (fst (paymaster_policyHash (keccak L) m h' (word_of_int e))) =
                    policyHash plan"
    using h' by blast
qed


lemmas char_eval = char_of_def bit_Suc_0_iff

lemma show_nat_sample: "show_nat 1762041600000 = ''1762041600000''"
  by (simp add: show_nat.simps char_eval)

lemma clockEpoch_sample: "clockEpoch 1762041600000 = 176204"
  by (simp add: clockEpoch_def show_nat_sample parseInt_def)

lemma sample_call:
  "\<exists>cd. encodePaymentCall sampleViem 1762041600000 sampleRequest = Inr cd"
  by (simp add: encodePaymentCall_def encodeFunctionData_def sampleViem_def sampleRequest_def
      isAddress_def isValidAddress_def isHexChar_def zeroAddress_def toLowerCase_def
      lowerChar_def keccak256_def clockEpoch_sample char_eval list_all_iff)

theorem policy_hash_agreement_witness:
  "(0::int) \<le> 202511 \<and> (202511::int) < 2 ^ 256 \<and>
   calculatePolicyHash sampleViem (word_bytes 5) 202511 =
     Inr (planPolicyHash sampleViem (word_bytes 5) 202511) \<and>
   word_bytes (fst (paymaster_policyHash (keccak sampleViem) (\<lambda>a. 0) 5 202511)) =
     planPolicyHash sampleViem (word_bytes 5) 202511 \<and>
   (\<exists>plan. buildPlan sampleViem 1762041600000 sampleRequest 202511 = Inr plan \<and>
           calculatePolicyHash sampleViem (userOpHash plan) 202511 = Inr (policyHash plan))"
proof -
  have r: "(0::int) \<le> 202511" "(202511::int) < 2 ^ 256" by simp_all
  note t = policy_hash_agreement [OF r, of sampleViem 5 "\<lambda>a. 0"]
  obtain cd where "encodePaymentCall sampleViem 1762041600000 sampleRequest = Inr cd"
    using sample_call by blast
  then obtain plan where p: "buildPlan sampleViem 1762041600000 sampleRequest 202511 = Inr plan"
    by (simp add: buildPlan_def Let_def)
  with t have "calculatePolicyHash sampleViem (userOpHash plan) 202511 = Inr (policyHash plan)"
    by blast
  with p t r show ?thesis by auto
qed

section \<open>Payload decoding\<close>

lemma paymaster_decode_short:
  "length d < 116 \<Longrightarrow> paymaster_decode d = Inl (Error ''PMD_TOO_SHORT'')"
  by (simp add: paymaster_decode_def)

lemma paymaster_decode_long:
  "116 \<le> length d \<Longrightarrow>
   paymaster_decode d =
     Inr \<lparr> attUid = word_rcat (take 32 (drop 20 d)),
           pmd_policyHash = word_rcat (take 32 (drop 52 d)),
           pmd_epoch = word_rcat (take 32 (drop 84 d)) \<rparr>"
  by (simp add: paymaster_decode_def abi_decode_PaymasterData_def Let_def add.commute)

lemma validate_accepts_long_only:
  assumes "validatePaymasterUserOp H EAS env pm op uoh pf = Inr r"
  shows "116 \<le> length (paymasterAndData op)"
proof (rule ccontr)
  assume "\<not> 116 \<le> length (paymasterAndData op)"
  then have "paymaster_decode (paymasterAndData op) = Inl (Error ''PMD_TOO_SHORT'')"
    by (simp add: paymaster_decode_short)
  with assms show False
    by (simp add: validatePaymasterUserOp_def split: if_splits)
qed

text \<open>Addresses that pass the syntax test encode to 20 bytes.\<close>

lemma hexValue_Some: "isHexChar c \<Longrightarrow> \<exists>v. hexValue c = Some v"
  by (auto simp: isHexChar_def hexValue_def Let_def)

lemma length_bufferFromHex:
  "list_all isHexChar s \<Longrightarrow> length (bufferFromHex s) = length s div 2"
proof (induction s rule: bufferFromHex.induct)
  case (1 c d rest)
  have "isHexChar c" "isHexChar d" using 1(2) by simp_all
  then obtain hi lo where h: "hexValue c = Some hi" "hexValue d = Some lo"
    using hexValue_Some by blast
  moreover have "list_all isHexChar rest" using 1(2) by simp
  ultimately show ?case using 1(1) by simp
qed simp_all

lemma isHexChar_lowerChar: "isHexChar c \<Longrightarrow> isHexChar (lowerChar c)"
proof -
  assume a: "isHexChar c"
  show ?thesis
  proof (cases "65 \<le> (of_char c :: nat) \<and> (of_char c :: nat) \<le> 90")
    case False
    then have "lowerChar c = c" by (auto simp: lowerChar_def Let_def)
    with a show ?thesis by simp
  next
    case True
    with a have r: "65 \<le> (of_char c :: nat)" "(of_char c :: nat) \<le> 70"
      by (auto simp: isHexChar_def Let_def)
    have "(of_char (char_of ((of_char c :: nat) + 32)) :: nat) = (of_char c + 32) mod 256"
      by (simp only: of_char_of)
    then have "(of_char (char_of ((of_char c :: nat) + 32)) :: nat) = of_char c + 32"
      using r by simp
    then show ?thesis using r True
      by (simp add: lowerChar_def Let_def isHexChar_def)
  qed
qed

lemma length_encoded_address:
  assumes "isValidAddress s"
  shows "length (bufferFromHex (drop 2 (toLowerCase s))) = 20"
proof -
  have "list_all isHexChar (drop 2 (toLowerCase s))"
    using assms
    by (auto simp: isValidAddress_def toLowerCase_def list_all_iff drop_map isHexChar_lowerChar)
  moreover have "length (drop 2 (toLowerCase s)) = 40"
    using assms by (simp add: isValidAddress_def toLowerCase_def)
  ultimately show ?thesis by (simp add: length_bufferFromHex)
qed

lemma length_int_bytes [simp]: "length (int_bytes k n) = k"
  by (simp add: int_bytes_def)

lemma buildPaymasterAndData_decodes:
  assumes b: "buildPaymasterAndData L cfg att ph ep = Inr d"
  shows "length d = 116 \<and>
         paymaster_decode d =
           Inr \<lparr> attUid = word_rcat (ts_uid att), pmd_policyHash = word_rcat ph,
                 pmd_epoch = word_of_int ep \<rparr>"
proof -
  from b have a: "isAddress L (paymasterAddress cfg)" and u: "length (ts_uid att) = 32"
    and p: "length ph = 32" and e: "0 \<le> ep" "ep < 2 ^ 256"
    by (auto simp: buildPaymasterAndData_def split: if_splits sum.splits)
  define pa where "pa = bufferFromHex (drop 2 (toLowerCase (paymasterAddress cfg)))"
  have la: "length pa = 20"
    using a by (simp add: pa_def isAddress_def length_encoded_address)
  have d: "d = pa @ ts_uid att @ ph @ int_bytes 32 ep"
    using b a u p e by (simp add: buildPaymasterAndData_def pa_def)
  have len: "length d = 116" using la u p by (simp add: d)
  have "word_rcat (int_bytes 32 ep) = (word_of_int ep :: 256 word)"
    using word_rcat_word_bytes [of "word_of_int ep"] by (simp add: word_bytes_of_int)
  then have "paymaster_decode d =
           Inr \<lparr> attUid = word_rcat (ts_uid att), pmd_policyHash = word_rcat ph,
                 pmd_epoch = word_of_int ep \<rparr>"
    using la u p len by (simp add: paymaster_decode_long) (simp add: d)
  with len show ?thesis by simp
qed

section \<open>The sample payload on chain\<close>

lemma samplePayload_decodes:
  "paymaster_decode (samplePayload trailer) =
     Inr \<lparr> attUid = 9, pmd_policyHash = samplePolicyHash, pmd_epoch = 202511 \<rparr>"
proof -
  have "116 \<le> length (samplePayload trailer)" by (simp add: samplePayload_def)
  then show ?thesis
    by (simp add: paymaster_decode_long) (simp add: samplePayload_def word_rcat_word_bytes)
qed

lemma sample_validation:
  "validatePaymasterUserOp sampleHash (MockEAS (sampleStore 1000)) (sampleEnv t) samplePaymaster
     \<lparr> paymasterAndData = samplePayload trailer \<rparr> 5 0 =
   (if t \<le> 4600
    then Inr (samplePaymaster, [PolicyChecked 9 samplePolicyHash 202511], [], 0)
    else Inl InvalidAttestation)"
  by (auto simp: validatePaymasterUserOp_def samplePayload_decodes sampleEnv_def
      samplePaymaster_def constructor_def sampleStore_def MockEAS_def MockEAS_set_def
      MockEAS_new_def MockEAS_isAttestationValid_def MockEAS_getAttestation_def
      paymaster_policyHash_bytes samplePolicyHash_def Let_def)

section \<open>Attestation checks of the paymaster\<close>

lemma validate_success_cases:
  assumes "validatePaymasterUserOp H EAS env pm op uoh pf = Inr r"
  obtains pmd where
    "msg_sender env = ENTRY_POINT pm"
    "paymaster_decode (paymasterAndData op) = Inr pmd"
    "isAttestationValid EAS (block_timestamp env) (attUid pmd)"
    "schema (getAttestation EAS (attUid pmd)) = SCHEMA_UID pm"
    "attesterWhitelist pm (attester (getAttestation EAS (attUid pmd)))"
    "expirationTime (getAttestation EAS (attUid pmd)) = 0 \<or>
     block_timestamp env \<le> ucast (expirationTime (getAttestation EAS (attUid pmd)))"
    "fst (paymaster_policyHash H (mem env) uoh (pmd_epoch pmd)) = pmd_policyHash pmd"
    "r = (pm, [PolicyChecked (attUid pmd) (pmd_policyHash pmd) (pmd_epoch pmd)], [], 0)"
  using assms
  by (auto simp: validatePaymasterUserOp_def Let_def not_less split: if_splits sum.splits)

lemma validate_success_intro:
  assumes "msg_sender env = ENTRY_POINT pm"
    "paymaster_decode (paymasterAndData op) = Inr pmd"
    "isAttestationValid EAS (block_timestamp env) (attUid pmd)"
    "schema (getAttestation EAS (attUid pmd)) = SCHEMA_UID pm"
    "attesterWhitelist pm (attester (getAttestation EAS (attUid pmd)))"
    "expirationTime (getAttestation EAS (attUid pmd)) = 0 \<or>
     block_timestamp env \<le> ucast (expirationTime (getAttestation EAS (attUid pmd)))"
    "fst (paymaster_policyHash H (mem env) uoh (pmd_epoch pmd)) = pmd_policyHash pmd"
  shows "validatePaymasterUserOp H EAS env pm op uoh pf =
         Inr (pm, [PolicyChecked (attUid pmd) (pmd_policyHash pmd) (pmd_epoch pmd)], [], 0)"
  using assms by (auto simp: validatePaymasterUserOp_def Let_def not_less)

text \<open>With any registry: an accepted payload has a whitelisted attester and an expiration
  that is zero or not before the block time.\<close>

lemma accepted_attestation_is_trusted_and_unexpired:
  assumes "validatePaymasterUserOp H EAS env pm op uoh pf = Inr r"
  shows "\<exists>pmd. paymaster_decode (paymasterAndData op) = Inr pmd \<and>
           attesterWhitelist pm (attester (getAttestation EAS (attUid pmd))) \<and>
           (expirationTime (getAttestation EAS (attUid pmd)) = 0 \<or>
            block_timestamp env \<le> ucast (expirationTime (getAttestation EAS (attUid pmd))))"
  using assms by (rule validate_success_cases) blast

text \<open>With \<open>MockEAS\<close> as the registry, no call reverts with \<open>ExpiredAttestation\<close>.\<close>

lemma MockEAS_never_ExpiredAttestation:
  "validatePaymasterUserOp H (MockEAS a) env pm op uoh pf \<noteq> Inl ExpiredAttestation"
  by (auto simp: validatePaymasterUserOp_def Let_def MockEAS_def MockEAS_isAttestationValid_def
      MockEAS_getAttestation_def paymaster_decode_def abi_decode_PaymasterData_def
      split: if_splits sum.splits)

lemma not_whitelisted_reverts:
  assumes "msg_sender env = ENTRY_POINT pm"
    and "paymaster_decode (paymasterAndData op) = Inr pmd"
    and "isAttestationValid EAS (block_timestamp env) (attUid pmd)"
    and "schema (getAttestation EAS (attUid pmd)) = SCHEMA_UID pm"
    and "\<not> attesterWhitelist pm (attester (getAttestation EAS (attUid pmd)))"
  shows "validatePaymasterUserOp H EAS env pm op uoh pf = Inl AttesterNotWhitelisted"
  using assms by (simp add: validatePaymasterUserOp_def Let_def)

text \<open>
  C4. With \<open>MockEAS\<close> as the registry, a payload whose attestation has a nonzero
  expiration before the block time reverts with \<open>InvalidAttestation\<close>: the validity
  check of the registry fails first, and the paymaster's own test for
  \<open>ExpiredAttestation\<close> is not reached. With expiration at issuance + 3600, validation at
  issuance + 3601 gives \<open>InvalidAttestation\<close>; at issuance + 3599 it succeeds.
\<close>

theorem expired_attestation_reverts_InvalidAttestation:
  assumes "msg_sender env = ENTRY_POINT pm"
    and "paymaster_decode (paymasterAndData op) = Inr pmd"
    and "expirationTime (a (attUid pmd)) \<noteq> 0"
    and "ucast (expirationTime (a (attUid pmd))) < block_timestamp env"
  shows "validatePaymasterUserOp H (MockEAS a) env pm op uoh pf = Inl InvalidAttestation"
  using assms
  by (simp add: validatePaymasterUserOp_def MockEAS_def MockEAS_isAttestationValid_def Let_def
      not_le)

theorem expired_attestation_reverts_InvalidAttestation_witness:
  "msg_sender (sampleEnv 4601) = ENTRY_POINT samplePaymaster \<and>
   expirationTime (sampleStore 1000 9) = 1000 + 3600 \<and>
   validatePaymasterUserOp sampleHash (MockEAS (sampleStore 1000)) (sampleEnv (1000 + 3601))
     samplePaymaster \<lparr> paymasterAndData = samplePayload [] \<rparr> 5 0 = Inl InvalidAttestation \<and>
   validatePaymasterUserOp sampleHash (MockEAS (sampleStore 1000)) (sampleEnv (1000 + 3599))
     samplePaymaster \<lparr> paymasterAndData = samplePayload [] \<rparr> 5 0 =
     Inr (samplePaymaster, [PolicyChecked 9 samplePolicyHash 202511], [], 0)"
proof -
  have h1: "msg_sender (sampleEnv 4601) = ENTRY_POINT samplePaymaster"
    by (simp add: sampleEnv_def samplePaymaster_def constructor_def)
  have h2: "paymaster_decode (paymasterAndData \<lparr> paymasterAndData = samplePayload [] \<rparr>) =
              Inr \<lparr> attUid = 9, pmd_policyHash = samplePolicyHash, pmd_epoch = 202511 \<rparr>"
    by (simp add: samplePayload_decodes)
  have e: "expirationTime (sampleStore 1000 9) = 4600"
    by (simp add: sampleStore_def MockEAS_set_def)
  have h3: "expirationTime (sampleStore 1000
              (attUid \<lparr> attUid = 9, pmd_policyHash = samplePolicyHash, pmd_epoch = 202511 \<rparr>)) \<noteq> 0"
    using e by simp
  have h4: "ucast (expirationTime (sampleStore 1000
              (attUid \<lparr> attUid = 9, pmd_policyHash = samplePolicyHash, pmd_epoch = 202511 \<rparr>)))
            < block_timestamp (sampleEnv 4601)"
    using e by (simp add: sampleEnv_def)
  note t = expired_attestation_reverts_InvalidAttestation
    [where a = "sampleStore 1000" and H = sampleHash and uoh = 5 and pf = 0, OF h1 h2 h3 h4]
  have ok: "validatePaymasterUserOp sampleHash (MockEAS (sampleStore 1000)) (sampleEnv 4599)
     samplePaymaster \<lparr> paymasterAndData = samplePayload [] \<rparr> 5 0 =
     Inr (samplePaymaster, [PolicyChecked 9 samplePolicyHash 202511], [], 0)"
    by (simp add: sample_validation)
  from t ok h1 e show ?thesis by simp
qed

section \<open>Replay\<close>

text \<open>
  C2, as stated, fails: a payload validated once, with \<open>postOp\<close> run after it, is
  validated again for the same operation hash and epoch, and accepted again.
\<close>

theorem replay_counterexample:
  "validatePaymasterUserOp sampleHash (MockEAS (sampleStore 1000)) (sampleEnv 2000)
     samplePaymaster \<lparr> paymasterAndData = samplePayload [] \<rparr> 5 0 =
     Inr (samplePaymaster, [PolicyChecked 9 samplePolicyHash 202511], [], 0) \<and>
   postOp (sampleEnv 2000) samplePaymaster opSucceeded [] 0 = Inr samplePaymaster \<and>
   validatePaymasterUserOp sampleHash (MockEAS (sampleStore 1000)) (sampleEnv 2100)
     samplePaymaster \<lparr> paymasterAndData = samplePayload [] \<rparr> 5 0 =
     Inr (samplePaymaster, [PolicyChecked 9 samplePolicyHash 202511], [], 0)"
proof -
  have "postOp (sampleEnv 2000) samplePaymaster opSucceeded [] 0 = Inr samplePaymaster"
    by (simp add: postOp_def sampleEnv_def samplePaymaster_def constructor_def)
  then show ?thesis by (simp add: sample_validation)
qed

text \<open>
  C2, amended. The paymaster keeps no nullifier and no spend: an accepted validation leaves
  its storage as it was, \<open>postOp\<close> changes nothing, and the same payload for the same
  operation hash, submitted again by the entry point at the same block time, is accepted
  again with the same result.
\<close>

theorem replay_is_accepted_again:
  assumes "validatePaymasterUserOp H EAS env pm op uoh pf = Inr (pm', evs, ret)"
    and "msg_sender env' = msg_sender env"
    and "block_timestamp env' = block_timestamp env"
  shows "pm' = pm \<and>
         postOp env pm' mode ctx cost = Inr pm' \<and>
         validatePaymasterUserOp H EAS env' pm' op uoh pf' = Inr (pm', evs, ret)"
proof -
  from assms(1) obtain pmd where c:
    "msg_sender env = ENTRY_POINT pm"
    "paymaster_decode (paymasterAndData op) = Inr pmd"
    "isAttestationValid EAS (block_timestamp env) (attUid pmd)"
    "schema (getAttestation EAS (attUid pmd)) = SCHEMA_UID pm"
    "attesterWhitelist pm (attester (getAttestation EAS (attUid pmd)))"
    "expirationTime (getAttestation EAS (attUid pmd)) = 0 \<or>
     block_timestamp env \<le> ucast (expirationTime (getAttestation EAS (attUid pmd)))"
    "fst (paymaster_policyHash H (mem env) uoh (pmd_epoch pmd)) = pmd_policyHash pmd"
    "(pm', evs, ret) = (pm, [PolicyChecked (attUid pmd) (pmd_policyHash pmd) (pmd_epoch pmd)], [], 0)"
    by (rule validate_success_cases)
  have same: "pm' = pm" using c(8) by simp
  have h: "fst (paymaster_policyHash H (mem env') uoh (pmd_epoch pmd)) = pmd_policyHash pmd"
    using c(7) by (simp add: paymaster_policyHash_bytes)
  have "validatePaymasterUserOp H EAS env' pm op uoh pf' =
        Inr (pm, [PolicyChecked (attUid pmd) (pmd_policyHash pmd) (pmd_epoch pmd)], [], 0)"
    using c(1-6) h assms(2,3) by (intro validate_success_intro) simp_all
  moreover have "postOp env pm mode ctx cost = Inr pm"
    using c(1) by (simp add: postOp_def)
  ultimately show ?thesis using c(8) by simp
qed

theorem replay_is_accepted_again_witness:
  "msg_sender (sampleEnv 2000) = msg_sender (sampleEnv 2000) \<and>
   validatePaymasterUserOp sampleHash (MockEAS (sampleStore 1000)) (sampleEnv 2000)
     samplePaymaster \<lparr> paymasterAndData = samplePayload [] \<rparr> 5 0 =
     Inr (samplePaymaster, [PolicyChecked 9 samplePolicyHash 202511], [], 0) \<and>
   postOp (sampleEnv 2000) samplePaymaster opSucceeded [] 0 = Inr samplePaymaster \<and>
   validatePaymasterUserOp sampleHash (MockEAS (sampleStore 1000)) (sampleEnv 2000)
     samplePaymaster \<lparr> paymasterAndData = samplePayload [] \<rparr> 5 1 =
     Inr (samplePaymaster, [PolicyChecked 9 samplePolicyHash 202511], [], 0)"
proof -
  have first: "validatePaymasterUserOp sampleHash (MockEAS (sampleStore 1000)) (sampleEnv 2000)
     samplePaymaster \<lparr> paymasterAndData = samplePayload [] \<rparr> 5 0 =
     Inr (samplePaymaster, [PolicyChecked 9 samplePolicyHash 202511], [], 0)"
    by (simp add: sample_validation)
  from replay_is_accepted_again [OF first refl refl, of opSucceeded "[]" 0 1] first
  show ?thesis by simp
qed

section \<open>Payload length\<close>

text \<open>
  C5, as stated, fails: a payload of 117 bytes is decoded and accepted.
\<close>

theorem long_payload_counterexample:
  "length (samplePayload [255]) = 117 \<and>
   paymaster_decode (samplePayload [255]) =
     Inr \<lparr> attUid = 9, pmd_policyHash = samplePolicyHash, pmd_epoch = 202511 \<rparr> \<and>
   validatePaymasterUserOp sampleHash (MockEAS (sampleStore 1000)) (sampleEnv 2000)
     samplePaymaster \<lparr> paymasterAndData = samplePayload [255] \<rparr> 5 0 =
     Inr (samplePaymaster, [PolicyChecked 9 samplePolicyHash 202511], [], 0)"
  by (simp add: sample_validation samplePayload_decodes) (simp add: samplePayload_def)

text \<open>
  C5, amended. A payload shorter than 116 bytes is rejected with \<open>PMD_TOO_SHORT\<close>; one
  of 116 bytes or more is decoded from its bytes 20 to 115 as (attestation reference,
  policy hash, epoch), what follows being ignored; every accepted payload has at least 116
  bytes; and what \<open>buildPaymasterAndData\<close> builds has exactly 116 bytes and decodes to
  the fields it was built from.
\<close>

theorem payload_decoding:
  "(length d < 116 \<longrightarrow> paymaster_decode d = Inl (Error ''PMD_TOO_SHORT'')) \<and>
   (116 \<le> length d \<longrightarrow>
      paymaster_decode d =
        Inr \<lparr> attUid = word_rcat (take 32 (drop 20 d)),
              pmd_policyHash = word_rcat (take 32 (drop 52 d)),
              pmd_epoch = word_rcat (take 32 (drop 84 d)) \<rparr>) \<and>
   (\<forall>H EAS env pm uoh pf r.
      validatePaymasterUserOp H EAS env pm \<lparr> paymasterAndData = d \<rparr> uoh pf = Inr r \<longrightarrow>
      116 \<le> length d) \<and>
   (\<forall>L cfg att ph ep.
      buildPaymasterAndData L cfg att ph ep = Inr d \<longrightarrow>
      length d = 116 \<and>
      paymaster_decode d =
        Inr \<lparr> attUid = word_rcat (ts_uid att), pmd_policyHash = word_rcat ph,
              pmd_epoch = word_of_int ep \<rparr>)"
proof (intro conjI allI impI)
  fix H EAS env pm uoh pf r
  assume "validatePaymasterUserOp H EAS env pm \<lparr> paymasterAndData = d \<rparr> uoh pf = Inr r"
  from validate_accepts_long_only [OF this] show "116 \<le> length d" by simp
next
  fix L cfg att ph ep
  assume b: "buildPaymasterAndData L cfg att ph ep = Inr d"
  from buildPaymasterAndData_decodes [OF b] show "length d = 116" by simp
  from buildPaymasterAndData_decodes [OF b] show "paymaster_decode d =
        Inr \<lparr> attUid = word_rcat (ts_uid att), pmd_policyHash = word_rcat ph,
              pmd_epoch = word_of_int ep \<rparr>" by simp
qed (simp_all add: paymaster_decode_short paymaster_decode_long)

lemma sample_isAddress: "isAddress sampleViem (paymasterAddress sampleConfig)"
  by (simp add: isAddress_def sampleViem_def sampleConfig_def isValidAddress_def isHexChar_def)

lemma sample_buildPaymasterAndData:
  "\<exists>d. buildPaymasterAndData sampleViem sampleConfig sampleAttestation
          (word_bytes samplePolicyHash) 202511 = Inr d"
  using sample_isAddress by (simp add: buildPaymasterAndData_def sampleAttestation_def)

theorem payload_decoding_witness:
  "length (replicate 115 (0::byte)) < 116 \<and>
   paymaster_decode (replicate 115 0) = Inl (Error ''PMD_TOO_SHORT'') \<and>
   116 \<le> length (samplePayload [255]) \<and>
   paymaster_decode (samplePayload [255]) =
     Inr \<lparr> attUid = 9, pmd_policyHash = samplePolicyHash, pmd_epoch = 202511 \<rparr> \<and>
   (\<exists>d. buildPaymasterAndData sampleViem sampleConfig sampleAttestation
          (word_bytes samplePolicyHash) 202511 = Inr d \<and>
        length d = 116 \<and>
        paymaster_decode d =
          Inr \<lparr> attUid = 9, pmd_policyHash = samplePolicyHash, pmd_epoch = 202511 \<rparr>)"
proof -
  have s: "length (replicate 115 (0::byte)) < 116" by simp
  have a: "paymaster_decode (replicate 115 0) = Inl (Error ''PMD_TOO_SHORT'')"
    using payload_decoding [of "replicate 115 0"] s by blast
  have l: "116 \<le> length (samplePayload [255])" by (simp add: samplePayload_def)
  have b: "paymaster_decode (samplePayload [255]) =
     Inr \<lparr> attUid = 9, pmd_policyHash = samplePolicyHash, pmd_epoch = 202511 \<rparr>"
    by (simp add: samplePayload_decodes)
  obtain d where d: "buildPaymasterAndData sampleViem sampleConfig sampleAttestation
          (word_bytes samplePolicyHash) 202511 = Inr d"
    using sample_buildPaymasterAndData by blast
  with payload_decoding [of d]
  have "length d = 116 \<and>
      paymaster_decode d =
        Inr \<lparr> attUid = word_rcat (ts_uid sampleAttestation),
              pmd_policyHash = word_rcat (word_bytes samplePolicyHash),
              pmd_epoch = word_of_int 202511 \<rparr>"
    by blast
  then have "length d = 116 \<and>
        paymaster_decode d =
          Inr \<lparr> attUid = 9, pmd_policyHash = samplePolicyHash, pmd_epoch = 202511 \<rparr>"
    by (simp add: sampleAttestation_def word_rcat_word_bytes)
  with d s a l b show ?thesis by blast
qed

section \<open>Spending ledger\<close>

lemma getEpochSpending_recordSpending:
  "getEpochSpending (recordSpending pv e amount) e' =
     (if e' = e then getEpochSpending pv e + amount else getEpochSpending pv e')"
  by (simp add: getEpochSpending_def recordSpending_def Let_def)

lemma valid_no_violations:
  "valid (policyValidator_validate cfg pv now req ep) \<longleftrightarrow>
   violations (policyValidator_validate cfg pv now req ep) = []"
  by (simp add: policyValidator_validate_def Let_def)

lemma cap_violation_listed:
  assumes "getEpochSpending pv ep + amountIn req > maxTransactionValue cfg * 10"
  shows "''Epoch spending limit exceeded. Remaining: '' @
           toString (maxTransactionValue cfg * 10 - getEpochSpending pv ep)
         \<in> set (violations (policyValidator_validate cfg pv now req ep))"
  using assms by (simp add: policyValidator_validate_def Let_def getEpochSpending_def)

lemma valid_within_cap:
  assumes "valid (policyValidator_validate cfg pv now req ep)"
  shows "getEpochSpending pv ep + amountIn req \<le> maxTransactionValue cfg * 10"
proof (rule ccontr)
  assume "\<not> getEpochSpending pv ep + amountIn req \<le> maxTransactionValue cfg * 10"
  then have "violations (policyValidator_validate cfg pv now req ep) \<noteq> []"
    using cap_violation_listed [of cfg pv ep req now] by auto
  with assms show False by (simp add: valid_no_violations)
qed

lemma decisionLogic_invalid: "\<not> approved (decisionLogic False s fl)"
  by (simp add: decisionLogic_def)

text \<open>The risk step of \<open>processPayment\<close>: it returns, and approves only a valid policy
  validation.\<close>

lemma risk_step:
  "\<exists>ra dec.
     (if skip
      then Some (ra0, \<lparr> approved = pvalid,
                        reason = (if pvalid then ''Policy valid, risk analysis skipped''
                                  else ''Policy validation failed''),
                        riskScore = 0, flags = [], suggestedAction = None \<rparr>)
      else analyze ra0 req pvalid) = Some (ra, dec) \<and>
     (approved dec \<longrightarrow> pvalid)"
proof (cases skip)
  case True
  then show ?thesis by simp
next
  case False
  obtain f where "analyze ra0 req pvalid =
      Some (recordTransaction ra0 req, decisionLogic pvalid (calculateRiskScore f pvalid) (riskFlags f))"
    using analyze_total by blast
  then show ?thesis using False decisionLogic_invalid by (cases pvalid) auto
qed

lemma buildPlan_fields:
  "buildPlan L now req ep = Inr plan \<Longrightarrow> epoch plan = ep \<and> target plan = merchant req"
  by (auto simp: buildPlan_def Let_def split: sum.splits)

lemma processPayment_outcome:
  fixes L clk ag req opts
  defines "ep \<equiv> orNumber (opt_epoch opts) (clockEpoch (t_epoch clk))"
  defines "pval \<equiv> policyValidator_validate (config ag) (policyValidator ag) (t_validate clk) req ep"
  shows "\<exists>ag' out. processPayment L clk ag req opts = Some (ag', out) \<and> config ag' = config ag \<and>
          (case out of
             Inl e \<Rightarrow> policyValidator ag' = policyValidator ag
           | Inr a \<Rightarrow> request a = req \<and> epoch (transactionPlan a) = ep \<and>
                     policyValidation a = pval \<and>
                     (approved (decision a) \<longrightarrow> valid pval) \<and>
                     policyValidator ag' =
                       (if approved (decision a)
                        then recordSpending (policyValidator ag) ep (amountIn req)
                        else policyValidator ag))"
proof (cases "fst (validateConfiguration (config ag))")
  case False
  then show ?thesis by (simp add: processPayment_def Let_def)
next
  case cv: True
  show ?thesis
  proof (cases "buildPlan L (t_call clk) req ep")
    case (Inl e)
    then show ?thesis using cv by (simp add: processPayment_def Let_def ep_def)
  next
    case (Inr plan)
    note bp = buildPlan_fields [OF Inr]
    show ?thesis
    proof (cases "fst (transactionBuilder_validate plan)")
      case False
      then show ?thesis using cv Inr by (simp add: processPayment_def Let_def ep_def)
    next
      case tv: True
      obtain ra dec where rs:
        "(if skipRiskAnalysis opts
          then Some (riskAnalyzer ag,
                     \<lparr> approved = valid pval,
                       reason = (if valid pval then ''Policy valid, risk analysis skipped''
                                 else ''Policy validation failed''),
                       riskScore = 0, flags = [], suggestedAction = None \<rparr>)
          else analyze (riskAnalyzer ag) req (valid pval)) = Some (ra, dec)"
        and ap: "approved dec \<longrightarrow> valid pval"
        using risk_step by blast
      show ?thesis
      proof (cases "approved dec")
        case False
        then show ?thesis using cv Inr tv rs bp
          by (simp add: processPayment_def Let_def ep_def [symmetric] pval_def [symmetric])
      next
        case True
        then show ?thesis using cv Inr tv rs bp ap
          by (simp add: processPayment_def Let_def ep_def [symmetric] pval_def [symmetric]
              split: sum.splits)
      qed
    qed
  qed
qed

text \<open>\<open>processPayment\<close> is its steps, one after the other, and a batch of one call is that
  call.\<close>

lemma processPayment_steps:
  "processPayment L clk ag req opts =
     (case prepareStep L clk ag req opts of
        Inl e \<Rightarrow> Some (ag, Inl e)
      | Inr (ep, plan, pval) \<Rightarrow>
          (case riskStep (riskAnalyzer ag) req opts pval of
             None \<Rightarrow> None
           | Some (ra, dec) \<Rightarrow>
               if approved dec then
                 (case attestStep L clk (config ag) req opts plan of
                    Inl e \<Rightarrow> Some (ag \<lparr> riskAnalyzer := ra \<rparr>, Inl e)
                  | Inr att \<Rightarrow>
                      Some (ag \<lparr> riskAnalyzer := ra,
                                 policyValidator :=
                                   recordSpending (policyValidator ag) ep (amountIn req) \<rparr>,
                            Inr \<lparr> request = req, decision = dec, policyValidation = pval,
                                  transactionPlan = plan, attestation = Some att,
                                  timestamp = t_start clk \<rparr>))
               else
                 Some (ag \<lparr> riskAnalyzer := ra \<rparr>,
                       Inr \<lparr> request = req, decision = dec, policyValidation = pval,
                             transactionPlan = plan, attestation = None,
                             timestamp = t_start clk \<rparr>)))"
proof (cases "fst (validateConfiguration (config ag))")
  case False
  then show ?thesis by (simp add: processPayment_def prepareStep_def Let_def)
next
  case cv: True
  define ep where "ep = orNumber (opt_epoch opts) (clockEpoch (t_epoch clk))"
  show ?thesis
  proof (cases "buildPlan L (t_call clk) req ep")
    case (Inl e)
    then show ?thesis using cv
      by (simp add: processPayment_def prepareStep_def Let_def ep_def)
  next
    case (Inr plan)
    show ?thesis
    proof (cases "fst (transactionBuilder_validate plan)")
      case False
      then show ?thesis using cv Inr
        by (simp add: processPayment_def prepareStep_def Let_def ep_def)
    next
      case tv: True
      define pval where "pval = policyValidator_validate (config ag) (policyValidator ag)
                                  (t_validate clk) req ep"
      have prep: "prepareStep L clk ag req opts = Inr (ep, plan, pval)"
        using cv Inr tv by (simp add: prepareStep_def Let_def ep_def pval_def)
      show ?thesis
      proof (cases "riskStep (riskAnalyzer ag) req opts pval")
        case None
        then show ?thesis using cv Inr tv prep
          by (simp add: processPayment_def Let_def ep_def [symmetric] pval_def [symmetric]
              riskStep_def)
      next
        case (Some rd)
        obtain ra dec where rd: "rd = (ra, dec)" by (cases rd)
        show ?thesis
        proof (cases "approved dec")
          case False
          then show ?thesis using cv Inr tv prep Some rd
            by (simp add: processPayment_def Let_def ep_def [symmetric] pval_def [symmetric]
                riskStep_def)
        next
          case True
          then show ?thesis using cv Inr tv prep Some rd
            by (simp add: processPayment_def Let_def ep_def [symmetric] pval_def [symmetric]
                riskStep_def attestStep_def split: sum.splits)
        qed
      qed
    qed
  qed
qed

lemma single_call_batch:
  "processPaymentBatch L ag [(clk, req, opts)] =
     (case processPayment L clk ag req opts of
        None \<Rightarrow> None
      | Some (ag', out) \<Rightarrow> Some (ag', [out]))"
  by (simp add: processPayment_steps processPaymentBatch_def Let_def
      split: sum.splits option.splits prod.splits)

text \<open>The address arguments of \<open>encodeFunctionData\<close>: the payer is the zero address; the
  merchant is encoded before the token.\<close>

lemma isAddress_zeroAddress: "isAddress L zeroAddress"
  by (simp add: isAddress_def zeroAddress_def isValidAddress_def isHexChar_def toLowerCase_def
      lowerChar_def list_all_iff char_of_def bit_Suc_0_iff)

lemma isAddress_isValidAddress: "isAddress L s \<Longrightarrow> isValidAddress s"
  by (simp add: isAddress_def)

lemma encodePaymentCall_merchant:
  "\<not> isAddress L (merchant req) \<Longrightarrow>
   encodePaymentCall L now req = Inl (InvalidAddressError (merchant req))"
  by (simp add: encodePaymentCall_def encodeFunctionData_def isAddress_zeroAddress)

lemma encodePaymentCall_token:
  "isAddress L (merchant req) \<Longrightarrow> \<not> isAddress L (tokenIn req) \<Longrightarrow>
   encodePaymentCall L now req = Inl (InvalidAddressError (tokenIn req))"
  by (simp add: encodePaymentCall_def encodeFunctionData_def isAddress_zeroAddress)

lemma encodePaymentCall_Inr:
  "encodePaymentCall L now req = Inr cd \<Longrightarrow>
   isAddress L (merchant req) \<and> isAddress L (tokenIn req) \<and>
   0 \<le> amountIn req \<and> amountIn req < 2 ^ 256"
  by (simp add: encodePaymentCall_def encodeFunctionData_def isAddress_zeroAddress
      split: if_splits sum.splits)

section \<open>Calls that reach policy validation\<close>

text \<open>The epoch that \<open>encodePaymentCall\<close> reads from the clock, at most six characters
  of a decimal string, is a \<open>uint256\<close>; so with addresses that \<open>isAddress\<close> accepts
  and an amount that is a \<open>uint256\<close>, \<open>buildPlan\<close> returns a plan that passes the plan
  validation.\<close>

lemma of_char_bound: "(of_char c :: nat) < 256"
proof -
  have "(of_char c :: nat) mod 256 = of_char c" by (rule of_char_mod_256)
  moreover have "(of_char c :: nat) mod 256 < 256" by simp
  ultimately show ?thesis by (simp only:)
qed

lemma parseInt_step_bound: "10 * a + ((of_char c :: nat) - 48) + 256 \<le> (a + 256) * 10"
proof -
  have "(of_char c :: nat) - 48 \<le> of_char c" by (rule diff_le_self)
  also have "\<dots> \<le> 2304"
    using of_char_bound [of c] by (rule less_imp_le [THEN order_trans]) simp
  finally show ?thesis by (simp add: algebra_simps)
qed

lemma parseInt_bound_aux:
  "foldl (\<lambda>acc c. 10 * acc + ((of_char c :: nat) - 48)) a s + 256 \<le> (a + 256) * 10 ^ length s"
proof (induction s arbitrary: a)
  case Nil
  then show ?case by simp
next
  case (Cons c s)
  have "foldl (\<lambda>acc c. 10 * acc + ((of_char c :: nat) - 48)) (10 * a + (of_char c - 48)) s + 256
        \<le> (10 * a + (of_char c - 48) + 256) * 10 ^ length s"
    by (rule Cons.IH)
  also have "\<dots> \<le> ((a + 256) * 10) * 10 ^ length s"
    by (rule mult_right_mono [OF parseInt_step_bound]) simp
  also have "\<dots> = (a + 256) * 10 ^ length (c # s)"
    by (simp only: mult.assoc list.size power_Suc add_Suc_right add_0_right One_nat_def)
  finally show ?case by (simp only: foldl_Cons)
qed

lemma clockEpoch_range: "0 \<le> clockEpoch now \<and> clockEpoch now < 2 ^ 256"
proof -
  have "foldl (\<lambda>acc c. 10 * acc + ((of_char c :: nat) - 48)) 0 (take 6 (show_nat now)) + 256
        \<le> (0 + 256) * 10 ^ length (take 6 (show_nat now))"
    by (rule parseInt_bound_aux)
  also have "\<dots> \<le> 256 * 10 ^ 6"
  proof -
    have "(10::nat) ^ length (take 6 (show_nat now)) \<le> 10 ^ 6"
      by (rule power_increasing) simp_all
    then show ?thesis by simp
  qed
  finally have "foldl (\<lambda>acc c. 10 * acc + ((of_char c :: nat) - 48)) 0 (take 6 (show_nat now))
        < 256000000" by simp
  then have "clockEpoch now < 256000000"
    by (simp add: clockEpoch_def parseInt_def)
  moreover have "0 \<le> clockEpoch now" by (simp add: clockEpoch_def parseInt_def)
  ultimately show ?thesis by simp
qed

lemma encodePaymentCall_returns:
  assumes "isAddress L (merchant req)" "isAddress L (tokenIn req)"
    "0 \<le> amountIn req" "amountIn req < 2 ^ 256"
  shows "\<exists>cd. encodePaymentCall L now req = Inr cd"
  using assms clockEpoch_range [of now]
  by (simp add: encodePaymentCall_def encodeFunctionData_def isAddress_zeroAddress keccak256_def)

lemma buildPlan_returns:
  assumes "isAddress L (merchant req)" "isAddress L (tokenIn req)"
    "0 \<le> amountIn req" "amountIn req < 2 ^ 256"
  shows "\<exists>plan. buildPlan L now req ep = Inr plan \<and> fst (transactionBuilder_validate plan)"
proof -
  obtain cd where cd: "encodePaymentCall L now req = Inr cd"
    using encodePaymentCall_returns [OF assms] by blast
  have v: "isValidAddress (merchant req)" using assms(1) by (rule isAddress_isValidAddress)
  show ?thesis using v
    by (simp add: buildPlan_def cd Let_def estimateGas_def transactionBuilder_validate_def
        calculateUserOpHash_def planPolicyHash_def keccak256_def)
qed

text \<open>The risk step always returns; after a failed policy validation the call returns an
  analysis with a decision that is not approved.\<close>

lemma riskStep_total:
  "\<exists>ra dec. riskStep ra0 req opts pval = Some (ra, dec) \<and> (approved dec \<longrightarrow> valid pval)"
  using risk_step [of "skipRiskAnalysis opts" ra0 "valid pval" req]
  by (simp add: riskStep_def)

lemma invalid_policy_returns_decision:
  assumes cv: "fst (validateConfiguration (config ag))"
    and ad: "isAddress L (merchant req)" "isAddress L (tokenIn req)"
    and am: "0 \<le> amountIn req" "amountIn req < 2 ^ 256"
    and nv: "\<not> valid (policyValidator_validate (config ag) (policyValidator ag) (t_validate clk) req
                        (orNumber (opt_epoch opts) (clockEpoch (t_epoch clk))))"
  shows "\<exists>ra a. processPayment L clk ag req opts = Some (ag \<lparr> riskAnalyzer := ra \<rparr>, Inr a) \<and>
           \<not> approved (decision a) \<and> attestation a = None"
proof -
  define ep where "ep = orNumber (opt_epoch opts) (clockEpoch (t_epoch clk))"
  define pval where
    "pval = policyValidator_validate (config ag) (policyValidator ag) (t_validate clk) req ep"
  obtain plan where plan: "buildPlan L (t_call clk) req ep = Inr plan"
    "fst (transactionBuilder_validate plan)"
    using buildPlan_returns [OF ad am] by blast
  have prep: "prepareStep L clk ag req opts = Inr (ep, plan, pval)"
    using cv plan by (simp add: prepareStep_def Let_def ep_def pval_def)
  obtain ra dec where rs: "riskStep (riskAnalyzer ag) req opts pval = Some (ra, dec)"
    and ap: "approved dec \<longrightarrow> valid pval"
    using riskStep_total by blast
  have na: "\<not> approved dec" using ap nv by (auto simp: pval_def ep_def)
  have "processPayment L clk ag req opts =
      Some (ag \<lparr> riskAnalyzer := ra \<rparr>,
            Inr \<lparr> request = req, decision = dec, policyValidation = pval,
                  transactionPlan = plan, attestation = None, timestamp = t_start clk \<rparr>)"
    using prep rs na by (simp add: processPayment_steps)
  then show ?thesis using na by auto
qed

section \<open>The sample payment\<close>

lemma length_keccak256 [simp]: "length (keccak256 L bs) = 32"
  by (simp add: keccak256_def)

lemma sample_validation_valid:
  "policyValidator_validate sampleConfig \<lparr> epochSpending = Map.empty \<rparr> 1762041600000
     sampleRequest 176204 =
   \<lparr> valid = True, violations = [], warnings = [], capRemaining = 1000, epochValid = True \<rparr>"
  by (simp add: policyValidator_validate_def sampleConfig_def sampleRequest_def Let_def
      clockEpoch_sample isValidAddress_def isHexChar_def)

lemma sample_analyze:
  "analyze emptyAnalyzer sampleRequest True =
     Some (recordTransaction emptyAnalyzer sampleRequest,
           decisionLogic True 20 [''UNKNOWN_MERCHANT''])"
  by (simp add: analyze_def identifyRiskFactors_def isUnusualAmount_def emptyAnalyzer_def
        sampleRequest_def calculateRiskScore_def riskFlags_def isUnknownToken_def knownTokens_def
        toLowerCase_def lowerChar_def getRecentFailures_def checkVelocity_def Let_def)

lemma sample_payment_commits:
  "\<exists>ag' a. processPayment sampleViem sampleClock (zkAgent_new sampleConfig) sampleRequest
              sampleOptions = Some (ag', Inr a) \<and>
           approved (decision a) \<and> request a = sampleRequest \<and>
           epoch (transactionPlan a) = 176204"
proof -
  obtain cd where cd: "encodePaymentCall sampleViem 1762041600000 sampleRequest = Inr cd"
    using sample_call by blast
  have cfg: "fst (validateConfiguration sampleConfig)"
    by (simp add: validateConfiguration_def sampleConfig_def)
  have plan: "buildPlan sampleViem 1762041600000 sampleRequest 176204 =
      Inr \<lparr> userOpHash = calculateUserOpHash sampleViem sampleRequest cd, callData = cd,
            target = merchant sampleRequest, plan_value = 0, gasEstimate = 171000,
            policyHash = planPolicyHash sampleViem (calculateUserOpHash sampleViem sampleRequest cd) 176204,
            epoch = 176204 \<rparr>"
    by (simp add: buildPlan_def cd estimateGas_def Let_def)
  have tv: "fst (transactionBuilder_validate
      \<lparr> userOpHash = calculateUserOpHash sampleViem sampleRequest cd, callData = cd,
            target = merchant sampleRequest, plan_value = 0, gasEstimate = 171000,
            policyHash = planPolicyHash sampleViem (calculateUserOpHash sampleViem sampleRequest cd) 176204,
            epoch = 176204 \<rparr>)"
    by (simp add: transactionBuilder_validate_def calculateUserOpHash_def planPolicyHash_def
        sampleRequest_def isValidAddress_def isHexChar_def)
  have att: "\<exists>att. createAttestation sampleViem sampleConfig 1762041600000
      \<lparr> userOpHash = calculateUserOpHash sampleViem sampleRequest cd, callData = cd,
            target = merchant sampleRequest, plan_value = 0, gasEstimate = 171000,
            policyHash = planPolicyHash sampleViem (calculateUserOpHash sampleViem sampleRequest cd) 176204,
            epoch = 176204 \<rparr> m p d = Inr att \<and> ts_schema att = schemaUID sampleConfig \<and>
            ts_expirationTime att = 1762041600 + 3600" for m p d
    using sample_isAddress
    by (simp add: createAttestation_def encodeAttestationData_def calculateUserOpHash_def
        planPolicyHash_def Let_def)
  show ?thesis
    using cfg plan tv
    apply (simp add: processPayment_def Let_def sampleClock_def sampleOptions_def zkAgent_new_def
        orNumber_def sample_validation_valid emptyAnalyzer_def [symmetric] sample_analyze)
    apply (insert att [of "orString None (modelId sampleConfig)"
         "orString None (''Pay '' @ merchant sampleRequest @ '' '' @ toString (amountIn sampleRequest) @
                                '' of '' @ tokenIn sampleRequest)"
         "orString None (description sampleRequest)"])
    apply (auto simp: verifyAttestation_def Let_def decisionLogic_def)
    done
qed

section \<open>Spending, cap and rejection\<close>

text \<open>Calls awaited one by one: the spending recorded for an epoch grows by the amounts
  committed in it, and stays within the cap of ten times \<open>maxTransactionValue\<close> (or comes
  within it with the first commit).\<close>

lemma awaited_calls_spending:
  "\<exists>ag' outss. processPaymentBatches L ag (map (\<lambda>c. [c]) calls) = Some (ag', outss) \<and>
      config ag' = config ag \<and>
      getEpochSpending (policyValidator ag') e =
        getEpochSpending (policyValidator ag) e + sum_list (committedIn e (concat outss)) \<and>
      (getEpochSpending (policyValidator ag) e \<le> maxTransactionValue (config ag) * 10 \<or>
       committedIn e (concat outss) \<noteq> [] \<longrightarrow>
         getEpochSpending (policyValidator ag') e \<le> maxTransactionValue (config ag) * 10)"
proof (induction calls arbitrary: ag)
  case Nil
  then show ?case by simp
next
  case (Cons c rest)
  obtain clk req opts where c: "c = (clk, req, opts)" by (cases c)
  define ep where "ep = orNumber (opt_epoch opts) (clockEpoch (t_epoch clk))"
  define pval where
    "pval = policyValidator_validate (config ag) (policyValidator ag) (t_validate clk) req ep"
  define cap where "cap = maxTransactionValue (config ag) * 10"
  from processPayment_outcome [of L clk ag req opts]
  obtain ag1 out where p: "processPayment L clk ag req opts = Some (ag1, out)"
    and cf: "config ag1 = config ag"
    and oc: "case out of
             Inl e \<Rightarrow> policyValidator ag1 = policyValidator ag
           | Inr a \<Rightarrow> request a = req \<and> epoch (transactionPlan a) = ep \<and>
                     policyValidation a = pval \<and>
                     (approved (decision a) \<longrightarrow> valid pval) \<and>
                     policyValidator ag1 =
                       (if approved (decision a)
                        then recordSpending (policyValidator ag) ep (amountIn req)
                        else policyValidator ag)"
    unfolding ep_def pval_def by blast
  from Cons.IH [of ag1]
  obtain ag2 outss where r: "processPaymentBatches L ag1 (map (\<lambda>c. [c]) rest) = Some (ag2, outss)"
    and cf2: "config ag2 = config ag1"
    and sum2: "getEpochSpending (policyValidator ag2) e =
        getEpochSpending (policyValidator ag1) e + sum_list (committedIn e (concat outss))"
    and cap2: "getEpochSpending (policyValidator ag1) e \<le> maxTransactionValue (config ag1) * 10 \<or>
       committedIn e (concat outss) \<noteq> [] \<longrightarrow>
         getEpochSpending (policyValidator ag2) e \<le> maxTransactionValue (config ag1) * 10"
    by blast
  have run: "processPaymentBatches L ag (map (\<lambda>c. [c]) (c # rest)) = Some (ag2, [out] # outss)"
    using p r by (simp add: c single_call_batch)
  have step: "getEpochSpending (policyValidator ag1) e =
                getEpochSpending (policyValidator ag) e + sum_list (committedIn e [out]) \<and>
              (committedIn e [out] \<noteq> [] \<longrightarrow> getEpochSpending (policyValidator ag1) e \<le> cap)"
  proof (cases out)
    case (Inl err)
    then show ?thesis using oc by simp
  next
    case (Inr a)
    show ?thesis
    proof (cases "approved (decision a)")
      case False
      then show ?thesis using oc Inr by simp
    next
      case True
      then have v: "valid pval" and rec: "policyValidator ag1 =
          recordSpending (policyValidator ag) ep (amountIn req)"
        and ra: "request a = req" and ea: "epoch (transactionPlan a) = ep"
        using oc Inr by simp_all
      have "getEpochSpending (policyValidator ag) ep + amountIn req \<le> cap"
        using v valid_within_cap unfolding pval_def cap_def by blast
      then show ?thesis using True Inr rec ra ea
        by (simp add: getEpochSpending_recordSpending)
    qed
  qed
  have split: "committedIn e (concat ([out] # outss)) =
      committedIn e [out] @ committedIn e (concat outss)"
    by (cases out) simp_all
  have total: "getEpochSpending (policyValidator ag2) e =
        getEpochSpending (policyValidator ag) e + sum_list (committedIn e (concat ([out] # outss)))"
    using step sum2 by (simp only: split sum_list_append)
  have bound: "getEpochSpending (policyValidator ag) e \<le> cap \<or>
               committedIn e (concat ([out] # outss)) \<noteq> []
               \<longrightarrow> getEpochSpending (policyValidator ag2) e \<le> cap"
  proof
    assume a: "getEpochSpending (policyValidator ag) e \<le> cap \<or>
               committedIn e (concat ([out] # outss)) \<noteq> []"
    show "getEpochSpending (policyValidator ag2) e \<le> cap"
    proof (cases "committedIn e [out] = []")
      case True
      then have "getEpochSpending (policyValidator ag1) e = getEpochSpending (policyValidator ag) e"
        using step by simp
      moreover have "committedIn e (concat ([out] # outss)) = committedIn e (concat outss)"
        using True by (simp only: split append_Nil)
      ultimately show ?thesis using a cap2 cf by (simp add: cap_def)
    next
      case False
      then have "getEpochSpending (policyValidator ag1) e \<le> cap" using step by simp
      then show ?thesis using cap2 cf by (simp add: cap_def)
    qed
  qed
  have cfx: "config ag2 = config ag" using cf cf2 by simp
  from run cfx total bound [unfolded cap_def] show ?case
    by - (rule exI [of _ ag2], rule exI [of _ "[out] # outss"], (intro conjI; assumption))
qed

text \<open>One call with no other in flight: a request that would take the epoch over the cap is
  rejected, with the epoch-spending-limit violation listed, and the spending is left as it
  was.\<close>

lemma over_cap_call_rejected:
  assumes over: "getEpochSpending (policyValidator ag)
                   (orNumber (opt_epoch opts) (clockEpoch (t_epoch clk))) + amountIn req
                 > maxTransactionValue (config ag) * 10"
  shows "\<exists>ag1 out. processPayment L clk ag req opts = Some (ag1, out) \<and>
       rejected out \<and> policyValidator ag1 = policyValidator ag \<and> config ag1 = config ag \<and>
       (\<forall>a. out = Inr a \<longrightarrow>
          ''Epoch spending limit exceeded. Remaining: '' @
            toString (maxTransactionValue (config ag) * 10 -
              getEpochSpending (policyValidator ag)
                (orNumber (opt_epoch opts) (clockEpoch (t_epoch clk))))
          \<in> set (violations (policyValidation a)))"
proof -
  define ep where "ep = orNumber (opt_epoch opts) (clockEpoch (t_epoch clk))"
  define pval where
    "pval = policyValidator_validate (config ag) (policyValidator ag) (t_validate clk) req ep"
  from processPayment_outcome [of L clk ag req opts]
  obtain ag1 out where p: "processPayment L clk ag req opts = Some (ag1, out)"
    and cf: "config ag1 = config ag"
    and oc: "case out of
             Inl e \<Rightarrow> policyValidator ag1 = policyValidator ag
           | Inr a \<Rightarrow> request a = req \<and> epoch (transactionPlan a) = ep \<and>
                     policyValidation a = pval \<and>
                     (approved (decision a) \<longrightarrow> valid pval) \<and>
                     policyValidator ag1 =
                       (if approved (decision a)
                        then recordSpending (policyValidator ag) ep (amountIn req)
                        else policyValidator ag)"
    unfolding ep_def pval_def by blast
  have over': "getEpochSpending (policyValidator ag) ep + amountIn req
                 > maxTransactionValue (config ag) * 10"
    using over by (simp add: ep_def)
  have nv: "\<not> valid pval"
    using over' valid_within_cap [of "config ag" "policyValidator ag" "t_validate clk" req ep]
    unfolding pval_def by auto
  have msg: "''Epoch spending limit exceeded. Remaining: '' @
          toString (maxTransactionValue (config ag) * 10 - getEpochSpending (policyValidator ag) ep)
        \<in> set (violations pval)"
    unfolding pval_def using over' by (rule cap_violation_listed)
  have "rejected out \<and> policyValidator ag1 = policyValidator ag \<and>
       (\<forall>a. out = Inr a \<longrightarrow>
          ''Epoch spending limit exceeded. Remaining: '' @
            toString (maxTransactionValue (config ag) * 10 - getEpochSpending (policyValidator ag) ep)
          \<in> set (violations (policyValidation a)))"
  proof (cases out)
    case (Inl err)
    then show ?thesis using oc by (simp add: rejected_def)
  next
    case (Inr a)
    then show ?thesis using oc nv msg by (auto simp: rejected_def)
  qed
  then show ?thesis using p cf unfolding ep_def by blast
qed

subsection \<open>Two calls in flight together\<close>

lemma near_validation:
  "policyValidator_validate sampleConfig \<lparr> epochSpending = [176204 \<mapsto> 900] \<rparr> 1762041600000
     sampleRequest 176204 =
   \<lparr> valid = True, violations = [], warnings = [], capRemaining = 100, epochValid = True \<rparr>"
  by (simp add: policyValidator_validate_def sampleConfig_def sampleRequest_def Let_def
      clockEpoch_sample isValidAddress_def isHexChar_def)

lemma sample_plan:
  "\<exists>plan. buildPlan sampleViem 1762041600000 sampleRequest 176204 = Inr plan \<and>
     fst (transactionBuilder_validate plan) \<and> epoch plan = 176204 \<and>
     (\<exists>att. attestStep sampleViem sampleClock sampleConfig sampleRequest sampleOptions plan =
              Inr att)"
proof -
  obtain cd where cd: "encodePaymentCall sampleViem 1762041600000 sampleRequest = Inr cd"
    using sample_call by blast
  define plan where "plan =
      \<lparr> userOpHash = calculateUserOpHash sampleViem sampleRequest cd, callData = cd,
        target = merchant sampleRequest, plan_value = 0, gasEstimate = 171000,
        policyHash = planPolicyHash sampleViem (calculateUserOpHash sampleViem sampleRequest cd) 176204,
        epoch = 176204 \<rparr>"
  have plan: "buildPlan sampleViem 1762041600000 sampleRequest 176204 = Inr plan"
    by (simp add: buildPlan_def cd estimateGas_def Let_def plan_def)
  have tv: "fst (transactionBuilder_validate plan)"
    by (simp add: transactionBuilder_validate_def calculateUserOpHash_def planPolicyHash_def
        sampleRequest_def isValidAddress_def isHexChar_def plan_def)
  have att: "\<exists>att. createAttestation sampleViem sampleConfig 1762041600000 plan m p d = Inr att \<and>
            ts_schema att = schemaUID sampleConfig \<and>
            ts_expirationTime att = 1762041600 + 3600" for m p d
    using sample_isAddress
    by (simp add: createAttestation_def encodeAttestationData_def calculateUserOpHash_def
        planPolicyHash_def Let_def plan_def)
  have "\<exists>att. attestStep sampleViem sampleClock sampleConfig sampleRequest sampleOptions plan =
              Inr att"
    using att [of "orString (opt_modelId sampleOptions) (modelId sampleConfig)"
         "orString (opt_prompt sampleOptions)
            (''Pay '' @ merchant sampleRequest @ '' '' @ toString (amountIn sampleRequest) @
             '' of '' @ tokenIn sampleRequest)"
         "orString (opt_planDescription sampleOptions) (description sampleRequest)"]
    by (auto simp: attestStep_def sampleClock_def verifyAttestation_def Let_def)
  with plan tv show ?thesis by (auto simp: plan_def)
qed

lemma second_analyze:
  "analyze (recordTransaction emptyAnalyzer sampleRequest) sampleRequest True =
     Some (recordTransaction (recordTransaction emptyAnalyzer sampleRequest) sampleRequest,
           decisionLogic True 20 [''UNKNOWN_MERCHANT''])"
  by (simp add: analyze_def identifyRiskFactors_def isUnusualAmount_def emptyAnalyzer_def
        recordTransaction_def
        sampleRequest_def calculateRiskScore_def riskFlags_def isUnknownToken_def knownTokens_def
        toLowerCase_def lowerChar_def getRecentFailures_def checkVelocity_def Let_def)

lemma near_prepare:
  "\<exists>plan. prepareStep sampleViem sampleClock nearCapAgent sampleRequest sampleOptions =
       Inr (176204, plan,
            \<lparr> valid = True, violations = [], warnings = [], capRemaining = 100,
              epochValid = True \<rparr>) \<and>
     epoch plan = 176204 \<and>
     (\<exists>att. attestStep sampleViem sampleClock sampleConfig sampleRequest sampleOptions plan =
              Inr att)"
proof -
  obtain plan where p: "buildPlan sampleViem 1762041600000 sampleRequest 176204 = Inr plan"
    "fst (transactionBuilder_validate plan)" "epoch plan = 176204"
    "\<exists>att. attestStep sampleViem sampleClock sampleConfig sampleRequest sampleOptions plan =
              Inr att"
    using sample_plan by blast
  have cfg: "fst (validateConfiguration sampleConfig)"
    by (simp add: validateConfiguration_def sampleConfig_def)
  have "prepareStep sampleViem sampleClock nearCapAgent sampleRequest sampleOptions =
       Inr (176204, plan,
            \<lparr> valid = True, violations = [], warnings = [], capRemaining = 100,
              epochValid = True \<rparr>)"
    using cfg p(1,2)
    by (simp add: prepareStep_def Let_def nearCapAgent_def sampleClock_def sampleOptions_def
        orNumber_def near_validation)
  with p show ?thesis by blast
qed

lemma near_facts:
  "riskAnalyzer nearCapAgent = emptyAnalyzer" "config nearCapAgent = sampleConfig"
  "policyValidator nearCapAgent = \<lparr> epochSpending = [176204 \<mapsto> 900] \<rparr>"
  "getEpochSpending \<lparr> epochSpending = [176204 \<mapsto> 900] \<rparr> 176204 = 900"
  "amountIn sampleRequest = 100"
  "approved (decisionLogic True 20 [''UNKNOWN_MERCHANT''])"
  by (simp_all add: nearCapAgent_def getEpochSpending_def sampleRequest_def decisionLogic_def)

lemma near_risk:
  "riskStep emptyAnalyzer sampleRequest sampleOptions
        \<lparr> valid = True, violations = [], warnings = [], capRemaining = 100, epochValid = True \<rparr> =
      Some (recordTransaction emptyAnalyzer sampleRequest,
            decisionLogic True 20 [''UNKNOWN_MERCHANT''])"
  "riskStep (recordTransaction emptyAnalyzer sampleRequest) sampleRequest sampleOptions
        \<lparr> valid = True, violations = [], warnings = [], capRemaining = 100, epochValid = True \<rparr> =
      Some (recordTransaction (recordTransaction emptyAnalyzer sampleRequest) sampleRequest,
            decisionLogic True 20 [''UNKNOWN_MERCHANT''])"
  by (simp_all add: riskStep_def sampleOptions_def sample_analyze second_analyze)

text \<open>The agent of the example is reached from a new agent by nine payments of 100,
  awaited one by one.\<close>

lemma sample_validation_valid_iff:
  "valid (policyValidator_validate sampleConfig pv 1762041600000 sampleRequest 176204) \<longleftrightarrow>
     getEpochSpending pv 176204 + 100 \<le> 1000"
  by (simp add: policyValidator_validate_def sampleConfig_def sampleRequest_def Let_def
      clockEpoch_sample isValidAddress_def isHexChar_def getEpochSpending_def)

lemma skip_call:
  assumes cf: "config ag = sampleConfig"
    and sp: "getEpochSpending (policyValidator ag) 176204 \<le> 900"
  shows "\<exists>a. processPayment sampleViem sampleClock ag sampleRequest skipOptions =
     Some (ag \<lparr> policyValidator := recordSpending (policyValidator ag) 176204 100 \<rparr>, Inr a)"
proof -
  obtain plan att where p: "buildPlan sampleViem 1762041600000 sampleRequest 176204 = Inr plan"
    "fst (transactionBuilder_validate plan)"
    "attestStep sampleViem sampleClock sampleConfig sampleRequest sampleOptions plan = Inr att"
    using sample_plan by blast
  have att: "attestStep sampleViem sampleClock sampleConfig sampleRequest skipOptions plan = Inr att"
    using p(3) by (simp add: attestStep_def skipOptions_def sampleOptions_def)
  have cfg: "fst (validateConfiguration sampleConfig)"
    by (simp add: validateConfiguration_def sampleConfig_def)
  have v: "valid (policyValidator_validate sampleConfig (policyValidator ag) 1762041600000
                    sampleRequest 176204)"
    using sp by (simp add: sample_validation_valid_iff)
  have prep: "prepareStep sampleViem sampleClock ag sampleRequest skipOptions =
       Inr (176204, plan,
            policyValidator_validate sampleConfig (policyValidator ag) 1762041600000
              sampleRequest 176204)"
    using cfg p(1,2)
    by (simp add: prepareStep_def Let_def cf sampleClock_def skipOptions_def orNumber_def)
  show ?thesis
    using v att
    by (simp add: processPayment_steps prep riskStep_def skipOptions_def [THEN arg_cong, of skipRiskAnalysis]
        cf near_facts)
qed


lemma awaited_skip_calls:
  assumes "config ag = sampleConfig"
    and "getEpochSpending (policyValidator ag) 176204 + 100 * int n \<le> 1000"
  shows "\<exists>outss. processPaymentBatches sampleViem ag
             (replicate n [(sampleClock, sampleRequest, skipOptions)]) =
           Some (ag \<lparr> policyValidator :=
                        ((\<lambda>pv. recordSpending pv 176204 100) ^^ n) (policyValidator ag) \<rparr>,
                 outss)"
  using assms
proof (induction n arbitrary: ag)
  case 0
  then show ?case by simp
next
  case (Suc n)
  define ag1 where
    "ag1 = ag \<lparr> policyValidator := recordSpending (policyValidator ag) 176204 100 \<rparr>"
  have sp: "getEpochSpending (policyValidator ag) 176204 \<le> 900" using Suc.prems(2) by simp
  obtain a where first: "processPayment sampleViem sampleClock ag sampleRequest skipOptions =
      Some (ag1, Inr a)"
    using skip_call [OF Suc.prems(1) sp] unfolding ag1_def by blast
  have c1: "config ag1 = sampleConfig" using Suc.prems(1) by (simp add: ag1_def)
  have s1: "getEpochSpending (policyValidator ag1) 176204 + 100 * int n \<le> 1000"
    using Suc.prems(2) by (simp add: ag1_def getEpochSpending_recordSpending)
  obtain outss where rest: "processPaymentBatches sampleViem ag1
             (replicate n [(sampleClock, sampleRequest, skipOptions)]) =
           Some (ag1 \<lparr> policyValidator :=
                        ((\<lambda>pv. recordSpending pv 176204 100) ^^ n) (policyValidator ag1) \<rparr>,
                 outss)"
    using Suc.IH [OF c1 s1] by blast
  have fin: "ag1 \<lparr> policyValidator :=
                        ((\<lambda>pv. recordSpending pv 176204 100) ^^ n) (policyValidator ag1) \<rparr> =
             ag \<lparr> policyValidator :=
                        ((\<lambda>pv. recordSpending pv 176204 100) ^^ Suc n) (policyValidator ag) \<rparr>"
    using funpow_swap1 [of "\<lambda>pv. recordSpending pv 176204 100" n "policyValidator ag"]
    by (simp add: ag1_def)
  show ?case using first rest fin by (simp add: single_call_batch)
qed

lemma nearCapAgent_reachable:
  "\<exists>outss. processPaymentBatches sampleViem (zkAgent_new sampleConfig)
             (replicate 9 [(sampleClock, sampleRequest, skipOptions)]) =
           Some (nearCapAgent, outss)"
proof -
  have c: "config (zkAgent_new sampleConfig) = sampleConfig"
    and s: "getEpochSpending (policyValidator (zkAgent_new sampleConfig)) 176204 + 100 * int 9 \<le> 1000"
    by (simp_all add: zkAgent_new_def getEpochSpending_def)
  have e: "zkAgent_new sampleConfig \<lparr> policyValidator :=
             ((\<lambda>pv. recordSpending pv 176204 100) ^^ 9) (policyValidator (zkAgent_new sampleConfig)) \<rparr> =
           nearCapAgent"
    by (simp add: eval_nat_numeral zkAgent_new_def nearCapAgent_def recordSpending_def
        emptyAnalyzer_def)
  show ?thesis using awaited_skip_calls [OF c s] unfolding e .
qed

lemma overlap_run:
  "\<exists>ag' a b.
      processPaymentBatch sampleViem nearCapAgent
        [(sampleClock, sampleRequest, sampleOptions), (sampleClock, sampleRequest, sampleOptions)] =
        Some (ag', [Inr a, Inr b]) \<and>
      approved (decision a) \<and> approved (decision b) \<and>
      valid (policyValidation a) \<and> valid (policyValidation b) \<and>
      request a = sampleRequest \<and> request b = sampleRequest \<and>
      epoch (transactionPlan a) = 176204 \<and> epoch (transactionPlan b) = 176204 \<and>
      config ag' = sampleConfig \<and>
      getEpochSpending (policyValidator ag') 176204 = 1100"
proof -
  obtain plan att where p:
    "prepareStep sampleViem sampleClock nearCapAgent sampleRequest sampleOptions =
       Inr (176204, plan,
            \<lparr> valid = True, violations = [], warnings = [], capRemaining = 100,
              epochValid = True \<rparr>)"
    "epoch plan = 176204"
    "attestStep sampleViem sampleClock sampleConfig sampleRequest sampleOptions plan = Inr att"
    using near_prepare by blast
  show ?thesis
    by (simp add: processPaymentBatch_def Let_def p near_risk near_facts
        getEpochSpending_recordSpending)
qed

lemma awaited_run:
  "\<exists>ag1 a ag2 out.
      processPayment sampleViem sampleClock nearCapAgent sampleRequest sampleOptions =
        Some (ag1, Inr a) \<and>
      approved (decision a) \<and>
      getEpochSpending (policyValidator ag1) 176204 = 1000 \<and>
      processPayment sampleViem sampleClock ag1 sampleRequest sampleOptions = Some (ag2, out) \<and>
      rejected out \<and>
      getEpochSpending (policyValidator ag2) 176204 = 1000"
proof -
  obtain plan att where p:
    "prepareStep sampleViem sampleClock nearCapAgent sampleRequest sampleOptions =
       Inr (176204, plan,
            \<lparr> valid = True, violations = [], warnings = [], capRemaining = 100,
              epochValid = True \<rparr>)"
    "epoch plan = 176204"
    "attestStep sampleViem sampleClock sampleConfig sampleRequest sampleOptions plan = Inr att"
    using near_prepare by blast
  define ag1 where "ag1 = nearCapAgent
      \<lparr> riskAnalyzer := recordTransaction emptyAnalyzer sampleRequest,
        policyValidator := recordSpending \<lparr> epochSpending = [176204 \<mapsto> 900] \<rparr> 176204 100 \<rparr>"
  define a where "a =
      \<lparr> request = sampleRequest, decision = decisionLogic True 20 [''UNKNOWN_MERCHANT''],
        policyValidation = \<lparr> valid = True, violations = [], warnings = [], capRemaining = 100,
                              epochValid = True \<rparr>,
        transactionPlan = plan, attestation = Some att, timestamp = t_start sampleClock \<rparr>"
  have first: "processPayment sampleViem sampleClock nearCapAgent sampleRequest sampleOptions =
        Some (ag1, Inr a)"
    by (simp add: processPayment_steps p near_risk near_facts ag1_def a_def)
  have ap: "approved (decision a)" by (simp add: a_def near_facts)
  have s1: "getEpochSpending (policyValidator ag1) 176204 = 1000"
    by (simp add: ag1_def getEpochSpending_recordSpending near_facts)
  have ep: "orNumber (opt_epoch sampleOptions) (clockEpoch (t_epoch sampleClock)) = 176204"
    by (simp add: sampleOptions_def orNumber_def)
  have over: "getEpochSpending (policyValidator ag1)
                (orNumber (opt_epoch sampleOptions) (clockEpoch (t_epoch sampleClock)))
              + amountIn sampleRequest > maxTransactionValue (config ag1) * 10"
    unfolding ep s1 by (simp add: ag1_def near_facts sampleConfig_def)
  from over_cap_call_rejected [OF over, of sampleViem]
  obtain ag2 out where
    "processPayment sampleViem sampleClock ag1 sampleRequest sampleOptions = Some (ag2, out)"
    "rejected out" "policyValidator ag2 = policyValidator ag1"
    by blast
  with first ap s1 show ?thesis by auto
qed

text \<open>
  C3. The cap of an epoch is ten times \<open>maxTransactionValue\<close>, 1000 for an agent with
  \<open>maxTransactionValue = 100\<close>. Nine payments of 100, awaited one by one, leave 900
  recorded for epoch 176204. On that agent two calls of \<open>processPayment\<close> for 100 each are
  started together (a batch of two). Both pass policy validation, which reads 900 for each
  of them, both are approved and attested, and both run \<open>recordSpending\<close>: the spending
  recorded for the epoch is 1100, above the cap, and the second call was not rejected. The
  same two calls awaited one after the other record 1000: the second is rejected and leaves
  the spending as it was.
\<close>

theorem overlapping_payments_exceed_cap:
  "(\<exists>outss. processPaymentBatches sampleViem (zkAgent_new sampleConfig)
              (replicate 9 [(sampleClock, sampleRequest, skipOptions)]) =
            Some (nearCapAgent, outss)) \<and>
   getEpochSpending (policyValidator nearCapAgent) 176204 = 900 \<and>
   maxTransactionValue (config nearCapAgent) * 10 = 1000 \<and>
   (\<exists>ag' a b.
      processPaymentBatch sampleViem nearCapAgent
        [(sampleClock, sampleRequest, sampleOptions), (sampleClock, sampleRequest, sampleOptions)] =
        Some (ag', [Inr a, Inr b]) \<and>
      approved (decision a) \<and> approved (decision b) \<and>
      valid (policyValidation a) \<and> valid (policyValidation b) \<and>
      amountIn (request a) = 100 \<and> amountIn (request b) = 100 \<and>
      epoch (transactionPlan a) = 176204 \<and> epoch (transactionPlan b) = 176204 \<and>
      maxTransactionValue (config ag') * 10 = 1000 \<and>
      getEpochSpending (policyValidator ag') 176204 = 1100) \<and>
   (\<exists>ag1 a ag2 out.
      processPayment sampleViem sampleClock nearCapAgent sampleRequest sampleOptions =
        Some (ag1, Inr a) \<and>
      approved (decision a) \<and>
      getEpochSpending (policyValidator ag1) 176204 = 1000 \<and>
      processPayment sampleViem sampleClock ag1 sampleRequest sampleOptions = Some (ag2, out) \<and>
      rejected out \<and>
      getEpochSpending (policyValidator ag2) 176204 = 1000)"
proof -
  have a: "getEpochSpending (policyValidator nearCapAgent) 176204 = 900"
    "maxTransactionValue (config nearCapAgent) * 10 = 1000"
    "maxTransactionValue sampleConfig * 10 = 1000"
    by (simp_all add: near_facts sampleConfig_def)
  from overlap_run obtain ag' x y where
    "processPaymentBatch sampleViem nearCapAgent
        [(sampleClock, sampleRequest, sampleOptions), (sampleClock, sampleRequest, sampleOptions)] =
        Some (ag', [Inr x, Inr y])"
    "approved (decision x)" "approved (decision y)"
    "valid (policyValidation x)" "valid (policyValidation y)"
    "request x = sampleRequest" "request y = sampleRequest"
    "epoch (transactionPlan x) = 176204" "epoch (transactionPlan y) = 176204"
    "config ag' = sampleConfig"
    "getEpochSpending (policyValidator ag') 176204 = 1100"
    by blast
  then have "\<exists>ag' a b.
      processPaymentBatch sampleViem nearCapAgent
        [(sampleClock, sampleRequest, sampleOptions), (sampleClock, sampleRequest, sampleOptions)] =
        Some (ag', [Inr a, Inr b]) \<and>
      approved (decision a) \<and> approved (decision b) \<and>
      valid (policyValidation a) \<and> valid (policyValidation b) \<and>
      amountIn (request a) = 100 \<and> amountIn (request b) = 100 \<and>
      epoch (transactionPlan a) = 176204 \<and> epoch (transactionPlan b) = 176204 \<and>
      maxTransactionValue (config ag') * 10 = 1000 \<and>
      getEpochSpending (policyValidator ag') 176204 = 1100"
    using a(3) near_facts(5) by auto
  with a(1,2) awaited_run nearCapAgent_reachable show ?thesis by blast
qed

text \<open>
  C6. \<open>processPayment\<close> always ends; when it throws or returns a decision that is not
  approved, the policy validator (the spending per epoch) and the configuration are what
  they were before the call; a failed policy validation is always such a rejection. The
  agent holds no nullifier.
\<close>

theorem rejection_leaves_policy_store_unchanged:
  "\<exists>ag' out. processPayment L clk ag req opts = Some (ag', out) \<and>
     (rejected out \<longrightarrow> policyValidator ag' = policyValidator ag \<and> config ag' = config ag) \<and>
     (\<forall>a. out = Inr a \<and> \<not> valid (policyValidation a) \<longrightarrow> rejected out)"
proof -
  from processPayment_outcome [of L clk ag req opts]
  obtain ag1 out where p: "processPayment L clk ag req opts = Some (ag1, out)"
    and cf: "config ag1 = config ag"
    and oc: "case out of
             Inl e \<Rightarrow> policyValidator ag1 = policyValidator ag
           | Inr a \<Rightarrow> request a = req \<and>
                     epoch (transactionPlan a) = orNumber (opt_epoch opts) (clockEpoch (t_epoch clk)) \<and>
                     policyValidation a =
                       policyValidator_validate (config ag) (policyValidator ag) (t_validate clk) req
                         (orNumber (opt_epoch opts) (clockEpoch (t_epoch clk))) \<and>
                     (approved (decision a) \<longrightarrow>
                        valid (policyValidator_validate (config ag) (policyValidator ag)
                                 (t_validate clk) req
                                 (orNumber (opt_epoch opts) (clockEpoch (t_epoch clk))))) \<and>
                     policyValidator ag1 =
                       (if approved (decision a)
                        then recordSpending (policyValidator ag)
                               (orNumber (opt_epoch opts) (clockEpoch (t_epoch clk))) (amountIn req)
                        else policyValidator ag)"
    by blast
  have "rejected out \<longrightarrow> policyValidator ag1 = policyValidator ag \<and> config ag1 = config ag"
    using oc cf by (cases out) (auto simp: rejected_def)
  moreover have "\<forall>a. out = Inr a \<and> \<not> valid (policyValidation a) \<longrightarrow> rejected out"
    using oc by (cases out) (auto simp: rejected_def)
  ultimately show ?thesis using p by blast
qed

lemma zero_call:
  "\<exists>cd. encodePaymentCall sampleViem 1762041600000 zeroAmountRequest = Inr cd"
  by (simp add: encodePaymentCall_def encodeFunctionData_def sampleViem_def
      zeroAmountRequest_def isAddress_def isValidAddress_def isHexChar_def zeroAddress_def
      toLowerCase_def lowerChar_def keccak256_def clockEpoch_sample char_eval list_all_iff)

lemma zero_validation:
  "policyValidator_validate sampleConfig \<lparr> epochSpending = Map.empty \<rparr> 1762041600000
     zeroAmountRequest 176204 =
   \<lparr> valid = False, violations = [''Amount cannot be zero''], warnings = [],
     capRemaining = 1000, epochValid = True \<rparr>"
  by (simp add: policyValidator_validate_def sampleConfig_def zeroAmountRequest_def Let_def
      clockEpoch_sample isValidAddress_def isHexChar_def)

lemma zero_analyze:
  "analyze emptyAnalyzer zeroAmountRequest False =
     Some (recordTransaction emptyAnalyzer zeroAmountRequest,
           decisionLogic False 100 [''UNKNOWN_MERCHANT''])"
  by (simp add: analyze_def identifyRiskFactors_def isUnusualAmount_def emptyAnalyzer_def
        zeroAmountRequest_def calculateRiskScore_def riskFlags_def isUnknownToken_def
        knownTokens_def toLowerCase_def lowerChar_def getRecentFailures_def checkVelocity_def
        Let_def)

lemma zero_payment_rejected:
  "\<exists>ag' a. processPayment sampleViem sampleClock (zkAgent_new sampleConfig) zeroAmountRequest
              sampleOptions = Some (ag', Inr a) \<and>
           \<not> approved (decision a) \<and> \<not> valid (policyValidation a)"
proof -
  obtain cd where cd: "encodePaymentCall sampleViem 1762041600000 zeroAmountRequest = Inr cd"
    using zero_call by blast
  have cfg: "fst (validateConfiguration sampleConfig)"
    by (simp add: validateConfiguration_def sampleConfig_def)
  have plan: "buildPlan sampleViem 1762041600000 zeroAmountRequest 176204 =
      Inr \<lparr> userOpHash = calculateUserOpHash sampleViem zeroAmountRequest cd, callData = cd,
            target = merchant zeroAmountRequest, plan_value = 0, gasEstimate = 171000,
            policyHash = planPolicyHash sampleViem
                           (calculateUserOpHash sampleViem zeroAmountRequest cd) 176204,
            epoch = 176204 \<rparr>"
    by (simp add: buildPlan_def cd estimateGas_def Let_def)
  have tv: "fst (transactionBuilder_validate
      \<lparr> userOpHash = calculateUserOpHash sampleViem zeroAmountRequest cd, callData = cd,
            target = merchant zeroAmountRequest, plan_value = 0, gasEstimate = 171000,
            policyHash = planPolicyHash sampleViem
                           (calculateUserOpHash sampleViem zeroAmountRequest cd) 176204,
            epoch = 176204 \<rparr>)"
    by (simp add: transactionBuilder_validate_def calculateUserOpHash_def planPolicyHash_def
        zeroAmountRequest_def isValidAddress_def isHexChar_def)
  show ?thesis
    using cfg plan tv
    by (simp add: processPayment_def Let_def sampleClock_def sampleOptions_def zkAgent_new_def
        orNumber_def zero_validation emptyAnalyzer_def [symmetric] zero_analyze
        decisionLogic_def)
qed

theorem rejection_leaves_policy_store_unchanged_witness:
  "\<exists>ag' out. processPayment sampleViem sampleClock (zkAgent_new sampleConfig) zeroAmountRequest
       sampleOptions = Some (ag', out) \<and>
     rejected out \<and>
     policyValidator ag' = policyValidator (zkAgent_new sampleConfig) \<and>
     config ag' = config (zkAgent_new sampleConfig)"
proof -
  from rejection_leaves_policy_store_unchanged
    [of sampleViem sampleClock "zkAgent_new sampleConfig" zeroAmountRequest sampleOptions]
  obtain ag' out where
    p: "processPayment sampleViem sampleClock (zkAgent_new sampleConfig) zeroAmountRequest
       sampleOptions = Some (ag', out)"
    and u: "rejected out \<longrightarrow> policyValidator ag' = policyValidator (zkAgent_new sampleConfig) \<and>
           config ag' = config (zkAgent_new sampleConfig)"
    and v: "\<forall>a. out = Inr a \<and> \<not> valid (policyValidation a) \<longrightarrow> rejected out"
    by blast
  obtain ag0 a where "processPayment sampleViem sampleClock (zkAgent_new sampleConfig)
      zeroAmountRequest sampleOptions = Some (ag0, Inr a)" "\<not> valid (policyValidation a)"
    using zero_payment_rejected by blast
  with p v have "rejected out" by auto
  with p u show ?thesis by blast
qed

section \<open>Invalid input\<close>

text \<open>In \<open>processPayment\<close> a malformed merchant or token address stops the call in
  \<open>buildPlan\<close>: \<open>encodeFunctionData\<close> throws \<open>InvalidAddressError\<close> for the first address
  argument that \<open>isAddress\<close> refuses, before policy validation and risk analysis.\<close>

lemma malformed_not_isAddress: "\<not> isValidAddress s \<Longrightarrow> \<not> isAddress L s"
  by (simp add: isAddress_def)

lemma malformed_address_throws:
  assumes cv: "fst (validateConfiguration (config ag))"
    and bad: "\<not> isValidAddress (merchant req) \<or> \<not> isValidAddress (tokenIn req)"
  shows "processPayment L clk ag req opts =
     Some (ag, Inl (InvalidAddressError
                      (if isAddress L (merchant req) then tokenIn req else merchant req)))"
proof (cases "isAddress L (merchant req)")
  case False
  then have "encodePaymentCall L (t_call clk) req = Inl (InvalidAddressError (merchant req))"
    by (rule encodePaymentCall_merchant)
  then show ?thesis using cv False
    by (simp add: processPayment_def buildPlan_def Let_def)
next
  case True
  then have "isValidAddress (merchant req)" by (rule isAddress_isValidAddress)
  with bad have "\<not> isAddress L (tokenIn req)" by (simp add: isAddress_def)
  with True have "encodePaymentCall L (t_call clk) req = Inl (InvalidAddressError (tokenIn req))"
    by (rule encodePaymentCall_token)
  then show ?thesis using cv True
    by (simp add: processPayment_def buildPlan_def Let_def)
qed

lemma malformed_address_error:
  assumes bad: "\<not> isValidAddress (merchant req) \<or> \<not> isValidAddress (tokenIn req)"
  shows "\<exists>e. processPayment L clk ag req opts = Some (ag, Inl e)"
proof (cases "fst (validateConfiguration (config ag))")
  case False
  then show ?thesis by (simp add: processPayment_def Let_def)
next
  case True
  then show ?thesis
    using malformed_address_throws [OF True bad, of L clk opts] by blast
qed

text \<open>The plan validation of \<open>processPayment\<close> never sees a malformed target: a plan that
  \<open>buildPlan\<close> returns has a merchant that \<open>isAddress\<close> accepted.\<close>

lemma built_plan_target_valid:
  assumes "buildPlan L now req ep = Inr plan"
  shows "isValidAddress (target plan)"
proof -
  obtain cd where "encodePaymentCall L now req = Inr cd"
    using assms by (auto simp: buildPlan_def split: sum.splits)
  then have "isAddress L (merchant req)" using encodePaymentCall_Inr by blast
  then show ?thesis using assms buildPlan_fields [OF assms] by (simp add: isAddress_def)
qed

lemma invalid_input_violations:
  "(\<not> isValidAddress (merchant req) \<longrightarrow>
      ''Invalid merchant address: '' @ merchant req
        \<in> set (violations (policyValidator_validate cfg pv now req ep))) \<and>
   (\<not> isValidAddress (tokenIn req) \<longrightarrow>
      ''Invalid token address: '' @ tokenIn req
        \<in> set (violations (policyValidator_validate cfg pv now req ep))) \<and>
   (amountIn req = 0 \<longrightarrow>
      ''Amount cannot be zero'' \<in> set (violations (policyValidator_validate cfg pv now req ep)))"
  by (simp add: policyValidator_validate_def Let_def)

lemma policy_invalid_decision:
  "\<exists>ra' d. analyze ra req False = Some (ra', d) \<and> \<not> approved d \<and>
     reason d = ''Policy validation failed'' \<and> riskScore d = 100 \<and>
     suggestedAction d = Some ''Fix policy violations and retry''"
proof -
  obtain f where f: "identifyRiskFactors ra req = Some f"
    and a: "analyze ra req False =
      Some (recordTransaction ra req, decisionLogic False (calculateRiskScore f False) (riskFlags f))"
    using analyze_total by blast
  have "calculateRiskScore f False = 100"
    using identifyRiskFactors_fields(1,2) [OF f] by (simp add: calculateRiskScore_def Let_def)
  then show ?thesis using a by (simp add: decisionLogic_def)
qed

lemma policy_valid_reason:
  assumes "analyze ra req True = Some (ra', d)"
  shows "reason d \<noteq> ''Policy validation failed''"
proof -
  obtain f where "analyze ra req True =
      Some (recordTransaction ra req, decisionLogic True (calculateRiskScore f True) (riskFlags f))"
    using analyze_total by blast
  with assms have "d = decisionLogic True (calculateRiskScore f True) (riskFlags f)" by simp
  then show ?thesis by (simp add: decisionLogic_def)
qed

text \<open>A failed policy validation gives one decision, whether the risk analysis runs or is
  skipped.\<close>

lemma riskStep_invalid:
  assumes "\<not> valid pval" and "riskStep ra req opts pval = Some (ra', dec)"
  shows "\<not> approved dec \<and> reason dec = ''Policy validation failed''"
proof (cases "skipRiskAnalysis opts")
  case True
  then show ?thesis using assms by (auto simp: riskStep_def)
next
  case False
  then have "analyze ra req False = Some (ra', dec)" using assms by (simp add: riskStep_def)
  then show ?thesis using policy_invalid_decision [of ra req] by auto
qed

lemma prepareStep_Inr:
  assumes "prepareStep L clk ag req opts = Inr (ep, plan, pval)"
  shows "ep = orNumber (opt_epoch opts) (clockEpoch (t_epoch clk)) \<and>
         pval = policyValidator_validate (config ag) (policyValidator ag) (t_validate clk) req ep"
  using assms by (auto simp: prepareStep_def Let_def split: if_splits sum.splits)

lemma processPayment_decision:
  assumes "processPayment L clk ag req opts = Some (ag', Inr a)"
  shows "riskStep (riskAnalyzer ag) req opts (policyValidation a) =
           Some (riskAnalyzer ag', decision a) \<and>
         policyValidation a =
           policyValidator_validate (config ag) (policyValidator ag) (t_validate clk) req
             (orNumber (opt_epoch opts) (clockEpoch (t_epoch clk)))"
proof (cases "prepareStep L clk ag req opts")
  case (Inl e)
  then show ?thesis using assms by (simp add: processPayment_steps)
next
  case (Inr p)
  obtain ep plan pval where p: "p = (ep, plan, pval)" by (cases p)
  note pi = prepareStep_Inr [OF Inr [unfolded p]]
  show ?thesis
  proof (cases "riskStep (riskAnalyzer ag) req opts pval")
    case None
    then show ?thesis using assms Inr p by (simp add: processPayment_steps)
  next
    case (Some rd)
    obtain ra dec where rd: "rd = (ra, dec)" by (cases rd)
    show ?thesis
    proof (cases "approved dec")
      case False
      then show ?thesis using assms Inr p Some rd pi
        by (auto simp: processPayment_steps)
    next
      case True
      then show ?thesis using assms Inr p Some rd pi
        by (auto simp: processPayment_steps split: sum.splits)
    qed
  qed
qed

lemma zero_amount_decision:
  assumes "amountIn req = 0"
  shows "\<exists>ag' out. processPayment L clk ag req opts = Some (ag', out) \<and>
      policyValidator ag' = policyValidator ag \<and>
      (\<forall>a. out = Inr a \<longrightarrow>
         \<not> approved (decision a) \<and> reason (decision a) = ''Policy validation failed'' \<and>
         ''Amount cannot be zero'' \<in> set (violations (policyValidation a)))"
proof -
  define ep where "ep = orNumber (opt_epoch opts) (clockEpoch (t_epoch clk))"
  define pval where
    "pval = policyValidator_validate (config ag) (policyValidator ag) (t_validate clk) req ep"
  from processPayment_outcome [of L clk ag req opts]
  obtain ag1 out where p: "processPayment L clk ag req opts = Some (ag1, out)"
    and oc: "case out of
             Inl e \<Rightarrow> policyValidator ag1 = policyValidator ag
           | Inr a \<Rightarrow> request a = req \<and> epoch (transactionPlan a) = ep \<and>
                     policyValidation a = pval \<and>
                     (approved (decision a) \<longrightarrow> valid pval) \<and>
                     policyValidator ag1 =
                       (if approved (decision a)
                        then recordSpending (policyValidator ag) ep (amountIn req)
                        else policyValidator ag)"
    unfolding ep_def pval_def by blast
  have msg: "''Amount cannot be zero'' \<in> set (violations pval)"
    using assms invalid_input_violations [of req "config ag" "policyValidator ag" "t_validate clk" ep]
    by (simp add: pval_def)
  then have nv: "\<not> valid pval"
    unfolding pval_def by (auto simp: valid_no_violations)
  have unchanged: "policyValidator ag1 = policyValidator ag"
    using oc nv by (cases out) auto
  have dec: "\<not> approved (decision a) \<and> reason (decision a) = ''Policy validation failed'' \<and>
         ''Amount cannot be zero'' \<in> set (violations (policyValidation a))" if o: "out = Inr a" for a
  proof -
    have pa: "policyValidation a = pval" using oc o by simp
    have "riskStep (riskAnalyzer ag) req opts (policyValidation a) =
           Some (riskAnalyzer ag1, decision a)"
      using processPayment_decision [OF p [unfolded o]] by (rule conjunct1)
    then show ?thesis using riskStep_invalid [of pval] nv msg pa by auto
  qed
  from p unchanged dec show ?thesis by blast
qed

subsection \<open>Sample calls with invalid input\<close>

lemma rejected_payment_eval:
  assumes cv: "fst (validateConfiguration (config ag))"
    and ep: "orNumber (opt_epoch opts) (clockEpoch (t_epoch clk)) = ep"
    and plan: "buildPlan L (t_call clk) req ep = Inr plan"
    and tv: "fst (transactionBuilder_validate plan)"
    and pv: "policyValidator_validate (config ag) (policyValidator ag) (t_validate clk) req ep = pval"
    and nv: "\<not> valid pval"
    and ns: "\<not> skipRiskAnalysis opts"
    and an: "analyze (riskAnalyzer ag) req False = Some (ra, dec)"
  shows "processPayment L clk ag req opts =
     Some (ag \<lparr> riskAnalyzer := ra \<rparr>,
           Inr \<lparr> request = req, decision = dec, policyValidation = pval,
                 transactionPlan = plan, attestation = None, timestamp = t_start clk \<rparr>)"
proof -
  have "\<not> approved dec" using policy_invalid_decision [of "riskAnalyzer ag" req] an by auto
  then show ?thesis using cv ep plan tv pv nv ns an
    by (simp add: processPayment_def Let_def)
qed

lemma zero_plan:
  "\<exists>plan. buildPlan sampleViem 1762041600000 zeroAmountRequest 176204 = Inr plan \<and>
     fst (transactionBuilder_validate plan)"
proof -
  obtain cd where cd: "encodePaymentCall sampleViem 1762041600000 zeroAmountRequest = Inr cd"
    using zero_call by blast
  have "fst (transactionBuilder_validate
      \<lparr> userOpHash = calculateUserOpHash sampleViem zeroAmountRequest cd, callData = cd,
            target = merchant zeroAmountRequest, plan_value = 0, gasEstimate = 171000,
            policyHash = planPolicyHash sampleViem
                           (calculateUserOpHash sampleViem zeroAmountRequest cd) 176204,
            epoch = 176204 \<rparr>)"
    by (simp add: transactionBuilder_validate_def calculateUserOpHash_def planPolicyHash_def
        zeroAmountRequest_def isValidAddress_def isHexChar_def)
  then show ?thesis by (simp add: buildPlan_def cd estimateGas_def Let_def)
qed

lemma allowlist_zero_validation:
  "policyValidator_validate allowlistConfig \<lparr> epochSpending = Map.empty \<rparr> 1762041600000
     zeroAmountRequest 176204 =
     \<lparr> valid = False, violations = [''Amount cannot be zero''], warnings = [],
       capRemaining = 1000, epochValid = True \<rparr>"
  by (simp add: policyValidator_validate_def allowlistConfig_def sampleConfig_def
      zeroAmountRequest_def Let_def clockEpoch_sample isValidAddress_def isHexChar_def
      toLowerCase_def lowerChar_def)

lemma allowlist_sample_validation:
  "policyValidator_validate allowlistConfig \<lparr> epochSpending = Map.empty \<rparr> 1762041600000
     sampleRequest 176204 =
     \<lparr> valid = False,
       violations = [''Token 0xa0b86991c6218b36c1d19d4a2e9eb0ce3606eb48 is not in allowlist''],
       warnings = [], capRemaining = 1000, epochValid = True \<rparr>"
  by (simp add: policyValidator_validate_def allowlistConfig_def sampleConfig_def
      sampleRequest_def Let_def clockEpoch_sample isValidAddress_def isHexChar_def
      toLowerCase_def lowerChar_def)

lemma sample_analyze_invalid:
  "analyze emptyAnalyzer sampleRequest False =
     Some (recordTransaction emptyAnalyzer sampleRequest,
           decisionLogic False 100 [''UNKNOWN_MERCHANT''])"
  by (simp add: analyze_def identifyRiskFactors_def isUnusualAmount_def emptyAnalyzer_def
      sampleRequest_def calculateRiskScore_def riskFlags_def isUnknownToken_def knownTokens_def
      toLowerCase_def lowerChar_def getRecentFailures_def checkVelocity_def Let_def)

lemma allowlist_agent:
  "fst (validateConfiguration allowlistConfig)"
  "config (zkAgent_new allowlistConfig) = allowlistConfig"
  "policyValidator (zkAgent_new allowlistConfig) = \<lparr> epochSpending = Map.empty \<rparr>"
  "riskAnalyzer (zkAgent_new allowlistConfig) = emptyAnalyzer"
  "orNumber (opt_epoch sampleOptions) (clockEpoch (t_epoch sampleClock)) = 176204"
  "t_call sampleClock = 1762041600000" "t_validate sampleClock = 1762041600000"
  "\<not> skipRiskAnalysis sampleOptions"
  by (simp_all add: zkAgent_new_def allowlistConfig_def sampleConfig_def validateConfiguration_def
      emptyAnalyzer_def sampleOptions_def orNumber_def sampleClock_def)

lemma allowlist_payments:
  "\<exists>pz ps.
     processPayment sampleViem sampleClock (zkAgent_new allowlistConfig) zeroAmountRequest
       sampleOptions =
       Some (zkAgent_new allowlistConfig
               \<lparr> riskAnalyzer := recordTransaction emptyAnalyzer zeroAmountRequest \<rparr>,
             Inr \<lparr> request = zeroAmountRequest,
                   decision = decisionLogic False 100 [''UNKNOWN_MERCHANT''],
                   policyValidation =
                     \<lparr> valid = False, violations = [''Amount cannot be zero''], warnings = [],
                       capRemaining = 1000, epochValid = True \<rparr>,
                   transactionPlan = pz, attestation = None,
                   timestamp = t_start sampleClock \<rparr>) \<and>
     processPayment sampleViem sampleClock (zkAgent_new allowlistConfig) sampleRequest
       sampleOptions =
       Some (zkAgent_new allowlistConfig
               \<lparr> riskAnalyzer := recordTransaction emptyAnalyzer sampleRequest \<rparr>,
             Inr \<lparr> request = sampleRequest,
                   decision = decisionLogic False 100 [''UNKNOWN_MERCHANT''],
                   policyValidation =
                     \<lparr> valid = False,
                       violations =
                         [''Token 0xa0b86991c6218b36c1d19d4a2e9eb0ce3606eb48 is not in allowlist''],
                       warnings = [], capRemaining = 1000, epochValid = True \<rparr>,
                   transactionPlan = ps, attestation = None,
                   timestamp = t_start sampleClock \<rparr>)"
proof -
  obtain pz where pz: "buildPlan sampleViem 1762041600000 zeroAmountRequest 176204 = Inr pz"
    "fst (transactionBuilder_validate pz)"
    using zero_plan by blast
  obtain ps where ps: "buildPlan sampleViem 1762041600000 sampleRequest 176204 = Inr ps"
    "fst (transactionBuilder_validate ps)"
    using sample_plan by blast
  have z: "processPayment sampleViem sampleClock (zkAgent_new allowlistConfig) zeroAmountRequest
       sampleOptions =
       Some (zkAgent_new allowlistConfig
               \<lparr> riskAnalyzer := recordTransaction emptyAnalyzer zeroAmountRequest \<rparr>,
             Inr \<lparr> request = zeroAmountRequest,
                   decision = decisionLogic False 100 [''UNKNOWN_MERCHANT''],
                   policyValidation =
                     \<lparr> valid = False, violations = [''Amount cannot be zero''], warnings = [],
                       capRemaining = 1000, epochValid = True \<rparr>,
                   transactionPlan = pz, attestation = None,
                   timestamp = t_start sampleClock \<rparr>)"
    by (rule rejected_payment_eval [where ep = 176204])
       (simp_all add: allowlist_agent pz allowlist_zero_validation zero_analyze)
  have s: "processPayment sampleViem sampleClock (zkAgent_new allowlistConfig) sampleRequest
       sampleOptions =
       Some (zkAgent_new allowlistConfig
               \<lparr> riskAnalyzer := recordTransaction emptyAnalyzer sampleRequest \<rparr>,
             Inr \<lparr> request = sampleRequest,
                   decision = decisionLogic False 100 [''UNKNOWN_MERCHANT''],
                   policyValidation =
                     \<lparr> valid = False,
                       violations =
                         [''Token 0xa0b86991c6218b36c1d19d4a2e9eb0ce3606eb48 is not in allowlist''],
                       warnings = [], capRemaining = 1000, epochValid = True \<rparr>,
                   transactionPlan = ps, attestation = None,
                   timestamp = t_start sampleClock \<rparr>)"
    by (rule rejected_payment_eval [where ep = 176204])
       (simp_all add: allowlist_agent ps allowlist_sample_validation sample_analyze_invalid)
  from z s show ?thesis by blast
qed

text \<open>
  C9, as stated, fails for a zero amount. With only DAI allowed, \<open>processPayment\<close> on a
  request for a zero amount (invalid input) and on a well-formed request in a token outside
  the allowlist both run policy validation and risk analysis to the end, push the request
  on the history, and return an analysis, not an error; each validation has one violation,
  and the two decisions are the same. Called on their own, \<open>validate\<close> and \<open>analyze\<close> do
  not fail fast for malformed addresses either: a request with a zero amount and two
  malformed addresses gets all three violations.
\<close>

theorem invalid_input_counterexample:
  "amountIn zeroAmountRequest = 0 \<and>
   isValidAddress (merchant sampleRequest) \<and> isValidAddress (tokenIn sampleRequest) \<and>
   amountIn sampleRequest \<noteq> 0 \<and>
   (\<exists>agz az ags as.
      processPayment sampleViem sampleClock (zkAgent_new allowlistConfig) zeroAmountRequest
        sampleOptions = Some (agz, Inr az) \<and>
      processPayment sampleViem sampleClock (zkAgent_new allowlistConfig) sampleRequest
        sampleOptions = Some (ags, Inr as) \<and>
      violations (policyValidation az) = [''Amount cannot be zero''] \<and>
      violations (policyValidation as) =
        [''Token 0xa0b86991c6218b36c1d19d4a2e9eb0ce3606eb48 is not in allowlist''] \<and>
      transactionHistory (riskAnalyzer agz) = [zeroAmountRequest] \<and>
      decision az = decisionLogic False 100 [''UNKNOWN_MERCHANT''] \<and>
      decision as = decisionLogic False 100 [''UNKNOWN_MERCHANT'']) \<and>
   policyValidator_validate allowlistConfig \<lparr> epochSpending = Map.empty \<rparr> 1762041600000
     zeroAmountRequest 176204 =
     \<lparr> valid = False, violations = [''Amount cannot be zero''], warnings = [],
       capRemaining = 1000, epochValid = True \<rparr> \<and>
   policyValidator_validate allowlistConfig \<lparr> epochSpending = Map.empty \<rparr> 1762041600000
     sampleRequest 176204 =
     \<lparr> valid = False,
       violations = [''Token 0xa0b86991c6218b36c1d19d4a2e9eb0ce3606eb48 is not in allowlist''],
       warnings = [], capRemaining = 1000, epochValid = True \<rparr> \<and>
   analyze emptyAnalyzer zeroAmountRequest False =
     Some (recordTransaction emptyAnalyzer zeroAmountRequest,
           decisionLogic False 100 [''UNKNOWN_MERCHANT'']) \<and>
   analyze emptyAnalyzer sampleRequest False =
     Some (recordTransaction emptyAnalyzer sampleRequest,
           decisionLogic False 100 [''UNKNOWN_MERCHANT'']) \<and>
   violations (policyValidator_validate sampleConfig \<lparr> epochSpending = Map.empty \<rparr> 1762041600000
     malformedRequest 176204) =
     [''Amount cannot be zero'', ''Invalid merchant address: merchant.eth'',
      ''Invalid token address: usdc'']"
proof -
  have v3: "violations (policyValidator_validate sampleConfig \<lparr> epochSpending = Map.empty \<rparr>
     1762041600000 malformedRequest 176204) =
     [''Amount cannot be zero'', ''Invalid merchant address: merchant.eth'',
      ''Invalid token address: usdc'']"
    by (simp add: policyValidator_validate_def sampleConfig_def malformedRequest_def Let_def
        clockEpoch_sample isValidAddress_def)
  have w: "isValidAddress (merchant sampleRequest)" "isValidAddress (tokenIn sampleRequest)"
    "amountIn sampleRequest \<noteq> 0" "amountIn zeroAmountRequest = 0"
    by (simp_all add: sampleRequest_def zeroAmountRequest_def isValidAddress_def isHexChar_def)
  have h: "transactionHistory (riskAnalyzer (zkAgent_new allowlistConfig
               \<lparr> riskAnalyzer := recordTransaction emptyAnalyzer zeroAmountRequest \<rparr>)) =
           [zeroAmountRequest]"
    by (simp add: recordTransaction_def emptyAnalyzer_def Let_def)
  have pp: "\<exists>agz az ags as.
      processPayment sampleViem sampleClock (zkAgent_new allowlistConfig) zeroAmountRequest
        sampleOptions = Some (agz, Inr az) \<and>
      processPayment sampleViem sampleClock (zkAgent_new allowlistConfig) sampleRequest
        sampleOptions = Some (ags, Inr as) \<and>
      violations (policyValidation az) = [''Amount cannot be zero''] \<and>
      violations (policyValidation as) =
        [''Token 0xa0b86991c6218b36c1d19d4a2e9eb0ce3606eb48 is not in allowlist''] \<and>
      transactionHistory (riskAnalyzer agz) = [zeroAmountRequest] \<and>
      decision az = decisionLogic False 100 [''UNKNOWN_MERCHANT''] \<and>
      decision as = decisionLogic False 100 [''UNKNOWN_MERCHANT'']"
    using allowlist_payments h by (elim exE conjE) (simp only: , simp)
  from pp v3 w allowlist_zero_validation allowlist_sample_validation zero_analyze
    sample_analyze_invalid
  show ?thesis by (simp only: simp_thms)
qed

text \<open>
  C9, amended. With a valid configuration, \<open>processPayment\<close> on a request with a malformed
  merchant or token address fails fast: \<open>buildPlan\<close> throws \<open>InvalidAddressError\<close> for the
  merchant if \<open>isAddress\<close> refuses it and for the token otherwise, before policy
  validation and risk analysis, and the agent is left as it was; with any configuration the
  call throws. A thrown error is not a returned decision. A zero amount does not fail fast:
  with a valid configuration and addresses that \<open>isAddress\<close> accepts the call returns an
  analysis, not an error; it leaves the recorded spending as it was, and in the analysis
  returned the decision is not approved, has the reason \<open>Policy validation failed\<close>, and
  \<open>Amount cannot be zero\<close> is among the violations. Called on their own, \<open>validate\<close> lists
  a malformed address or a zero amount among its violations and is not valid, \<open>analyze\<close>
  returns for every failed policy validation a decision that is not approved, with that
  reason, score 100 and the action \<open>Fix policy violations and retry\<close>, and no decision on
  a request that passed policy validation has that reason.
\<close>

theorem invalid_input_outcomes:
  "(\<not> isValidAddress (merchant req) \<or> \<not> isValidAddress (tokenIn req) \<longrightarrow>
      (\<exists>e. processPayment L clk ag req opts = Some (ag, Inl e)) \<and>
      (fst (validateConfiguration (config ag)) \<longrightarrow>
         processPayment L clk ag req opts =
           Some (ag, Inl (InvalidAddressError
                            (if isAddress L (merchant req) then tokenIn req else merchant req))))) \<and>
   (\<not> isValidAddress (merchant req) \<longrightarrow> \<not> isAddress L (merchant req)) \<and>
   (amountIn req = 0 \<longrightarrow>
      (\<exists>ag' out. processPayment L clk ag req opts = Some (ag', out) \<and>
         policyValidator ag' = policyValidator ag \<and>
         (\<forall>a. out = Inr a \<longrightarrow>
            \<not> approved (decision a) \<and> reason (decision a) = ''Policy validation failed'' \<and>
            ''Amount cannot be zero'' \<in> set (violations (policyValidation a))))) \<and>
   (amountIn req = 0 \<and> fst (validateConfiguration (config ag)) \<and>
    isAddress L (merchant req) \<and> isAddress L (tokenIn req) \<longrightarrow>
      (\<exists>ra a. processPayment L clk ag req opts = Some (ag \<lparr> riskAnalyzer := ra \<rparr>, Inr a))) \<and>
   (\<not> isValidAddress (merchant req) \<or> \<not> isValidAddress (tokenIn req) \<or> amountIn req = 0 \<longrightarrow>
      \<not> valid (policyValidator_validate cfg pv now req ep)) \<and>
   (\<not> isValidAddress (merchant req) \<longrightarrow>
      ''Invalid merchant address: '' @ merchant req
        \<in> set (violations (policyValidator_validate cfg pv now req ep))) \<and>
   (\<not> isValidAddress (tokenIn req) \<longrightarrow>
      ''Invalid token address: '' @ tokenIn req
        \<in> set (violations (policyValidator_validate cfg pv now req ep))) \<and>
   (amountIn req = 0 \<longrightarrow>
      ''Amount cannot be zero'' \<in> set (violations (policyValidator_validate cfg pv now req ep))) \<and>
   (\<forall>ra2 req2. \<exists>ra' d. analyze ra2 req2 False = Some (ra', d) \<and>
      \<not> approved d \<and> reason d = ''Policy validation failed'' \<and> riskScore d = 100 \<and>
      suggestedAction d = Some ''Fix policy violations and retry'') \<and>
   (\<forall>ra2 req2 ra' d. analyze ra2 req2 True = Some (ra', d) \<longrightarrow>
      reason d \<noteq> ''Policy validation failed'')"
proof -
  note vi = invalid_input_violations [of req cfg pv now ep]
  have t: "\<not> isValidAddress (merchant req) \<or> \<not> isValidAddress (tokenIn req) \<longrightarrow>
      (\<exists>e. processPayment L clk ag req opts = Some (ag, Inl e)) \<and>
      (fst (validateConfiguration (config ag)) \<longrightarrow>
         processPayment L clk ag req opts =
           Some (ag, Inl (InvalidAddressError
                            (if isAddress L (merchant req) then tokenIn req else merchant req))))"
    using malformed_address_error malformed_address_throws by blast
  have m: "\<not> isValidAddress (merchant req) \<longrightarrow> \<not> isAddress L (merchant req)"
    using malformed_not_isAddress by blast
  have z: "amountIn req = 0 \<longrightarrow>
      (\<exists>ag' out. processPayment L clk ag req opts = Some (ag', out) \<and>
         policyValidator ag' = policyValidator ag \<and>
         (\<forall>a. out = Inr a \<longrightarrow>
            \<not> approved (decision a) \<and> reason (decision a) = ''Policy validation failed'' \<and>
            ''Amount cannot be zero'' \<in> set (violations (policyValidation a))))"
    using zero_amount_decision by blast
  have nv: "\<not> isValidAddress (merchant req) \<or> \<not> isValidAddress (tokenIn req) \<or> amountIn req = 0 \<longrightarrow>
      \<not> valid (policyValidator_validate cfg pv now req ep)"
    using vi by (auto simp: valid_no_violations)
  have zr: "amountIn req = 0 \<and> fst (validateConfiguration (config ag)) \<and>
    isAddress L (merchant req) \<and> isAddress L (tokenIn req) \<longrightarrow>
      (\<exists>ra a. processPayment L clk ag req opts = Some (ag \<lparr> riskAnalyzer := ra \<rparr>, Inr a))"
  proof (intro impI, elim conjE)
    assume z0: "amountIn req = 0" and cv: "fst (validateConfiguration (config ag))"
      and ad: "isAddress L (merchant req)" "isAddress L (tokenIn req)"
    have inv: "\<not> valid (policyValidator_validate (config ag) (policyValidator ag) (t_validate clk)
                       req (orNumber (opt_epoch opts) (clockEpoch (t_epoch clk))))"
      using z0 invalid_input_violations [of req "config ag" "policyValidator ag" "t_validate clk"
          "orNumber (opt_epoch opts) (clockEpoch (t_epoch clk))"]
      by (auto simp: valid_no_violations)
    have am: "0 \<le> amountIn req" "amountIn req < 2 ^ 256" using z0 by simp_all
    from invalid_policy_returns_decision [OF cv ad am inv]
    show "\<exists>ra a. processPayment L clk ag req opts = Some (ag \<lparr> riskAnalyzer := ra \<rparr>, Inr a)"
      by blast
  qed
  have g: "\<forall>ra2 req2. \<exists>ra' d. analyze ra2 req2 False = Some (ra', d) \<and>
      \<not> approved d \<and> reason d = ''Policy validation failed'' \<and> riskScore d = 100 \<and>
      suggestedAction d = Some ''Fix policy violations and retry''"
    using policy_invalid_decision by blast
  have r: "\<forall>ra2 req2 ra' d. analyze ra2 req2 True = Some (ra', d) \<longrightarrow>
      reason d \<noteq> ''Policy validation failed''"
    using policy_valid_reason by blast
  from t m z zr nv vi g r show ?thesis by (intro conjI) blast+
qed

theorem invalid_input_outcomes_witness:
  "\<not> isValidAddress (merchant malformedRequest) \<and>
   \<not> isValidAddress (tokenIn malformedTokenRequest) \<and>
   amountIn zeroAmountRequest = 0 \<and>
   fst (validateConfiguration (config (zkAgent_new sampleConfig))) \<and>
   isAddress sampleViem (merchant zeroAmountRequest) \<and>
   isAddress sampleViem (tokenIn zeroAmountRequest) \<and>
   processPayment sampleViem sampleClock (zkAgent_new sampleConfig) malformedRequest
     sampleOptions =
     Some (zkAgent_new sampleConfig, Inl (InvalidAddressError ''merchant.eth'')) \<and>
   processPayment sampleViem sampleClock (zkAgent_new sampleConfig) malformedTokenRequest
     sampleOptions =
     Some (zkAgent_new sampleConfig, Inl (InvalidAddressError ''usdc'')) \<and>
   (\<exists>ag' a. processPayment sampleViem sampleClock (zkAgent_new sampleConfig) zeroAmountRequest
        sampleOptions = Some (ag', Inr a) \<and>
      policyValidator ag' = policyValidator (zkAgent_new sampleConfig) \<and>
      \<not> approved (decision a) \<and> reason (decision a) = ''Policy validation failed'' \<and>
      ''Amount cannot be zero'' \<in> set (violations (policyValidation a))) \<and>
   \<not> valid (policyValidator_validate sampleConfig \<lparr> epochSpending = Map.empty \<rparr> 1762041600000
             malformedRequest 176204) \<and>
   ''Invalid merchant address: merchant.eth''
     \<in> set (violations (policyValidator_validate sampleConfig \<lparr> epochSpending = Map.empty \<rparr>
                           1762041600000 malformedRequest 176204)) \<and>
   ''Invalid token address: usdc''
     \<in> set (violations (policyValidator_validate sampleConfig \<lparr> epochSpending = Map.empty \<rparr>
                           1762041600000 malformedTokenRequest 176204))"
proof -
  note t1 = invalid_input_outcomes [of malformedRequest sampleViem sampleClock
      "zkAgent_new sampleConfig" sampleOptions sampleConfig "\<lparr> epochSpending = Map.empty \<rparr>"
      1762041600000 176204]
  note t2 = invalid_input_outcomes [of malformedTokenRequest sampleViem sampleClock
      "zkAgent_new sampleConfig" sampleOptions sampleConfig "\<lparr> epochSpending = Map.empty \<rparr>"
      1762041600000 176204]
  note t3 = invalid_input_outcomes [of zeroAmountRequest sampleViem sampleClock
      "zkAgent_new sampleConfig" sampleOptions sampleConfig "\<lparr> epochSpending = Map.empty \<rparr>"
      1762041600000 176204]
  have m: "\<not> isValidAddress (merchant malformedRequest)"
    "merchant malformedRequest = ''merchant.eth''"
    by (simp_all add: malformedRequest_def isValidAddress_def)
  have k: "\<not> isValidAddress (tokenIn malformedTokenRequest)"
    "tokenIn malformedTokenRequest = ''usdc''"
    "isAddress sampleViem (merchant malformedTokenRequest)"
    by (simp_all add: malformedTokenRequest_def isValidAddress_def isAddress_def isHexChar_def
        toLowerCase_def lowerChar_def sampleViem_def)
  have z: "amountIn zeroAmountRequest = 0" by (simp add: zeroAmountRequest_def)
  have cv: "fst (validateConfiguration (config (zkAgent_new sampleConfig)))"
    by (simp add: zkAgent_new_def validateConfiguration_def sampleConfig_def)
  have nm: "\<not> isAddress sampleViem (merchant malformedRequest)"
    using t1 m(1) by blast
  have p1: "processPayment sampleViem sampleClock (zkAgent_new sampleConfig) malformedRequest
     sampleOptions =
     Some (zkAgent_new sampleConfig, Inl (InvalidAddressError ''merchant.eth''))"
    using t1 m cv nm by simp
  have p2: "processPayment sampleViem sampleClock (zkAgent_new sampleConfig) malformedTokenRequest
     sampleOptions =
     Some (zkAgent_new sampleConfig, Inl (InvalidAddressError ''usdc''))"
    using t2 k cv by simp
  have za: "isAddress sampleViem (merchant zeroAmountRequest)"
    "isAddress sampleViem (tokenIn zeroAmountRequest)"
    by (simp_all add: zeroAmountRequest_def isValidAddress_def isAddress_def isHexChar_def
        toLowerCase_def lowerChar_def sampleViem_def)
  from t3 z obtain ag' out where
    o: "processPayment sampleViem sampleClock (zkAgent_new sampleConfig) zeroAmountRequest
        sampleOptions = Some (ag', out)"
    "policyValidator ag' = policyValidator (zkAgent_new sampleConfig)"
    "\<forall>a. out = Inr a \<longrightarrow>
            \<not> approved (decision a) \<and> reason (decision a) = ''Policy validation failed'' \<and>
            ''Amount cannot be zero'' \<in> set (violations (policyValidation a))"
    by blast
  from t3 z cv za obtain ra0 a where "processPayment sampleViem sampleClock
      (zkAgent_new sampleConfig) zeroAmountRequest sampleOptions =
      Some (zkAgent_new sampleConfig \<lparr> riskAnalyzer := ra0 \<rparr>, Inr a)"
    by blast
  with o have p3: "\<exists>ag' a. processPayment sampleViem sampleClock (zkAgent_new sampleConfig)
        zeroAmountRequest sampleOptions = Some (ag', Inr a) \<and>
      policyValidator ag' = policyValidator (zkAgent_new sampleConfig) \<and>
      \<not> approved (decision a) \<and> reason (decision a) = ''Policy validation failed'' \<and>
      ''Amount cannot be zero'' \<in> set (violations (policyValidation a))"
    by auto
  have v1: "\<not> valid (policyValidator_validate sampleConfig \<lparr> epochSpending = Map.empty \<rparr>
             1762041600000 malformedRequest 176204)"
    "''Invalid merchant address: merchant.eth''
     \<in> set (violations (policyValidator_validate sampleConfig \<lparr> epochSpending = Map.empty \<rparr>
                           1762041600000 malformedRequest 176204))"
    using t1 m by simp_all
  have v2: "''Invalid token address: usdc''
     \<in> set (violations (policyValidator_validate sampleConfig \<lparr> epochSpending = Map.empty \<rparr>
                           1762041600000 malformedTokenRequest 176204))"
    using t2 k by simp
  from m(1) k(1) z cv za p1 p2 p3 v1 v2 show ?thesis by (intro conjI)
qed

end
